theory Spec2Isabelle
  imports Main "HOL-Library.AList" "HOL-Library.Char_ord" "HOL-Library.List_Lexorder"
begin

section \<open>JavaScript strings\<close>

text \<open>
  A JavaScript string is modelled as an Isabelle \<open>string\<close>: the bytes of its UTF-8
  encoding, the text being well-formed Unicode. The tests the program makes on strings are
  written out: \<open>startsWith\<close>, \<open>endsWith\<close>, \<open>includes\<close>, \<open>toLowerCase\<close>
  and \<open>trim\<close>.
\<close>

fun startsWith :: "string \<Rightarrow> string \<Rightarrow> bool" where
  "startsWith s [] = True"
| "startsWith [] (p # ps) = False"
| "startsWith (c # cs) (p # ps) = (c = p \<and> startsWith cs ps)"

definition endsWith :: "string \<Rightarrow> string \<Rightarrow> bool" where
  "endsWith s p = startsWith (rev s) (rev p)"

fun str_includes :: "string \<Rightarrow> string \<Rightarrow> bool" where
  "str_includes [] p = (p = [])"
| "str_includes (c # cs) p = (startsWith (c # cs) p \<or> str_includes cs p)"

text \<open>
  \<open>toLowerCase\<close> changes the letters A to Z here. In JavaScript it also changes letters
  outside ASCII, and gives an ASCII letter for none of them but U+0130 (an \<open>i\<close> and a
  combining dot) and U+212A (a \<open>k\<close>). The program only compares the result with
  \<open>-default\<close>, or looks in it for \<open>.png\<close>, \<open>image/png\<close>, \<open>not a member\<close>
  and \<open>message to delete not found\<close>, which those two letters cannot complete.
\<close>

definition lowerChar :: "char \<Rightarrow> char" where
  "lowerChar c =
     (case map_of (zip ''ABCDEFGHIJKLMNOPQRSTUVWXYZ'' ''abcdefghijklmnopqrstuvwxyz'') c of
        Some l \<Rightarrow> l
      | None \<Rightarrow> c)"

definition toLowerCase :: "string \<Rightarrow> string" where
  "toLowerCase s = map lowerChar s"

text \<open>
  The white space of \<open>\s\<close> and of \<open>trim\<close>, each character by its bytes: U+0009 to
  U+000D, U+0020, U+00A0, U+1680, U+2000 to U+200A, U+2028, U+2029, U+202F, U+205F, U+3000 and
  U+FEFF.
\<close>

definition whiteSpace :: "string list" where
  "whiteSpace =
     [[CHR 0x09], [CHR 0x0A], [CHR 0x0B], [CHR 0x0C], [CHR 0x0D], [CHR 0x20],
      [CHR 0xC2, CHR 0xA0],
      [CHR 0xE1, CHR 0x9A, CHR 0x80],
      [CHR 0xE2, CHR 0x80, CHR 0x80], [CHR 0xE2, CHR 0x80, CHR 0x81],
      [CHR 0xE2, CHR 0x80, CHR 0x82], [CHR 0xE2, CHR 0x80, CHR 0x83],
      [CHR 0xE2, CHR 0x80, CHR 0x84], [CHR 0xE2, CHR 0x80, CHR 0x85],
      [CHR 0xE2, CHR 0x80, CHR 0x86], [CHR 0xE2, CHR 0x80, CHR 0x87],
      [CHR 0xE2, CHR 0x80, CHR 0x88], [CHR 0xE2, CHR 0x80, CHR 0x89],
      [CHR 0xE2, CHR 0x80, CHR 0x8A],
      [CHR 0xE2, CHR 0x80, CHR 0xA8], [CHR 0xE2, CHR 0x80, CHR 0xA9],
      [CHR 0xE2, CHR 0x80, CHR 0xAF],
      [CHR 0xE2, CHR 0x81, CHR 0x9F],
      [CHR 0xE3, CHR 0x80, CHR 0x80],
      [CHR 0xEF, CHR 0xBB, CHR 0xBF]]"

text \<open>The number of bytes of the white-space character a string begins with, or 0.\<close>

definition spaceLen :: "string \<Rightarrow> nat" where
  "spaceLen s = (case find (startsWith s) whiteSpace of Some w \<Rightarrow> length w | None \<Rightarrow> 0)"

text \<open>The white-space characters a string begins with (\<open>\s*\<close>), and the rest.\<close>

function spaces :: "string \<Rightarrow> string list" where
  "spaces s = (if spaceLen s = 0 then [] else take (spaceLen s) s # spaces (drop (spaceLen s) s))"
  by pat_completeness auto
termination
proof (relation "measure length")
  show "wf (measure length)" by simp
next
  fix s :: string
  assume a: "spaceLen s \<noteq> 0"
  have "s \<noteq> []"
  proof
    assume "s = []"
    then have "spaceLen s = 0"
      by (simp add: spaceLen_def whiteSpace_def)
    with a show False by simp
  qed
  with a show "(drop (spaceLen s) s, s) \<in> measure length" by simp
qed

definition dropSpaces :: "string \<Rightarrow> string" where
  "dropSpaces s = drop (length (concat (spaces s))) s"

text \<open>The characters before the first white space (\<open>\S*\<close>).\<close>

fun nonSpaces :: "string \<Rightarrow> string" where
  "nonSpaces [] = []"
| "nonSpaces (c # cs) = (if spaceLen (c # cs) \<noteq> 0 then [] else c # nonSpaces cs)"

text \<open>\<open>trim\<close>: the white space at the end is cut where nothing but white space follows.\<close>

fun trimEnd :: "string \<Rightarrow> string" where
  "trimEnd [] = []"
| "trimEnd (c # cs) = (if dropSpaces (c # cs) = [] then [] else c # trimEnd cs)"

definition trim :: "string \<Rightarrow> string" where
  "trim s = trimEnd (dropSpaces s)"

definition isWord :: "char \<Rightarrow> bool" where
  "isWord c = ((CHR ''a'' \<le> c \<and> c \<le> CHR ''z'') \<or> (CHR ''A'' \<le> c \<and> c \<le> CHR ''Z'') \<or>
               (CHR ''0'' \<le> c \<and> c \<le> CHR ''9'') \<or> c = CHR ''_'')"

text \<open>\<open>String(n)\<close> for an integer \<open>n\<close>: its decimal digits, with a minus sign when negative.\<close>

definition digitChar :: "nat \<Rightarrow> char" where
  "digitChar d = ''0123456789'' ! d"

fun digits :: "nat \<Rightarrow> string" where
  "digits n = (if n < 10 then [digitChar n] else digits (n div 10) @ [digitChar (n mod 10)])"

definition String_of_int :: "int \<Rightarrow> string" where
  "String_of_int i = (if i < 0 then CHR ''-'' # digits (nat (- i)) else digits (nat i))"

section \<open>The chat map\<close>

text \<open>
  \<open>image_url\<close> is a string or an array of strings. Message ids are JavaScript numbers.
  A field that is absent (\<open>undefined\<close>) is \<open>None\<close>.
\<close>

datatype image = Single string | Album "string list"

record chat_record =
  message_id :: "int option"
  message_ids :: "int list option"
  image_url :: "image option"
  caption :: "string option"
  welcome_message_id :: "int option"
  message_thread_id :: "int option"

definition emptyRecord :: chat_record where
  "emptyRecord = \<lparr> message_id = None, message_ids = None, image_url = None, caption = None,
                    welcome_message_id = None, message_thread_id = None \<rparr>"

text \<open>JavaScript truthiness of the values the program tests.\<close>

definition truthyId :: "int option \<Rightarrow> bool" where
  "truthyId v = (case v of None \<Rightarrow> False | Some n \<Rightarrow> n \<noteq> 0)"

definition truthyImage :: "image \<Rightarrow> bool" where
  "truthyImage v = (case v of Single s \<Rightarrow> s \<noteq> [] | Album xs \<Rightarrow> True)"

subsection \<open>Requests to the outside world\<close>

text \<open>
  Every request the program sends is appended to a log. A caption is logged as the text given
  to \<open>withTimestamp\<close> and an image as the value given to \<open>cacheBustedUrl\<close>: the
  time stamp and the cache-busting parameter depend on the clock only. In a media item the
  caption \<open>None\<close> is the empty caption \<open>''\<close> of the items after the first.
\<close>

datatype reply =
    Welcome | CaptionReset | CaptionEmpty | CaptionSaved
  | ImageUsage | ImageUnverified | ImageSaved

datatype call =
    SendPhoto string image string "int option"
  | EditMessageMedia string int image "string option"
  | SendMediaGroup string "(string \<times> string option) list" "int option"
  | DeleteMessage string int
  | PinChatMessage string "int option"
  | SendMessage string reply
  | Fetch string string

text \<open>
  The program state: the in-memory map (insertion order as in a JavaScript object), the
  dirty flag and the log of requests. A JavaScript object lists keys that are array indices
  before the others; the ids of channels and groups are negative, so that their keys are
  listed in insertion order.
\<close>

record state =
  messageMap :: "(string \<times> chat_record) list"
  mapDirty :: bool
  calls :: "call list"

definition removeChat :: "string \<Rightarrow> state \<Rightarrow> bool \<times> state" where
  "removeChat chatId st =
     (case map_of (messageMap st) chatId of
        Some r \<Rightarrow> (True, st\<lparr> messageMap := AList.delete chatId (messageMap st), mapDirty := True \<rparr>)
      | None \<Rightarrow> (False, st))"

text \<open>\<open>if (!messageMap[chatId]) messageMap[chatId] = {}\<close>\<close>

definition ensureChat :: "string \<Rightarrow> state \<Rightarrow> state" where
  "ensureChat chatId st =
     (case map_of (messageMap st) chatId of
        Some r \<Rightarrow> st
      | None \<Rightarrow> st\<lparr> messageMap := AList.update chatId emptyRecord (messageMap st) \<rparr>)"

text \<open>An assignment to (or deletion of) fields of the record stored for a chat.\<close>

definition modifyChat :: "string \<Rightarrow> (chat_record \<Rightarrow> chat_record) \<Rightarrow> state \<Rightarrow> state" where
  "modifyChat chatId f st = st\<lparr> messageMap := AList.map_entry chatId f (messageMap st) \<rparr>"

definition getChat :: "state \<Rightarrow> string \<Rightarrow> chat_record option" where
  "getChat st chatId = map_of (messageMap st) chatId"

text \<open>\<open>messageMap[chatId] || {}\<close>\<close>

definition recordOf :: "state \<Rightarrow> string \<Rightarrow> chat_record" where
  "recordOf st chatId = (case getChat st chatId of Some r \<Rightarrow> r | None \<Rightarrow> emptyRecord)"

section \<open>Registration from membership updates\<close>

record chat_ref =
  chat_id :: int
  chat_type :: string

record chat_member_update =
  mcm_chat :: "chat_ref option"
  new_status :: "string option"

record message =
  msg_chat :: "chat_ref option"
  msg_text :: "string option"
  msg_caption :: "string option"
  msg_message_id :: "int option"

record update =
  my_chat_member :: "chat_member_update option"
  upd_message :: "message option"
  channel_post :: "message option"

text \<open>One turn of the loop of \<open>registerFromUpdates\<close>, on the list of new chats and the state.\<close>

definition registerStep :: "update \<Rightarrow> string list \<times> state \<Rightarrow> string list \<times> state" where
  "registerStep u acc =
     (case acc of (newlyRegistered, st) \<Rightarrow>
      (case my_chat_member u of
         None \<Rightarrow> acc
       | Some mcm \<Rightarrow>
         (case mcm_chat mcm of
            None \<Rightarrow> acc
          | Some chat \<Rightarrow>
              if chat_type chat \<noteq> ''channel'' \<and> chat_type chat \<noteq> ''supergroup''
                 \<and> chat_type chat \<noteq> ''group'' then acc
              else
                let status = new_status mcm; chatId = String_of_int (chat_id chat) in
                if status \<in> Some ` set [''left'', ''kicked'', ''restricted''] then
                  (newlyRegistered, snd (removeChat chatId st))
                else if status \<notin> Some ` set [''administrator'', ''creator'', ''member''] then acc
                else
                  let isNew = (getChat st chatId = None); st1 = ensureChat chatId st in
                  (if isNew then newlyRegistered @ [chatId] else newlyRegistered, st1))))"

definition registerFromUpdates :: "update list \<Rightarrow> state \<Rightarrow> string list \<times> state" where
  "registerFromUpdates updates st =
     (let (newlyRegistered, st1) = fold registerStep updates ([], st) in
      (newlyRegistered, if newlyRegistered \<noteq> [] then st1\<lparr> mapDirty := True \<rparr> else st1))"

section \<open>The messaging gateway\<close>

text \<open>
  What a request comes back with: \<open>Ok\<close> carries what the program reads of
  \<open>json.result\<close>; \<open>Failed\<close> is a reply whose \<open>ok\<close> is false, with its
  \<open>error_code\<close> and its \<open>description\<close> (\<open>None\<close> when it is not a string);
  \<open>Thrown\<close> is a request that threw (network error).
\<close>

datatype 'a response = Ok 'a | Failed "int option" "string option" | Thrown

text \<open>
  The outside world answers the latest request knowing all requests made so far (the log,
  latest last). \<open>message_api\<close> answers \<open>sendPhoto\<close> and \<open>sendMessage\<close> with the
  \<open>message_id\<close> of the result, \<open>group_api\<close> answers \<open>sendMediaGroup\<close> with the
  ids of the messages of the album, \<open>plain_api\<close> answers the requests whose result is not
  read. \<open>http_api\<close> answers \<open>fetch\<close> of an image; \<open>url_parses\<close> says whether
  \<open>new URL(url)\<close> returns.
\<close>

datatype http_response = HttpThrown | HttpResponse bool "string option"

record env =
  message_api :: "call list \<Rightarrow> int option response"
  group_api :: "call list \<Rightarrow> int list response"
  plain_api :: "call list \<Rightarrow> unit response"
  http_api :: "call list \<Rightarrow> http_response"
  url_parses :: "string \<Rightarrow> bool"

definition request :: "call \<Rightarrow> state \<Rightarrow> state" where
  "request c st = st\<lparr> calls := calls st @ [c] \<rparr>"

definition describes :: "string option \<Rightarrow> string \<Rightarrow> bool" where
  "describes description p = (case description of None \<Rightarrow> False | Some d \<Rightarrow> str_includes d p)"

definition describesLower :: "string option \<Rightarrow> string \<Rightarrow> bool" where
  "describesLower description p =
     (case description of None \<Rightarrow> False | Some d \<Rightarrow> str_includes (toLowerCase d) p)"

definition pinMessage :: "env \<Rightarrow> string \<Rightarrow> int option \<Rightarrow> state \<Rightarrow> bool \<times> state" where
  "pinMessage e chatId messageId st =
     (let st1 = request (PinChatMessage chatId messageId) st in
      (case plain_api e (calls st1) of Ok u \<Rightarrow> (True, st1) | Failed c d \<Rightarrow> (False, st1)
       | Thrown \<Rightarrow> (False, st1)))"

definition deleteMessage :: "env \<Rightarrow> string \<Rightarrow> int \<Rightarrow> state \<Rightarrow> bool \<times> state" where
  "deleteMessage e chatId messageId st =
     (let st1 = request (DeleteMessage chatId messageId) st in
      (case plain_api e (calls st1) of
         Ok u \<Rightarrow> (True, st1)
       | Failed c d \<Rightarrow>
           (c = Some 400 \<and> describesLower d ''message to delete not found'', st1)
       | Thrown \<Rightarrow> (False, st1)))"

definition sendTextMessage :: "env \<Rightarrow> string \<Rightarrow> reply \<Rightarrow> state \<Rightarrow> int option response \<times> state" where
  "sendTextMessage e chatId r st =
     (let st1 = request (SendMessage chatId r) st in (message_api e (calls st1), st1))"

text \<open>\<open>sendMediaGroup\<close> passes the thread id on only when it is truthy.\<close>

definition sendMediaGroup ::
  "env \<Rightarrow> string \<Rightarrow> (string \<times> string option) list \<Rightarrow> int option \<Rightarrow> state \<Rightarrow> int list response \<times> state" where
  "sendMediaGroup e chatId media thread st =
     (let st1 = request (SendMediaGroup chatId media (if truthyId thread then thread else None)) st
      in (group_api e (calls st1), st1))"

section \<open>Send and edit\<close>

text \<open>
  The effective configuration of a chat, as the loop hands it to the four operations: past
  the \<open>no-image\<close> guard its \<open>image_url\<close> is present.
\<close>

record effective =
  eff_chat_id :: string
  eff_image_url :: image
  eff_message_thread_id :: "int option"
  eff_caption :: string

datatype reason = Unregistered | TopicClosed | NoImage | InvalidConfig | SizeMismatch

text \<open>What a failed result carries: the reply (\<open>json\<close>) or the exception (\<open>err\<close>).\<close>

datatype detail = Json "int option" "string option" | Err

datatype item_result = ItemOk | ItemFailed detail

text \<open>
  The result object of an operation, with the fields the program reads later; \<open>r_items\<close>
  is the list \<open>editAlbum\<close> returns as its \<open>result\<close>.
\<close>

record result =
  ok :: bool
  reason :: "reason option"
  r_message_id :: "int option"
  r_message_ids :: "int list option"
  replaced :: bool
  not_modified :: bool
  r_items :: "item_result list"
  r_detail :: "detail option"

definition res :: "bool \<Rightarrow> result" where
  "res b = \<lparr> ok = b, reason = None, r_message_id = None, r_message_ids = None, replaced = False,
             not_modified = False, r_items = [], r_detail = None \<rparr>"

definition sendPhoto :: "env \<Rightarrow> effective \<Rightarrow> state \<Rightarrow> result \<times> state" where
  "sendPhoto e chat st =
     (let st1 = request (SendPhoto (eff_chat_id chat) (eff_image_url chat) (eff_caption chat)
                           (eff_message_thread_id chat)) st in
      (case message_api e (calls st1) of
         Thrown \<Rightarrow> ((res False)\<lparr> r_detail := Some Err \<rparr>, st1)
       | Failed c d \<Rightarrow>
           if c = Some 403 \<and> describesLower d ''not a member'' then
             ((res True)\<lparr> reason := Some Unregistered \<rparr>, snd (removeChat (eff_chat_id chat) st1))
           else if c = Some 400 \<and> describes d ''TOPIC_CLOSED'' then
             ((res True)\<lparr> reason := Some TopicClosed \<rparr>, st1)
           else ((res False)\<lparr> r_detail := Some (Json c d) \<rparr>, st1)
       | Ok messageId \<Rightarrow>
           ((res True)\<lparr> r_message_id := messageId \<rparr>,
            snd (pinMessage e (eff_chat_id chat) messageId st1))))"

definition editPhoto :: "env \<Rightarrow> effective \<Rightarrow> int \<Rightarrow> state \<Rightarrow> result \<times> state" where
  "editPhoto e chat messageId st =
     (let st1 = request (EditMessageMedia (eff_chat_id chat) messageId (eff_image_url chat)
                           (Some (eff_caption chat))) st in
      (case plain_api e (calls st1) of
         Thrown \<Rightarrow> ((res False)\<lparr> r_detail := Some Err \<rparr>, st1)
       | Failed c d \<Rightarrow>
           if c = Some 400 \<and> describes d ''message is not modified'' then
             ((res True)\<lparr> not_modified := True \<rparr>,
              snd (pinMessage e (eff_chat_id chat) (Some messageId) st1))
           else if c = Some 400 \<and> describes d ''TOPIC_CLOSED'' then
             ((res True)\<lparr> reason := Some TopicClosed \<rparr>, st1)
           else if c = Some 400 then
             (let st2 = snd (deleteMessage e (eff_chat_id chat) messageId st1);
                  (sent, st3) = sendPhoto e chat st2
              in (sent\<lparr> replaced := True \<rparr>, st3))
           else if c = Some 403 \<and> describesLower d ''not a member'' then
             ((res True)\<lparr> reason := Some Unregistered \<rparr>, snd (removeChat (eff_chat_id chat) st1))
           else ((res False)\<lparr> r_detail := Some (Json c d) \<rparr>, st1)
       | Ok u \<Rightarrow>
           (res True,
            snd (pinMessage e (eff_chat_id chat) (Some messageId) st1))))"

text \<open>\<open>Array.isArray(chat.image_url) ? chat.image_url : [chat.image_url]\<close>\<close>

definition imagesOf :: "image \<Rightarrow> string list" where
  "imagesOf v = (case v of Album xs \<Rightarrow> xs | Single s \<Rightarrow> [s])"

text \<open>The media of an album: the caption goes with the first item only.\<close>

fun captioned :: "string \<Rightarrow> string list \<Rightarrow> (string \<times> string option) list" where
  "captioned c [] = []"
| "captioned c (u # us) = (u, Some c) # map (\<lambda>v. (v, None)) us"

definition sendAlbum :: "env \<Rightarrow> effective \<Rightarrow> state \<Rightarrow> result \<times> state" where
  "sendAlbum e chat st =
     (let images = imagesOf (eff_image_url chat);
          media = captioned (eff_caption chat) images;
          (r, st1) = sendMediaGroup e (eff_chat_id chat) media (eff_message_thread_id chat) st
      in (case r of
            Failed c d \<Rightarrow>
              if c = Some 403 then
                ((res True)\<lparr> reason := Some Unregistered \<rparr>, snd (removeChat (eff_chat_id chat) st1))
              else ((res False)\<lparr> r_detail := Some (Json c d) \<rparr>, st1)
          | Thrown \<Rightarrow> (res False, st1)
          | Ok messageIds \<Rightarrow>
              ((res True)\<lparr> r_message_ids := Some messageIds \<rparr>,
               if messageIds \<noteq> [] then snd (pinMessage e (eff_chat_id chat) (Some (hd messageIds)) st1)
               else st1)))"

text \<open>
  What one turn of the loop of \<open>editAlbum\<close> pushes to \<open>results\<close>: nothing when
  the reply is \<open>message is not modified\<close>.
\<close>

definition itemOutcome :: "unit response \<Rightarrow> item_result list" where
  "itemOutcome rsp =
     (case rsp of
        Ok u \<Rightarrow> [ItemOk]
      | Failed c d \<Rightarrow>
          if c = Some 400 \<and> describes d ''message is not modified'' then []
          else [ItemFailed (Json c d)]
      | Thrown \<Rightarrow> [ItemFailed Err])"

text \<open>
  The loop of \<open>editAlbum\<close> over the pairs (stored id, image) by position; it runs only
  when both lists have the same length. \<open>isFirst\<close> is \<open>i === 0\<close>.
\<close>

fun editAlbumLoop ::
  "env \<Rightarrow> effective \<Rightarrow> bool \<Rightarrow> (int \<times> string) list \<Rightarrow> item_result list \<times> state
     \<Rightarrow> item_result list \<times> state" where
  "editAlbumLoop e chat isFirst [] acc = acc"
| "editAlbumLoop e chat isFirst ((msgId, imgUrl) # rest) (results, st) =
     (let st1 = request (EditMessageMedia (eff_chat_id chat) msgId (Single imgUrl)
                           (if isFirst then Some (eff_caption chat) else None)) st
      in editAlbumLoop e chat False rest (results @ itemOutcome (plain_api e (calls st1)), st1))"

definition editAlbum :: "env \<Rightarrow> effective \<Rightarrow> int list \<Rightarrow> state \<Rightarrow> result \<times> state" where
  "editAlbum e chat existingMessageIds st =
     (let images = imagesOf (eff_image_url chat) in
      if length images \<noteq> length existingMessageIds then
        ((res False)\<lparr> reason := Some SizeMismatch \<rparr>, st)
      else
        let (results, st1) = editAlbumLoop e chat True (zip existingMessageIds images) ([], st);
            st2 = (if existingMessageIds \<noteq> []
                   then snd (pinMessage e (eff_chat_id chat) (Some (hd existingMessageIds)) st1)
                   else st1)
        in ((res True)\<lparr> r_items := results \<rparr>, st2))"

section \<open>Reconciliation\<close>

text \<open>
  The default caption of \<open>constants.mjs\<close>, as the bytes of its UTF-8 encoding (a
  lightning sign and a sentence in Ukrainian).
\<close>

definition DEFAULT_CAPTION :: string where
  "DEFAULT_CAPTION = map char_of
     [(0xE2::nat),
       0x9A, 0xA1, 0xEF, 0xB8, 0x8F, 0x20, 0xD0, 0x93, 0xD1, 0x80, 0xD0, 0xB0, 0xD1,
       0x84, 0xD1, 0x96, 0xD0, 0xBA, 0x20, 0xD1, 0x81, 0xD1, 0x82, 0xD0, 0xB0, 0xD0, 0xB1,
       0xD1, 0x96, 0xD0, 0xBB, 0xD1, 0x96, 0xD0, 0xB7, 0xD0, 0xB0, 0xD1, 0x86, 0xD1, 0x96,
       0xD0, 0xB9, 0xD0, 0xBD, 0xD0, 0xB8, 0xD1, 0x85, 0x20, 0xD0, 0xB2, 0xD0, 0xB8, 0xD0,
       0xBC, 0xD0, 0xBA, 0xD0, 0xBD, 0xD0, 0xB5, 0xD0, 0xBD, 0xD1, 0x8C, 0x2E, 0x20, 0xD0,
       0xA6, 0xD0, 0xB5, 0x20, 0xD0, 0xBF, 0xD0, 0xBE, 0xD0, 0xB2, 0xD1, 0x96, 0xD0, 0xB4,
       0xD0, 0xBE, 0xD0, 0xBC, 0xD0, 0xBB, 0xD0, 0xB5, 0xD0, 0xBD, 0xD0, 0xBD, 0xD1, 0x8F,
       0x20, 0xD0, 0xBE, 0xD0, 0xBD, 0xD0, 0xBE, 0xD0, 0xB2, 0xD0, 0xBB, 0xD1, 0x8E, 0xD1,
       0x94, 0xD1, 0x82, 0xD1, 0x8C, 0xD1, 0x81, 0xD1, 0x8F, 0x20, 0xD1, 0x89, 0xD0, 0xBE,
       0xD0, 0xB3, 0xD0, 0xBE, 0xD0, 0xB4, 0xD0, 0xB8, 0xD0, 0xBD, 0xD0, 0xB8, 0x20, 0xD0,
       0xB0, 0xD0, 0xB2, 0xD1, 0x82, 0xD0, 0xBE, 0xD0, 0xBC, 0xD0, 0xB0, 0xD1, 0x82, 0xD0,
       0xB8, 0xD1, 0x87, 0xD0, 0xBD, 0xD0, 0xBE, 0x2E]"

definition fieldOf :: "state \<Rightarrow> string \<Rightarrow> (chat_record \<Rightarrow> 'a option) \<Rightarrow> 'a option" where
  "fieldOf st chatId f = (case getChat st chatId of None \<Rightarrow> None | Some r \<Rightarrow> f r)"

definition setMessageId :: "string \<Rightarrow> int \<Rightarrow> state \<Rightarrow> state" where
  "setMessageId chatId messageId st =
     (if messageId = 0 then st
      else
        let st1 = ensureChat chatId st;
            st2 = modifyChat chatId
                    (\<lambda>r. if message_ids r \<noteq> None then r\<lparr> message_ids := None \<rparr> else r) st1
        in if fieldOf st2 chatId message_id \<noteq> Some messageId
           then (modifyChat chatId (\<lambda>r. r\<lparr> message_id := Some messageId \<rparr>) st2)\<lparr> mapDirty := True \<rparr>
           else st2)"

definition setMessageIds :: "string \<Rightarrow> int list \<Rightarrow> state \<Rightarrow> state" where
  "setMessageIds chatId messageIds st =
     (let st1 = ensureChat chatId st;
          st2 = modifyChat chatId
                  (\<lambda>r. if truthyId (message_id r) then r\<lparr> message_id := None \<rparr> else r) st1;
          current = (case fieldOf st2 chatId message_ids of None \<Rightarrow> [] | Some ids \<Rightarrow> ids)
      in if current \<noteq> messageIds
         then (modifyChat chatId (\<lambda>r. r\<lparr> message_ids := Some messageIds \<rparr>) st2)\<lparr> mapDirty := True \<rparr>
         else st2)"

text \<open>
  \<open>updateStoredChatFields\<close>. The stored image is compared with the effective one by
  value; the program compares an array by reference, and the effective array is the stored
  one whenever a stored one exists.
\<close>

definition updateStoredChatFields :: "string \<Rightarrow> effective \<Rightarrow> state \<Rightarrow> state" where
  "updateStoredChatFields chatId eff st =
     (let st1 = ensureChat chatId st;
          t1 = (truthyImage (eff_image_url eff)
                \<and> fieldOf st1 chatId image_url \<noteq> Some (eff_image_url eff));
          st2 = (if t1 then modifyChat chatId (\<lambda>r. r\<lparr> image_url := Some (eff_image_url eff) \<rparr>) st1
                 else st1);
          t2 = (eff_caption eff \<noteq> [] \<and> fieldOf st2 chatId caption \<noteq> Some (eff_caption eff));
          st3 = (if t2 then modifyChat chatId (\<lambda>r. r\<lparr> caption := Some (eff_caption eff) \<rparr>) st2
                 else st2)
      in if t1 \<or> t2 then st3\<lparr> mapDirty := True \<rparr> else st3)"

definition deleteAll :: "env \<Rightarrow> string \<Rightarrow> int list \<Rightarrow> state \<Rightarrow> state" where
  "deleteAll e chatId mids st = fold (\<lambda>mid s. snd (deleteMessage e chatId mid s)) mids st"

text \<open>
  The program keeps a \<open>mode\<close> (\<open>'send'\<close> or \<open>'edit'\<close>) and \<open>currentIds\<close> (the
  stored album ids or the stored single id), and sets both together: a plan is \<open>'send'\<close>,
  \<open>'edit'\<close> with album ids, or \<open>'edit'\<close> with a single id.
\<close>

datatype plan = SendNew | EditAlbumOf "int list" | EditSingleOf int

definition isAlbum :: "image \<Rightarrow> bool" where
  "isAlbum v = (case v of Album xs \<Rightarrow> length xs > 1 | Single s \<Rightarrow> False)"

text \<open>Cases 1 to 3 of the loop: the deletions before the mode is decided.\<close>

definition migrate :: "env \<Rightarrow> string \<Rightarrow> image \<Rightarrow> int option \<Rightarrow> int list option \<Rightarrow> state \<Rightarrow> state" where
  "migrate e chatId img knownSingle knownAlbum st =
     (let isAlbumConfig = isAlbum img;
          st1 = (case knownSingle of
                   Some mid \<Rightarrow> if isAlbumConfig \<and> mid \<noteq> 0 then snd (deleteMessage e chatId mid st) else st
                 | None \<Rightarrow> st);
          st2 = (case knownAlbum of
                   Some mids \<Rightarrow> if \<not> isAlbumConfig then deleteAll e chatId mids st1 else st1
                 | None \<Rightarrow> st1);
          st3 = (case knownAlbum of
                   Some mids \<Rightarrow>
                     if isAlbumConfig \<and> length mids \<noteq> length (imagesOf img)
                     then deleteAll e chatId mids st2 else st2
                 | None \<Rightarrow> st2)
      in st3)"

text \<open>The mode as first decided, and then the three overrides that force \<open>'send'\<close>.\<close>

definition decide :: "image \<Rightarrow> int option \<Rightarrow> int list option \<Rightarrow> plan" where
  "decide img knownSingle knownAlbum =
     (let isAlbumConfig = isAlbum img;
          m0 = (if isAlbumConfig then
                  (case knownAlbum of
                     Some mids \<Rightarrow> if length mids = length (imagesOf img) then EditAlbumOf mids else SendNew
                   | None \<Rightarrow> SendNew)
                else
                  (case knownSingle of
                     Some mid \<Rightarrow> if mid \<noteq> 0 \<and> \<not> isAlbumConfig then EditSingleOf mid else SendNew
                   | None \<Rightarrow> SendNew));
          m1 = (if isAlbumConfig \<and> truthyId knownSingle then SendNew else m0);
          m2 = (if \<not> isAlbumConfig \<and> knownAlbum \<noteq> None then SendNew else m1);
          m3 = (if isAlbumConfig
                   \<and> (case knownAlbum of Some mids \<Rightarrow> length mids \<noteq> length (imagesOf img) | None \<Rightarrow> False)
                then SendNew else m2)
      in m3)"

text \<open>The four branches after the mode is decided.\<close>

definition sendAlbumBranch :: "env \<Rightarrow> string \<Rightarrow> effective \<Rightarrow> state \<Rightarrow> result \<times> state" where
  "sendAlbumBranch e chatId eff st =
     (let (r, st1) = sendAlbum e eff st in
      if ok r \<and> reason r = Some Unregistered then (r, st1)
      else
        let st2 = (case r_message_ids r of
                     Some mids \<Rightarrow> if ok r then setMessageIds chatId mids st1 else st1
                   | None \<Rightarrow> st1)
        in (r, updateStoredChatFields chatId eff st2))"

definition sendPhotoBranch :: "env \<Rightarrow> string \<Rightarrow> effective \<Rightarrow> state \<Rightarrow> result \<times> state" where
  "sendPhotoBranch e chatId eff st =
     (let (r, st1) = sendPhoto e eff st in
      if ok r \<and> reason r = Some Unregistered then (r, st1)
      else
        let st2 = (case r_message_id r of
                     Some mid \<Rightarrow> if ok r \<and> mid \<noteq> 0 then setMessageId chatId mid st1 else st1
                   | None \<Rightarrow> st1)
        in (r, updateStoredChatFields chatId eff st2))"

definition editAlbumBranch :: "env \<Rightarrow> string \<Rightarrow> effective \<Rightarrow> int list \<Rightarrow> state \<Rightarrow> result \<times> state" where
  "editAlbumBranch e chatId eff currentIds st =
     (let (r, st1) = editAlbum e eff currentIds st in (r, updateStoredChatFields chatId eff st1))"

definition editPhotoBranch :: "env \<Rightarrow> string \<Rightarrow> effective \<Rightarrow> int \<Rightarrow> state \<Rightarrow> result \<times> state" where
  "editPhotoBranch e chatId eff currentIds st =
     (let (r, st1) = editPhoto e eff currentIds st in
      if ok r \<and> reason r = Some Unregistered then (r, st1)
      else
        let st2 = (case r_message_id r of
                     Some mid \<Rightarrow> if ok r \<and> replaced r \<and> mid \<noteq> 0 then setMessageId chatId mid st1 else st1
                   | None \<Rightarrow> st1)
        in (r, updateStoredChatFields chatId eff st2))"

definition effectiveOf :: "string \<Rightarrow> chat_record \<Rightarrow> image \<Rightarrow> effective" where
  "effectiveOf chatId mapCfg img =
     \<lparr> eff_chat_id = chatId, eff_image_url = img,
       eff_message_thread_id = message_thread_id mapCfg,
       eff_caption = (case caption mapCfg of Some c \<Rightarrow> c | None \<Rightarrow> DEFAULT_CAPTION) \<rparr>"

text \<open>One turn of the main loop, for one chat id: the result pushed and the new state.\<close>

definition reconcileChat :: "env \<Rightarrow> string \<Rightarrow> state \<Rightarrow> result \<times> state" where
  "reconcileChat e chatId st =
     (let mapCfg = recordOf st chatId in
      if chatId = [] then ((res False)\<lparr> reason := Some InvalidConfig \<rparr>, st)
      else
        (case image_url mapCfg of
           None \<Rightarrow> ((res True)\<lparr> reason := Some NoImage \<rparr>, st)
         | Some img \<Rightarrow>
             if \<not> truthyImage img then ((res True)\<lparr> reason := Some NoImage \<rparr>, st)
             else
               let eff = effectiveOf chatId mapCfg img;
                   knownSingle = message_id mapCfg;
                   knownAlbum = message_ids mapCfg;
                   st1 = migrate e chatId img knownSingle knownAlbum st
               in (case decide img knownSingle knownAlbum of
                     SendNew \<Rightarrow>
                       if isAlbum img then sendAlbumBranch e chatId eff st1
                       else sendPhotoBranch e chatId eff st1
                   | EditAlbumOf currentIds \<Rightarrow> editAlbumBranch e chatId eff currentIds st1
                   | EditSingleOf currentIds \<Rightarrow> editPhotoBranch e chatId eff currentIds st1)))"

definition reconcileStep :: "env \<Rightarrow> string \<Rightarrow> result list \<times> state \<Rightarrow> result list \<times> state" where
  "reconcileStep e chatId acc =
     (case acc of (results, st) \<Rightarrow>
        (let (r, st1) = reconcileChat e chatId st in (results @ [r], st1)))"

definition reconcileAll :: "env \<Rightarrow> state \<Rightarrow> result list \<times> state" where
  "reconcileAll e st = fold (reconcileStep e) (map fst (messageMap st)) ([], st)"

section \<open>Commands\<close>

definition OUTAGE_IMAGES_BASE :: string where
  "OUTAGE_IMAGES_BASE =
     ''https://raw.githubusercontent.com/Baskerville42/outage-data-ua/refs/heads/main/images/''"

definition isValidOutageImageUrl :: "env \<Rightarrow> string \<Rightarrow> bool" where
  "isValidOutageImageUrl e url =
     (if \<not> startsWith url OUTAGE_IMAGES_BASE then False
      else if \<not> endsWith (toLowerCase url) ''.png'' then False
      else url_parses e url)"

text \<open>
  \<open>verifyRemotePng\<close>: a HEAD request, then a GET request when the first reply is not
  \<open>ok\<close>. The second field of a reply is its \<open>content-type\<close> header. (A reply of
  \<open>fetch\<close> always has headers.)
\<close>

definition pngReply :: "string \<Rightarrow> bool \<Rightarrow> string option \<Rightarrow> bool" where
  "pngReply url isOk contentType =
     (if \<not> isOk then False
      else
        let ct = (case contentType of Some c \<Rightarrow> c | None \<Rightarrow> []) in
        if \<not> str_includes (toLowerCase ct) ''image/png'' \<and> \<not> endsWith (toLowerCase url) ''.png''
        then False else True)"

definition verifyRemotePng :: "env \<Rightarrow> string \<Rightarrow> state \<Rightarrow> bool \<times> state" where
  "verifyRemotePng e url st =
     (let st1 = request (Fetch ''HEAD'' url) st in
      (case http_api e (calls st1) of
         HttpThrown \<Rightarrow> (False, st1)
       | HttpResponse ok1 ct1 \<Rightarrow>
           if \<not> ok1 then
             (let st2 = request (Fetch ''GET'' url) st1 in
              (case http_api e (calls st2) of
                 HttpThrown \<Rightarrow> (False, st2)
               | HttpResponse ok2 ct2 \<Rightarrow> (pngReply url ok2 ct2, st2)))
           else (pngReply url ok1 ct1, st1)))"

text \<open>
  The two regular expressions. \<open>commandMatch\<close> matches \<open>^\s*\<close>, the command word
  without regard to case and an optional \<open>@\w+\<close>, and hands the rest to the matcher of
  the tail. \<open>captionTail\<close> is \<open>\s+([\s\S]+)$\<close> and \<open>imageTail\<close> is
  \<open>\s+(\S+)\s*$\<close>; each returns its group 1. When nothing but white space follows the
  command, group 1 of the caption is the last white-space character, the others being left to
  \<open>\s+\<close>.
\<close>

definition captionTail :: "string \<Rightarrow> string option" where
  "captionTail r =
     (let ws = spaces r; g = dropSpaces r in
      if ws = [] then None
      else if g \<noteq> [] then Some g
      else if length ws \<ge> 2 then Some (last ws)
      else None)"

definition imageTail :: "string \<Rightarrow> string option" where
  "imageTail r =
     (let ws = spaces r; g = dropSpaces r;
          token = nonSpaces g;
          after = drop (length token) g
      in if ws = [] \<or> token = [] then None
         else if dropSpaces after \<noteq> [] then None
         else Some token)"

definition commandMatch :: "string \<Rightarrow> (string \<Rightarrow> string option) \<Rightarrow> string \<Rightarrow> string option" where
  "commandMatch command tail t0 =
     (let t = dropSpaces t0 in
      if toLowerCase (take (length command) t) \<noteq> command then None
      else
        (case drop (length command) t of
           [] \<Rightarrow> tail []
         | c # cs \<Rightarrow>
             if c = CHR ''@'' \<and> takeWhile isWord cs \<noteq> [] then tail (dropWhile isWord cs)
             else tail (c # cs)))"

definition matchCaption :: "string \<Rightarrow> string option" where
  "matchCaption t = commandMatch ''/graphenko_caption'' captionTail t"

definition matchImage :: "string \<Rightarrow> string option" where
  "matchImage t = commandMatch ''/graphenko_image'' imageTail t"

text \<open>\<open>a || b\<close> on strings that may be absent.\<close>

definition strOr :: "string option \<Rightarrow> string \<Rightarrow> string" where
  "strOr a b = (case a of Some s \<Rightarrow> if s \<noteq> [] then s else b | None \<Rightarrow> b)"

text \<open>The best-effort deletion of the message that carried the command.\<close>

definition deleteCommand :: "env \<Rightarrow> string \<Rightarrow> message \<Rightarrow> state \<Rightarrow> state" where
  "deleteCommand e chatId msg st =
     (case msg_message_id msg of
        Some mid \<Rightarrow> if mid \<noteq> 0 then snd (deleteMessage e chatId mid st) else st
      | None \<Rightarrow> st)"

definition captionCommand ::
  "env \<Rightarrow> string \<Rightarrow> message \<Rightarrow> string \<Rightarrow> string list \<times> state \<Rightarrow> string list \<times> state" where
  "captionCommand e chatId msg raw acc =
     (case acc of (handled, st) \<Rightarrow>
        let arg = trim raw; st1 = ensureChat chatId st in
        if toLowerCase arg = ''-default'' then
          let st2 = (if fieldOf st1 chatId caption \<noteq> None
                     then (modifyChat chatId (\<lambda>r. r\<lparr> caption := None \<rparr>) st1)\<lparr> mapDirty := True \<rparr>
                     else st1);
              st3 = snd (sendTextMessage e chatId CaptionReset st2)
          in (handled @ [chatId], deleteCommand e chatId msg st3)
        else if arg = [] then
          (handled @ [chatId], snd (sendTextMessage e chatId CaptionEmpty st1))
        else
          let st2 = (modifyChat chatId (\<lambda>r. r\<lparr> caption := Some arg \<rparr>) st1)\<lparr> mapDirty := True \<rparr>;
              st3 = snd (sendTextMessage e chatId CaptionSaved st2)
          in (handled @ [chatId], deleteCommand e chatId msg st3))"

definition imageCommand ::
  "env \<Rightarrow> string \<Rightarrow> message \<Rightarrow> string \<Rightarrow> string list \<times> state \<Rightarrow> string list \<times> state" where
  "imageCommand e chatId msg url acc =
     (case acc of (handled, st) \<Rightarrow>
        if \<not> isValidOutageImageUrl e url then
          (handled @ [chatId], snd (sendTextMessage e chatId ImageUsage st))
        else
          let (ver, st1) = verifyRemotePng e url st in
          if \<not> ver then (handled @ [chatId], snd (sendTextMessage e chatId ImageUnverified st1))
          else
            let st2 = ensureChat chatId st1;
                st3 = (modifyChat chatId (\<lambda>r. r\<lparr> image_url := Some (Single url) \<rparr>) st2)
                        \<lparr> mapDirty := True \<rparr>;
                st4 = (case fieldOf st3 chatId welcome_message_id of
                         Some wid \<Rightarrow>
                           if wid \<noteq> 0 then
                             (let (del, s) = deleteMessage e chatId wid st3 in
                              if del
                              then (modifyChat chatId (\<lambda>r. r\<lparr> welcome_message_id := None \<rparr>) s)
                                     \<lparr> mapDirty := True \<rparr>
                              else s)
                           else st3
                       | None \<Rightarrow> st3);
                st5 = snd (sendTextMessage e chatId ImageSaved st4)
            in (handled @ [chatId], deleteCommand e chatId msg st5))"

text \<open>One turn of the loop of \<open>processCommandUpdates\<close>.\<close>

definition processCommandUpdate :: "env \<Rightarrow> update \<Rightarrow> string list \<times> state \<Rightarrow> string list \<times> state" where
  "processCommandUpdate e u acc =
     (case (case upd_message u of Some m \<Rightarrow> Some m | None \<Rightarrow> channel_post u) of
        None \<Rightarrow> acc
      | Some msg \<Rightarrow>
          (case msg_chat msg of
             None \<Rightarrow> acc
           | Some chat \<Rightarrow>
               let chatId = String_of_int (chat_id chat);
                   txt = strOr (msg_text msg) (strOr (msg_caption msg) [])
               in if txt = [] then acc
                  else
                    (case matchCaption txt of
                       Some raw \<Rightarrow> captionCommand e chatId msg raw acc
                     | None \<Rightarrow>
                         (case matchImage txt of
                            None \<Rightarrow> acc
                          | Some url \<Rightarrow> imageCommand e chatId msg url acc))))"

definition processCommandUpdates :: "env \<Rightarrow> update list \<Rightarrow> state \<Rightarrow> string list \<times> state" where
  "processCommandUpdates e updates st = fold (processCommandUpdate e) updates ([], st)"

section \<open>The persisted map\<close>

text \<open>
  A JSON value as \<open>JSON.parse\<close> returns it and \<open>JSON.stringify\<close> writes it: an
  object is the list of its own properties in their order. Numbers are integers here; the two
  functions below only copy a number or test it for being zero.
\<close>

datatype jsval =
    JNull | JBool bool | JNum int | JStr string | JArr "jsval list" | JObj "(string \<times> jsval) list"

definition truthy :: "jsval \<Rightarrow> bool" where
  "truthy v = (case v of JNull \<Rightarrow> False | JBool b \<Rightarrow> b | JNum n \<Rightarrow> n \<noteq> 0 | JStr s \<Rightarrow> s \<noteq> []
               | JArr xs \<Rightarrow> True | JObj kvs \<Rightarrow> True)"

text \<open>\<open>v && typeof v === 'object'\<close>\<close>

definition isObject :: "jsval \<Rightarrow> bool" where
  "isObject v = (case v of JArr xs \<Rightarrow> True | JObj kvs \<Rightarrow> True | _ \<Rightarrow> False)"

text \<open>The own enumerable properties: of an array, its elements under their indices.\<close>

definition props :: "jsval \<Rightarrow> (string \<times> jsval) list" where
  "props v = (case v of JObj kvs \<Rightarrow> kvs | JArr xs \<Rightarrow> zip (map digits [0..<length xs]) xs | _ \<Rightarrow> [])"

text \<open>\<open>v[name]\<close>, with \<open>None\<close> for \<open>undefined\<close>.\<close>

definition get :: "jsval \<Rightarrow> string \<Rightarrow> jsval option" where
  "get v name = map_of (props v) name"

text \<open>\<open>String(v)\<close>; an array is joined with commas, \<open>null\<close> elements as empty strings.\<close>

fun js_String :: "jsval \<Rightarrow> string" and js_join :: "jsval list \<Rightarrow> string" where
  "js_String JNull = ''null''"
| "js_String (JBool b) = (if b then ''true'' else ''false'')"
| "js_String (JNum n) = String_of_int n"
| "js_String (JStr s) = s"
| "js_String (JArr xs) = js_join xs"
| "js_String (JObj kvs) = ''[object Object]''"
| "js_join [] = []"
| "js_join [x] = (if x = JNull then [] else js_String x)"
| "js_join (x # y # ys) = (if x = JNull then [] else js_String x) @ '','' @ js_join (y # ys)"

text \<open>
  The fields an entry keeps, in the order both functions copy them, and the test each is
  copied under: \<open>!== undefined\<close>, truthiness, or \<open>hasOwnProperty\<close>. (A parsed JSON
  object has a property exactly when the property is not \<open>undefined\<close>.)
\<close>

datatype keep = Defined | Truthy | Own

definition fields :: "(string \<times> keep) list" where
  "fields =
     [(''message_id'', Defined), (''message_ids'', Defined), (''image_url'', Truthy),
      (''caption'', Own), (''welcome_message_id'', Defined), (''message_thread_id'', Defined),
      (''monitor_host'', Truthy), (''monitor_port'', Defined), (''monitor_interval_sec'', Defined),
      (''monitor_last_status'', Defined), (''monitor_last_change'', Defined),
      (''monitor_enabled'', Defined)]"

definition kept :: "jsval \<Rightarrow> string \<Rightarrow> keep \<Rightarrow> jsval option" where
  "kept val name how =
     (case get val name of
        None \<Rightarrow> None
      | Some x \<Rightarrow> if how = Truthy \<and> \<not> truthy x then None else Some x)"

definition keepField :: "jsval \<Rightarrow> string \<times> keep \<Rightarrow> (string \<times> jsval) list" where
  "keepField val f = (case kept val (fst f) (snd f) of None \<Rightarrow> [] | Some x \<Rightarrow> [(fst f, x)])"

definition copyFields :: "jsval \<Rightarrow> (string \<times> jsval) list" where
  "copyFields val = concat (map (keepField val) fields)"

text \<open>
  What \<open>loadMessageMapFromFile\<close> reads: no file, a file that is empty after trimming, a
  text that \<open>JSON.parse\<close> rejects, or the parsed value.
\<close>

datatype file_content = NoFile | EmptyText | Unparseable | Parsed jsval

text \<open>
  \<open>map[chatId] = entry\<close> on the map being built: a new key is appended, the value of a key
  already there is replaced. For the key \<open>__proto__\<close> the assignment gives the map the
  entry as its prototype and adds no key. (The prototype is not part of the model: it cannot
  be seen through \<open>Object.keys\<close>, nor through the lookup of a chat id.)
\<close>

definition assign :: "string \<Rightarrow> jsval \<Rightarrow> (string \<times> jsval) list \<Rightarrow> (string \<times> jsval) list" where
  "assign k v m = (if k = ''__proto__'' then m else AList.update k v m)"

text \<open>
  One turn of the loop of \<open>loadMessageMapFromFile\<close>, on the map built so far and the flag
  \<open>mapWasNormalized\<close>. Case A is the canonical shape, case B the flat one.
\<close>

definition loadItem :: "jsval \<Rightarrow> (string \<times> jsval) list \<times> bool \<Rightarrow> (string \<times> jsval) list \<times> bool" where
  "loadItem item acc =
     (case acc of (m, normalized) \<Rightarrow>
        if \<not> isObject item then (m, True)
        else if length (props item) = 1 \<and> get item ''chat_id'' = None then
          (case props item of
             [] \<Rightarrow> acc
           | (k, val) # rest \<Rightarrow>
               if isObject val then
                 (if get val ''deleted'' = Some (JBool True) then (m, True)
                  else (assign k (JObj (copyFields val)) m, normalized))
               else (m, True))
        else if get item ''chat_id'' \<noteq> None then
          (let chatId = (case get item ''chat_id'' of Some c \<Rightarrow> js_String c | None \<Rightarrow> ''undefined'') in
           if chatId = [] then (m, True)
           else if get item ''deleted'' = Some (JBool True) then (m, True)
           else (assign chatId (JObj (copyFields item)) m, True))
        else (m, True))"

definition loadMessageMapFromFile :: "file_content \<Rightarrow> (string \<times> jsval) list \<times> bool" where
  "loadMessageMapFromFile f =
     (case f of
        Parsed (JArr arr) \<Rightarrow> fold loadItem arr ([], False)
      | _ \<Rightarrow> ([], False))"

text \<open>
  \<open>keys.sort((a, b) => a.localeCompare(b))\<close>. What \<open>localeCompare\<close> returns depends
  on the locale of the process, so the comparison is a parameter. \<open>sort\<close> is stable, and
  with a consistent comparison its result is that of the insertion sort below: a key goes
  before the first key it does not come after.
\<close>

fun insortBy :: "(string \<Rightarrow> string \<Rightarrow> int) \<Rightarrow> string \<Rightarrow> string list \<Rightarrow> string list" where
  "insortBy cmp x [] = [x]"
| "insortBy cmp x (y # ys) = (if cmp x y \<le> 0 then x # y # ys else y # insortBy cmp x ys)"

definition sortBy :: "(string \<Rightarrow> string \<Rightarrow> int) \<Rightarrow> string list \<Rightarrow> string list" where
  "sortBy cmp xs = foldr (insortBy cmp) xs []"

text \<open>
  \<open>saveMessageMapToFile\<close>: the array it hands to \<open>JSON.stringify(arr, null, 2)\<close>; the
  text of the file is that of this array and a line feed. \<open>Object.keys(map)\<close> is the keys
  of the list in their order; the order in which an object lists its keys shows in the sorted
  array only between keys that compare equal.
\<close>

definition entryOf :: "jsval option \<Rightarrow> (string \<times> jsval) list" where
  "entryOf v = (case v of Some val \<Rightarrow> if isObject val then copyFields val else [] | None \<Rightarrow> [])"

definition saveMessageMapToFile ::
  "(string \<Rightarrow> string \<Rightarrow> int) \<Rightarrow> (string \<times> jsval) list \<Rightarrow> jsval" where
  "saveMessageMapToFile localeCompare m =
     JArr (map (\<lambda>k. JObj [(k, JObj (entryOf (map_of m k)))]) (sortBy localeCompare (map fst m)))"

text \<open>The fields that belong to the monitor.\<close>

definition monitorFields :: "string list" where
  "monitorFields =
     [''monitor_host'', ''monitor_port'', ''monitor_interval_sec'', ''monitor_last_status'',
      ''monitor_last_change'', ''monitor_enabled'']"

section \<open>Vocabulary of the statements\<close>

text \<open>
  The edit requests an album edit is expected to make: one per pair of a stored id and an
  image, in order, the caption with the first only.
\<close>

definition albumEdits :: "effective \<Rightarrow> int list \<Rightarrow> call list" where
  "albumEdits chat ids =
     map (\<lambda>(mid, (url, cap)). EditMessageMedia (eff_chat_id chat) mid (Single url) cap)
       (zip ids (captioned (eff_caption chat) (imagesOf (eff_image_url chat))))"

text \<open>
  The items recorded for a list of requests made one after the other from a log: each
  request is judged by the reply to it alone.
\<close>

fun itemsOf :: "env \<Rightarrow> call list \<Rightarrow> call list \<Rightarrow> item_result list" where
  "itemsOf e log [] = []"
| "itemsOf e log (c # cs) = itemOutcome (plain_api e (log @ [c])) @ itemsOf e (log @ [c]) cs"

text \<open>The requests of the loop of \<open>editAlbum\<close>, by the recursion of the loop.\<close>

fun loopEdits :: "effective \<Rightarrow> bool \<Rightarrow> (int \<times> string) list \<Rightarrow> call list" where
  "loopEdits chat b [] = []"
| "loopEdits chat b ((m, u) # ps) =
     EditMessageMedia (eff_chat_id chat) m (Single u) (if b then Some (eff_caption chat) else None)
       # loopEdits chat False ps"

text \<open>
  The requests made between two states, the pins apart: what was asked to be deleted, sent
  and edited.
\<close>

definition isPin :: "call \<Rightarrow> bool" where
  "isPin c = (case c of PinChatMessage k m \<Rightarrow> True | _ \<Rightarrow> False)"

definition actions :: "state \<Rightarrow> state \<Rightarrow> call list" where
  "actions st st' = filter (\<lambda>c. \<not> isPin c) (drop (length (calls st)) (calls st'))"

text \<open>
  The request of a new single message, of a new album and of the edit of a single message,
  for an effective configuration.
\<close>

definition sendPhotoRequest :: "effective \<Rightarrow> call" where
  "sendPhotoRequest eff =
     SendPhoto (eff_chat_id eff) (eff_image_url eff) (eff_caption eff) (eff_message_thread_id eff)"

definition sendAlbumRequest :: "effective \<Rightarrow> call" where
  "sendAlbumRequest eff =
     SendMediaGroup (eff_chat_id eff) (captioned (eff_caption eff) (imagesOf (eff_image_url eff)))
       (if truthyId (eff_message_thread_id eff) then eff_message_thread_id eff else None)"

definition editPhotoRequest :: "effective \<Rightarrow> int \<Rightarrow> call" where
  "editPhotoRequest eff mid =
     EditMessageMedia (eff_chat_id eff) mid (eff_image_url eff) (Some (eff_caption eff))"

text \<open>
  The requests that follow the edit of a single message when the reply to it, after a log, is
  an error 400 that names neither \<open>message is not modified\<close> nor \<open>TOPIC_CLOSED\<close>:
  the deletion of the message and a new single message.
\<close>

definition recovery :: "env \<Rightarrow> effective \<Rightarrow> int \<Rightarrow> call list \<Rightarrow> call list" where
  "recovery e eff mid log =
     (case plain_api e (log @ [editPhotoRequest eff mid]) of
        Failed c d \<Rightarrow>
          if c = Some 400 \<and> \<not> describes d ''message is not modified''
             \<and> \<not> describes d ''TOPIC_CLOSED''
          then [DeleteMessage (eff_chat_id eff) mid, sendPhotoRequest eff] else []
      | _ \<Rightarrow> [])"

text \<open>The request that deletes the message of a command, when the message has an id.\<close>

definition commandDeletion :: "string \<Rightarrow> message \<Rightarrow> call list" where
  "commandDeletion chatId msg =
     (case msg_message_id msg of
        Some mid \<Rightarrow> if mid \<noteq> 0 then [DeleteMessage chatId mid] else []
      | None \<Rightarrow> [])"

text \<open>
  The fetch requests of a remote verification made after a log: \<open>HEAD\<close>, and
  \<open>GET\<close> when the reply to \<open>HEAD\<close> is not \<open>ok\<close>; and whether the reply to the
  last of them is \<open>ok\<close>.
\<close>

definition fetches :: "env \<Rightarrow> string \<Rightarrow> call list \<Rightarrow> call list" where
  "fetches e url log =
     (case http_api e (log @ [Fetch ''HEAD'' url]) of
        HttpThrown \<Rightarrow> [Fetch ''HEAD'' url]
      | HttpResponse isOk ct \<Rightarrow>
          if isOk then [Fetch ''HEAD'' url] else [Fetch ''HEAD'' url, Fetch ''GET'' url])"

definition fetched :: "env \<Rightarrow> string \<Rightarrow> call list \<Rightarrow> bool" where
  "fetched e url log =
     (case http_api e (log @ fetches e url log) of
        HttpThrown \<Rightarrow> False
      | HttpResponse isOk ct \<Rightarrow> isOk)"

text \<open>
  The value of a field of the record of a chat: in a map, and in a file (the array of
  single-key objects).
\<close>

definition fieldInMap :: "(string \<times> jsval) list \<Rightarrow> string \<Rightarrow> string \<Rightarrow> jsval option" where
  "fieldInMap m k f = (case map_of m k of Some r \<Rightarrow> get r f | None \<Rightarrow> None)"

definition fieldInFile :: "jsval \<Rightarrow> string \<Rightarrow> string \<Rightarrow> jsval option" where
  "fieldInFile file k f =
     (case file of
        JArr items \<Rightarrow> fieldInMap (concat (map props items)) k f
      | _ \<Rightarrow> None)"

section \<open>Facts about the state\<close>

lemma update_absent: "map_of al k = None \<Longrightarrow> AList.update k v al = al @ [(k, v)]"
  by (induction al) (auto split: if_splits)

lemma getChat_request [simp]: "getChat (request c st) k = getChat st k"
  by (simp add: getChat_def request_def)

lemma mapDirty_request [simp]: "mapDirty (request c st) = mapDirty st"
  by (simp add: request_def)

lemma messageMap_request [simp]: "messageMap (request c st) = messageMap st"
  by (simp add: request_def)

lemma calls_request [simp]: "calls (request c st) = calls st @ [c]"
  by (simp add: request_def)

lemma getChat_ensureChat:
  "getChat (ensureChat k st) k' =
     (if k' = k then Some (case getChat st k of Some r \<Rightarrow> r | None \<Rightarrow> emptyRecord)
      else getChat st k')"
  by (simp add: getChat_def ensureChat_def update_conv' split: option.splits)

lemma mapDirty_ensureChat [simp]: "mapDirty (ensureChat k st) = mapDirty st"
  by (simp add: ensureChat_def split: option.splits)

lemma calls_ensureChat [simp]: "calls (ensureChat k st) = calls st"
  by (simp add: ensureChat_def split: option.splits)

lemma ensureChat_present: "getChat st k = Some r \<Longrightarrow> ensureChat k st = st"
  by (simp add: getChat_def ensureChat_def)

lemma ensureChat_absent:
  "getChat st k = None \<Longrightarrow>
     ensureChat k st = st\<lparr> messageMap := messageMap st @ [(k, emptyRecord)] \<rparr>"
  by (simp add: getChat_def ensureChat_def update_absent)

lemma getChat_modifyChat:
  "getChat (modifyChat k f st) k' = (if k' = k then map_option f (getChat st k) else getChat st k')"
  by (simp add: getChat_def modifyChat_def map_of_map_entry split: option.splits)

lemma mapDirty_modifyChat [simp]: "mapDirty (modifyChat k f st) = mapDirty st"
  by (simp add: modifyChat_def)

lemma calls_modifyChat [simp]: "calls (modifyChat k f st) = calls st"
  by (simp add: modifyChat_def)

lemma getChat_dirty [simp]: "getChat (st\<lparr> mapDirty := b \<rparr>) k = getChat st k"
  by (simp add: getChat_def)

lemma getChat_removeChat:
  "getChat (snd (removeChat k st)) k' = (if k' = k then None else getChat st k')"
  by (auto simp add: getChat_def removeChat_def delete_conv' split: option.splits)

lemma removeChat_absent: "getChat st k = None \<Longrightarrow> removeChat k st = (False, st)"
  by (simp add: getChat_def removeChat_def)

lemma removeChat_present:
  "getChat st k = Some r \<Longrightarrow>
     removeChat k st = (True, st\<lparr> messageMap := AList.delete k (messageMap st), mapDirty := True \<rparr>)"
  by (simp add: getChat_def removeChat_def)

lemma calls_removeChat [simp]: "calls (snd (removeChat k st)) = calls st"
  by (simp add: removeChat_def split: option.splits)

text \<open>Requests change the log only.\<close>

lemma snd_pinMessage [simp]: "snd (pinMessage e k m st) = request (PinChatMessage k m) st"
  by (simp add: pinMessage_def Let_def split: response.splits)

lemma snd_deleteMessage [simp]: "snd (deleteMessage e k m st) = request (DeleteMessage k m) st"
  by (simp add: deleteMessage_def Let_def split: response.splits)

lemma snd_sendTextMessage [simp]: "snd (sendTextMessage e k r st) = request (SendMessage k r) st"
  by (simp add: sendTextMessage_def Let_def)

lemma deleteAll_requests:
  "deleteAll e k mids st = st\<lparr> calls := calls st @ map (DeleteMessage k) mids \<rparr>"
  unfolding deleteAll_def
  by (induction mids arbitrary: st) (simp_all add: request_def)

lemma getChat_deleteAll [simp]: "getChat (deleteAll e k mids st) k' = getChat st k'"
  by (simp add: deleteAll_requests getChat_def)

lemma mapDirty_deleteAll [simp]: "mapDirty (deleteAll e k mids st) = mapDirty st"
  by (simp add: deleteAll_requests)

lemma messageMap_deleteAll [simp]: "messageMap (deleteAll e k mids st) = messageMap st"
  by (simp add: deleteAll_requests)

lemma messageMap_migrate [simp]: "messageMap (migrate e k img s a st) = messageMap st"
  by (simp add: migrate_def Let_def split: option.splits)

lemma mapDirty_migrate [simp]: "mapDirty (migrate e k img s a st) = mapDirty st"
  by (simp add: migrate_def Let_def split: option.splits)

lemma getChat_migrate [simp]: "getChat (migrate e k img s a st) k' = getChat st k'"
  by (simp add: getChat_def)

text \<open>A send or an edit changes the map only by removing the chat, and then says so.\<close>

lemma sendPhoto_frame:
  "reason (fst (sendPhoto e chat st)) \<noteq> Some Unregistered \<Longrightarrow>
     messageMap (snd (sendPhoto e chat st)) = messageMap st
     \<and> mapDirty (snd (sendPhoto e chat st)) = mapDirty st"
  by (auto simp add: sendPhoto_def Let_def res_def split: response.splits if_splits)

lemma sendPhoto_reason:
  "reason (fst (sendPhoto e chat st)) \<in> {None, Some Unregistered, Some TopicClosed}"
  by (simp add: sendPhoto_def Let_def res_def split: response.splits)

lemma sendAlbum_frame:
  "reason (fst (sendAlbum e chat st)) \<noteq> Some Unregistered \<Longrightarrow>
     messageMap (snd (sendAlbum e chat st)) = messageMap st
     \<and> mapDirty (snd (sendAlbum e chat st)) = mapDirty st"
  by (auto simp add: sendAlbum_def sendMediaGroup_def Let_def res_def split: response.splits if_splits)

lemma sendAlbum_reason:
  "reason (fst (sendAlbum e chat st)) \<in> {None, Some Unregistered}"
  by (simp add: sendAlbum_def sendMediaGroup_def Let_def res_def split: response.splits)

lemma editPhoto_frame:
  "reason (fst (editPhoto e chat m st)) \<noteq> Some Unregistered \<Longrightarrow>
     messageMap (snd (editPhoto e chat m st)) = messageMap st
     \<and> mapDirty (snd (editPhoto e chat m st)) = mapDirty st"
  using sendPhoto_frame [of e chat "request (DeleteMessage (eff_chat_id chat) m)
     (request (EditMessageMedia (eff_chat_id chat) m (eff_image_url chat) (Some (eff_caption chat))) st)"]
  by (auto simp add: editPhoto_def Let_def res_def split_beta split: response.splits if_splits)

lemma editPhoto_reason:
  "reason (fst (editPhoto e chat m st)) \<in> {None, Some Unregistered, Some TopicClosed}"
  using sendPhoto_reason [of e chat "request (DeleteMessage (eff_chat_id chat) m)
     (request (EditMessageMedia (eff_chat_id chat) m (eff_image_url chat) (Some (eff_caption chat))) st)"]
  by (auto simp add: editPhoto_def Let_def res_def split_beta split: response.splits)

lemma editAlbumLoop_frame:
  "messageMap (snd (editAlbumLoop e chat b ps (rs, st))) = messageMap st
   \<and> mapDirty (snd (editAlbumLoop e chat b ps (rs, st))) = mapDirty st"
  by (induction ps arbitrary: b rs st) (auto simp add: Let_def)

lemma editAlbum_frame:
  "messageMap (snd (editAlbum e chat ids st)) = messageMap st
   \<and> mapDirty (snd (editAlbum e chat ids st)) = mapDirty st"
  using editAlbumLoop_frame [of e chat True "zip ids (imagesOf (eff_image_url chat))" "[]" st]
  by (simp add: editAlbum_def Let_def split_beta)

lemma editAlbum_reason:
  "reason (fst (editAlbum e chat ids st)) =
     (if length (imagesOf (eff_image_url chat)) \<noteq> length ids then Some SizeMismatch else None)"
  by (simp add: editAlbum_def Let_def res_def split_beta)

text \<open>What the three writers of the loop leave in the record of the chat.\<close>

lemma recordOf_request [simp]: "recordOf (request c st) k = recordOf st k"
  by (simp add: recordOf_def)

lemma recordOf_dirty [simp]: "recordOf (st\<lparr> mapDirty := b \<rparr>) k = recordOf st k"
  by (simp add: recordOf_def)

lemma recordOf_deleteAll [simp]: "recordOf (deleteAll e k mids st) k' = recordOf st k'"
  by (simp add: recordOf_def)

lemma recordOf_migrate [simp]: "recordOf (migrate e k img s a st) k' = recordOf st k'"
  by (simp add: recordOf_def)

lemma recordOf_present: "getChat st k = Some r \<Longrightarrow> recordOf st k = r"
  by (simp add: recordOf_def)

lemma getChat_same_map: "messageMap st' = messageMap st \<Longrightarrow> getChat st' k = getChat st k"
  by (simp add: getChat_def)

lemma recordOf_same_map: "messageMap st' = messageMap st \<Longrightarrow> recordOf st' k = recordOf st k"
  by (simp add: recordOf_def getChat_def)

lemma fieldOf_ensured: "fieldOf (ensureChat k st) k f = f (recordOf st k)"
  by (simp add: fieldOf_def getChat_ensureChat recordOf_def)

lemma getChat_setMessageId:
  "mid \<noteq> 0 \<Longrightarrow>
   getChat (setMessageId k mid st) k' =
     (if k' = k then Some ((recordOf st k)\<lparr> message_ids := None, message_id := Some mid \<rparr>)
      else getChat st k')"
  by (cases "recordOf st k")
     (auto simp add: setMessageId_def Let_def getChat_modifyChat getChat_ensureChat fieldOf_def
       recordOf_def split: option.splits)

lemma mapDirty_setMessageId:
  "mid \<noteq> 0 \<Longrightarrow>
   mapDirty (setMessageId k mid st) = (mapDirty st \<or> message_id (recordOf st k) \<noteq> Some mid)"
  by (cases "recordOf st k")
     (auto simp add: setMessageId_def Let_def getChat_modifyChat getChat_ensureChat fieldOf_def
       recordOf_def split: option.splits)

lemma getChat_setMessageIds:
  "getChat (setMessageIds k ids st) k' =
     (if k' = k then
        Some ((recordOf st k)
          \<lparr> message_id := (if truthyId (message_id (recordOf st k)) then None
                            else message_id (recordOf st k)),
            message_ids := (if (case message_ids (recordOf st k) of None \<Rightarrow> [] | Some xs \<Rightarrow> xs) \<noteq> ids
                            then Some ids else message_ids (recordOf st k)) \<rparr>)
      else getChat st k')"
  by (cases "recordOf st k")
     (auto simp add: setMessageIds_def Let_def getChat_modifyChat getChat_ensureChat fieldOf_def
       recordOf_def split: option.splits)

lemma getChat_updateStoredChatFields:
  "getChat (updateStoredChatFields k eff st) k' =
     (if k' = k then
        Some ((recordOf st k)
          \<lparr> image_url := (if truthyImage (eff_image_url eff) then Some (eff_image_url eff)
                           else image_url (recordOf st k)),
            caption := (if eff_caption eff \<noteq> [] then Some (eff_caption eff)
                         else caption (recordOf st k)) \<rparr>)
      else getChat st k')"
  by (cases "recordOf st k")
     (auto simp add: updateStoredChatFields_def Let_def getChat_modifyChat getChat_ensureChat
       fieldOf_def recordOf_def split: option.splits)

lemma mapDirty_updateStoredChatFields:
  "mapDirty (updateStoredChatFields k eff st) =
     (mapDirty st
      \<or> (truthyImage (eff_image_url eff) \<and> image_url (recordOf st k) \<noteq> Some (eff_image_url eff))
      \<or> (eff_caption eff \<noteq> [] \<and> caption (recordOf st k) \<noteq> Some (eff_caption eff)))"
  by (cases "recordOf st k")
     (auto simp add: updateStoredChatFields_def Let_def getChat_modifyChat getChat_ensureChat
       fieldOf_def recordOf_def split: option.splits)

lemma DEFAULT_CAPTION_nonempty: "DEFAULT_CAPTION \<noteq> []"
  by (simp add: DEFAULT_CAPTION_def)

section \<open>Registration: the membership events\<close>

lemma registerStep_leave:
  assumes "my_chat_member u = Some mcm" and "mcm_chat mcm = Some chat"
    and "chat_type chat \<in> {''channel'', ''supergroup'', ''group''}"
    and "new_status mcm \<in> Some ` {''left'', ''kicked'', ''restricted''}"
  shows "registerStep u (new, st) = (new, snd (removeChat (String_of_int (chat_id chat)) st))"
  using assms by (auto simp add: registerStep_def Let_def)

lemma registerStep_join:
  assumes "my_chat_member u = Some mcm" and "mcm_chat mcm = Some chat"
    and "chat_type chat \<in> {''channel'', ''supergroup'', ''group''}"
    and "new_status mcm \<in> Some ` {''administrator'', ''creator'', ''member''}"
  shows "registerStep u (new, st) =
           (if getChat st (String_of_int (chat_id chat)) = None
            then new @ [String_of_int (chat_id chat)] else new,
            ensureChat (String_of_int (chat_id chat)) st)"
  using assms by (auto simp add: registerStep_def Let_def)

text \<open>
  Claim C8. For a membership event that names a channel, a supergroup or a group: when the
  new status is left, kicked or restricted the record of the chat is deleted if there is one
  (and the map is then dirty), and nothing else changes; when the new status is
  administrator, creator or member an empty record, with neither \<open>image_url\<close> nor
  \<open>caption\<close>, is created if the chat has none, and the chat id is appended to the newly
  registered list exactly when the record was created. So the events member (or
  administrator) and then left, for one chat id, leave the map without that chat id.
\<close>

theorem registration_events:
  assumes "my_chat_member u = Some mcm" and "mcm_chat mcm = Some chat"
    and "chat_type chat \<in> {''channel'', ''supergroup'', ''group''}"
    and "chatId = String_of_int (chat_id chat)"
  shows
    "(new_status mcm \<in> Some ` {''left'', ''kicked'', ''restricted''} \<longrightarrow>
        registerStep u (new, st) =
          (new, if getChat st chatId = None then st
                else st\<lparr> messageMap := AList.delete chatId (messageMap st), mapDirty := True \<rparr>)
        \<and> getChat (snd (registerStep u (new, st))) chatId = None)
     \<and> (new_status mcm \<in> Some ` {''administrator'', ''creator'', ''member''} \<longrightarrow>
        registerStep u (new, st) =
          (if getChat st chatId = None
           then (new @ [chatId], st\<lparr> messageMap := messageMap st @ [(chatId, emptyRecord)] \<rparr>)
           else (new, st))
        \<and> image_url emptyRecord = None \<and> caption emptyRecord = None)
     \<and> (new_status mcm \<in> Some ` {''administrator'', ''member''}
          \<and> my_chat_member u2 = Some mcm2 \<and> mcm_chat mcm2 = Some chat2
          \<and> chat_type chat2 \<in> {''channel'', ''supergroup'', ''group''}
          \<and> chat_id chat2 = chat_id chat \<and> new_status mcm2 = Some ''left'' \<longrightarrow>
        getChat (snd (registerFromUpdates [u, u2] st)) chatId = None)"
proof (intro conjI impI)
  assume leave: "new_status mcm \<in> Some ` {''left'', ''kicked'', ''restricted''}"
  have step: "registerStep u (new, st) = (new, snd (removeChat chatId st))"
    using registerStep_leave [OF assms(1-3) leave] assms(4) by simp
  show "registerStep u (new, st) =
          (new, if getChat st chatId = None then st
                else st\<lparr> messageMap := AList.delete chatId (messageMap st), mapDirty := True \<rparr>)"
    by (cases "getChat st chatId") (simp_all add: step removeChat_absent removeChat_present)
  show "getChat (snd (registerStep u (new, st))) chatId = None"
    by (simp add: step getChat_removeChat)
next
  assume join: "new_status mcm \<in> Some ` {''administrator'', ''creator'', ''member''}"
  have step: "registerStep u (new, st) =
                (if getChat st chatId = None then new @ [chatId] else new, ensureChat chatId st)"
    using registerStep_join [OF assms(1-3) join] assms(4) by simp
  show "registerStep u (new, st) =
          (if getChat st chatId = None
           then (new @ [chatId], st\<lparr> messageMap := messageMap st @ [(chatId, emptyRecord)] \<rparr>)
           else (new, st))"
    by (cases "getChat st chatId") (simp_all add: step ensureChat_absent ensureChat_present)
  show "image_url emptyRecord = None" by (simp add: emptyRecord_def)
  show "caption emptyRecord = None" by (simp add: emptyRecord_def)
next
  assume seq: "new_status mcm \<in> Some ` {''administrator'', ''member''}
          \<and> my_chat_member u2 = Some mcm2 \<and> mcm_chat mcm2 = Some chat2
          \<and> chat_type chat2 \<in> {''channel'', ''supergroup'', ''group''}
          \<and> chat_id chat2 = chat_id chat \<and> new_status mcm2 = Some ''left''"
  then have join: "new_status mcm \<in> Some ` {''administrator'', ''creator'', ''member''}"
    by auto
  from seq have leave: "new_status mcm2 \<in> Some ` {''left'', ''kicked'', ''restricted''}"
    by simp
  obtain new1 where first: "registerStep u ([], st) = (new1, ensureChat chatId st)"
    using registerStep_join [OF assms(1-3) join, of "[]" st] assms(4) by simp
  have second: "registerStep u2 (new1, ensureChat chatId st) =
                  (new1, snd (removeChat chatId (ensureChat chatId st)))"
    using registerStep_leave [of u2 mcm2 chat2 new1 "ensureChat chatId st"] seq leave assms(4)
    by simp
  show "getChat (snd (registerFromUpdates [u, u2] st)) chatId = None"
    by (simp add: registerFromUpdates_def first second getChat_removeChat)
qed

theorem registration_events_witness:
  "registerStep
      \<lparr> my_chat_member = Some \<lparr> mcm_chat = Some \<lparr> chat_id = -100111, chat_type = ''channel'' \<rparr>,
                                new_status = Some ''member'' \<rparr>,
        upd_message = None, channel_post = None \<rparr>
      ([], \<lparr> messageMap = [], mapDirty = False, calls = [] \<rparr>)
    = ([''-100111''], \<lparr> messageMap = [(''-100111'', emptyRecord)], mapDirty = False, calls = [] \<rparr>)
   \<and> getChat (snd (registerFromUpdates
        [\<lparr> my_chat_member = Some \<lparr> mcm_chat = Some \<lparr> chat_id = -100111, chat_type = ''channel'' \<rparr>,
                                  new_status = Some ''member'' \<rparr>,
           upd_message = None, channel_post = None \<rparr>,
         \<lparr> my_chat_member = Some \<lparr> mcm_chat = Some \<lparr> chat_id = -100111, chat_type = ''channel'' \<rparr>,
                                  new_status = Some ''left'' \<rparr>,
           upd_message = None, channel_post = None \<rparr>]
        \<lparr> messageMap = [], mapDirty = False, calls = [] \<rparr>)) ''-100111'' = None"
proof -
  let ?chat = "\<lparr> chat_id = -100111, chat_type = ''channel'' \<rparr>"
  let ?mcm = "\<lparr> mcm_chat = Some ?chat, new_status = Some ''member'' \<rparr>"
  let ?mcm2 = "\<lparr> mcm_chat = Some ?chat, new_status = Some ''left'' \<rparr>"
  let ?u = "\<lparr> my_chat_member = Some ?mcm, upd_message = None, channel_post = None \<rparr>"
  let ?u2 = "\<lparr> my_chat_member = Some ?mcm2, upd_message = None, channel_post = None \<rparr>"
  let ?st = "\<lparr> messageMap = [], mapDirty = False, calls = [] \<rparr>"
  have h1: "my_chat_member ?u = Some ?mcm" by simp
  have h2: "mcm_chat ?mcm = Some ?chat" by simp
  have h3: "chat_type ?chat \<in> {''channel'', ''supergroup'', ''group''}" by simp
  have h4: "''-100111'' = String_of_int (chat_id ?chat)"
    by (simp add: String_of_int_def digitChar_def)
  show ?thesis
    using registration_events [OF h1 h2 h3 h4, of "[]" ?st ?u2 ?mcm2 ?chat]
    by (simp add: getChat_def)
qed

section \<open>Reconciliation: what the loop decides\<close>

lemma decide_EditAlbumOf:
  "decide img s a = EditAlbumOf ids \<Longrightarrow>
     a = Some ids \<and> length ids = length (imagesOf img) \<and> isAlbum img \<and> \<not> truthyId s"
  by (auto simp add: decide_def Let_def truthyId_def split: if_splits option.splits)

lemma decide_EditSingleOf:
  "decide img s a = EditSingleOf m \<Longrightarrow> s = Some m \<and> m \<noteq> 0 \<and> \<not> isAlbum img \<and> a = None"
  by (auto simp add: decide_def Let_def truthyId_def split: if_splits option.splits)

lemma fst_sendAlbumBranch [simp]: "fst (sendAlbumBranch e k eff st) = fst (sendAlbum e eff st)"
  by (simp add: sendAlbumBranch_def split_beta Let_def)

lemma fst_sendPhotoBranch [simp]: "fst (sendPhotoBranch e k eff st) = fst (sendPhoto e eff st)"
  by (simp add: sendPhotoBranch_def split_beta Let_def)

lemma fst_editAlbumBranch [simp]: "fst (editAlbumBranch e k eff ids st) = fst (editAlbum e eff ids st)"
  by (simp add: editAlbumBranch_def split_beta Let_def)

lemma fst_editPhotoBranch [simp]: "fst (editPhotoBranch e k eff m st) = fst (editPhoto e eff m st)"
  by (simp add: editPhotoBranch_def split_beta Let_def)

lemma eff_image_effectiveOf [simp]: "eff_image_url (effectiveOf k r img) = img"
  by (simp add: effectiveOf_def)

lemma eff_chat_effectiveOf [simp]: "eff_chat_id (effectiveOf k r img) = k"
  by (simp add: effectiveOf_def)

lemma eff_caption_effectiveOf [simp]:
  "eff_caption (effectiveOf k r img) = (case caption r of Some c \<Rightarrow> c | None \<Rightarrow> DEFAULT_CAPTION)"
  by (simp add: effectiveOf_def)

lemma SizeMismatch_not_sent:
  "x \<in> {None, Some Unregistered, Some TopicClosed} \<Longrightarrow> x \<noteq> Some SizeMismatch"
  by auto

lemma reconcileChat_no_SizeMismatch:
  "reason (fst (reconcileChat e k st)) \<noteq> Some SizeMismatch"
proof -
  have a: "reason (fst (sendAlbum e eff s)) \<noteq> Some SizeMismatch" for eff s
    using sendAlbum_reason [of e eff s] by auto
  have b: "reason (fst (sendPhoto e eff s)) \<noteq> Some SizeMismatch" for eff s
    using sendPhoto_reason [of e eff s] by auto
  have c: "reason (fst (editPhoto e eff m s)) \<noteq> Some SizeMismatch" for eff m s
    using editPhoto_reason [of e eff m s] by auto
  have d: "decide img sg al = EditAlbumOf ids \<Longrightarrow>
           reason (fst (editAlbum e (effectiveOf k r img) ids s)) \<noteq> Some SizeMismatch"
    for img sg al ids r s
    using decide_EditAlbumOf [of img sg al ids] by (simp add: editAlbum_reason)
  show ?thesis
    by (simp add: reconcileChat_def Let_def res_def a b c d split: option.splits plan.splits)
qed

lemma reconcileAll_fold:
  "\<forall>r \<in> set rs. P r \<Longrightarrow> (\<And>k s. P (fst (reconcileChat e k s))) \<Longrightarrow>
     \<forall>r \<in> set (fst (fold (reconcileStep e) ks (rs, st))). P r"
proof (induction ks arbitrary: rs st)
  case Nil
  then show ?case by simp
next
  case (Cons k ks)
  have "\<forall>r \<in> set (rs @ [fst (reconcileChat e k st)]). P r"
    using Cons.prems by auto
  from Cons.IH [OF this Cons.prems(2)]
  show ?case by (simp add: reconcileStep_def split_beta)
qed

text \<open>
  Claim C10. \<open>editAlbum\<close> answers \<open>size-mismatch\<close> exactly when the number of
  images differs from the number of stored ids, and the loop plans an album edit only with
  stored ids whose count equals the image count; so no result of a turn of the loop, and no
  result of a whole run over the map, carries the reason \<open>size-mismatch\<close>.
\<close>

theorem size_mismatch_unreachable:
  "(decide img s a = EditAlbumOf ids \<longrightarrow> a = Some ids \<and> length ids = length (imagesOf img))
   \<and> (length (imagesOf (eff_image_url chat)) \<noteq> length ids \<longrightarrow>
        reason (fst (editAlbum e chat ids st)) = Some SizeMismatch)
   \<and> reason (fst (reconcileChat e chatId st)) \<noteq> Some SizeMismatch
   \<and> (\<forall>r \<in> set (fst (reconcileAll e st)). reason r \<noteq> Some SizeMismatch)"
proof (intro conjI impI)
  assume "decide img s a = EditAlbumOf ids"
  then show "a = Some ids" and "length ids = length (imagesOf img)"
    using decide_EditAlbumOf by blast+
next
  assume "length (imagesOf (eff_image_url chat)) \<noteq> length ids"
  then show "reason (fst (editAlbum e chat ids st)) = Some SizeMismatch"
    by (simp add: editAlbum_reason)
next
  show "reason (fst (reconcileChat e chatId st)) \<noteq> Some SizeMismatch"
    by (rule reconcileChat_no_SizeMismatch)
next
  show "\<forall>r \<in> set (fst (reconcileAll e st)). reason r \<noteq> Some SizeMismatch"
    unfolding reconcileAll_def
    by (rule reconcileAll_fold) (simp_all add: reconcileChat_no_SizeMismatch)
qed

theorem size_mismatch_unreachable_witness:
  "decide (Album [''u1.png'', ''u2.png'']) None (Some [10, 11]) = EditAlbumOf [10, 11]
   \<and> fst (reconcileChat
        \<lparr> message_api = (\<lambda>cs. Thrown), group_api = (\<lambda>cs. Thrown), plain_api = (\<lambda>cs. Ok ()),
          http_api = (\<lambda>cs. HttpThrown), url_parses = (\<lambda>u. True) \<rparr>
        ''-100222''
        \<lparr> messageMap = [(''-100222'', emptyRecord\<lparr> image_url := Some (Album [''u1.png'', ''u2.png'']),
                                                  message_ids := Some [10, 11] \<rparr>)],
          mapDirty = False, calls = [] \<rparr>)
     = (res True)\<lparr> r_items := [ItemOk, ItemOk] \<rparr>
   \<and> reason (fst (reconcileChat
        \<lparr> message_api = (\<lambda>cs. Thrown), group_api = (\<lambda>cs. Thrown), plain_api = (\<lambda>cs. Ok ()),
          http_api = (\<lambda>cs. HttpThrown), url_parses = (\<lambda>u. True) \<rparr>
        ''-100222''
        \<lparr> messageMap = [(''-100222'', emptyRecord\<lparr> image_url := Some (Album [''u1.png'', ''u2.png'']),
                                                  message_ids := Some [10, 11] \<rparr>)],
          mapDirty = False, calls = [] \<rparr>)) \<noteq> Some SizeMismatch"
proof -
  let ?e = "\<lparr> message_api = (\<lambda>cs. Thrown), group_api = (\<lambda>cs. Thrown), plain_api = (\<lambda>cs. Ok ()),
          http_api = (\<lambda>cs. HttpThrown), url_parses = (\<lambda>u. True) \<rparr>"
  let ?st = "\<lparr> messageMap = [(''-100222'', emptyRecord\<lparr> image_url := Some (Album [''u1.png'', ''u2.png'']),
                                                  message_ids := Some [10, 11] \<rparr>)],
          mapDirty = False, calls = [] \<rparr>"
  have d: "decide (Album [''u1.png'', ''u2.png'']) None (Some [10, 11]) = EditAlbumOf [10, 11]"
    by (simp add: decide_def isAlbum_def imagesOf_def truthyId_def)
  have r: "fst (reconcileChat ?e ''-100222'' ?st) = (res True)\<lparr> r_items := [ItemOk, ItemOk] \<rparr>"
    by (simp add: reconcileChat_def recordOf_def getChat_def emptyRecord_def truthyImage_def d
        editAlbum_def imagesOf_def request_def itemOutcome_def Let_def)
  show ?thesis
    using size_mismatch_unreachable [of "Album [''u1.png'', ''u2.png'']" None "Some [10, 11]"
        "[10, 11]" "effectiveOf ''-100222'' emptyRecord (Album [''u1.png''])" ?e ?st "''-100222''"] d r
    by simp
qed

lemma recordOf_setMessageId:
  "mid \<noteq> 0 \<Longrightarrow>
   recordOf (setMessageId k mid st) k = (recordOf st k)\<lparr> message_ids := None, message_id := Some mid \<rparr>"
  by (simp add: recordOf_def [of "setMessageId k mid st"] getChat_setMessageId)

lemma recordOf_setMessageIds:
  "recordOf (setMessageIds k ids st) k =
     (recordOf st k)
       \<lparr> message_id := (if truthyId (message_id (recordOf st k)) then None
                         else message_id (recordOf st k)),
         message_ids := (if (case message_ids (recordOf st k) of None \<Rightarrow> [] | Some xs \<Rightarrow> xs) \<noteq> ids
                         then Some ids else message_ids (recordOf st k)) \<rparr>"
  by (simp add: recordOf_def [of "setMessageIds k ids st"] getChat_setMessageIds)

lemma recordOf_updateStoredChatFields:
  "recordOf (updateStoredChatFields k eff st) k =
     (recordOf st k)
       \<lparr> image_url := (if truthyImage (eff_image_url eff) then Some (eff_image_url eff)
                        else image_url (recordOf st k)),
         caption := (if eff_caption eff \<noteq> [] then Some (eff_caption eff)
                      else caption (recordOf st k)) \<rparr>"
  by (simp add: recordOf_def [of "updateStoredChatFields k eff st"] getChat_updateStoredChatFields)

text \<open>
  Every branch ends by \<open>updateStoredChatFields\<close>, unless the chat was unregistered, on
  a state whose record keeps the caption it had.
\<close>

lemma sendAlbumBranch_sync:
  assumes "reason (fst (sendAlbumBranch e k eff st)) \<noteq> Some Unregistered"
  shows "\<exists>st2. snd (sendAlbumBranch e k eff st) = updateStoredChatFields k eff st2
               \<and> caption (recordOf st2 k) = caption (recordOf st k)"
proof -
  from assms have nr: "reason (fst (sendAlbum e eff st)) \<noteq> Some Unregistered" by simp
  have same: "recordOf (snd (sendAlbum e eff st)) k = recordOf st k"
    by (rule recordOf_same_map) (simp add: sendAlbum_frame [OF nr])
  show ?thesis
    using nr same
    by (auto simp add: sendAlbumBranch_def split_beta Let_def recordOf_setMessageIds
        split: option.splits)
qed

lemma sendPhotoBranch_sync:
  assumes "reason (fst (sendPhotoBranch e k eff st)) \<noteq> Some Unregistered"
  shows "\<exists>st2. snd (sendPhotoBranch e k eff st) = updateStoredChatFields k eff st2
               \<and> caption (recordOf st2 k) = caption (recordOf st k)"
proof -
  from assms have nr: "reason (fst (sendPhoto e eff st)) \<noteq> Some Unregistered" by simp
  have same: "recordOf (snd (sendPhoto e eff st)) k = recordOf st k"
    by (rule recordOf_same_map) (simp add: sendPhoto_frame [OF nr])
  show ?thesis
    using nr same
    by (auto simp add: sendPhotoBranch_def split_beta Let_def recordOf_setMessageId
        split: option.splits)
qed

lemma editPhotoBranch_sync:
  assumes "reason (fst (editPhotoBranch e k eff m st)) \<noteq> Some Unregistered"
  shows "\<exists>st2. snd (editPhotoBranch e k eff m st) = updateStoredChatFields k eff st2
               \<and> caption (recordOf st2 k) = caption (recordOf st k)"
proof -
  from assms have nr: "reason (fst (editPhoto e eff m st)) \<noteq> Some Unregistered" by simp
  have same: "recordOf (snd (editPhoto e eff m st)) k = recordOf st k"
    by (rule recordOf_same_map) (simp add: editPhoto_frame [OF nr])
  show ?thesis
    using nr same
    by (auto simp add: editPhotoBranch_def split_beta Let_def recordOf_setMessageId
        split: option.splits)
qed

lemma editAlbumBranch_sync:
  "\<exists>st2. snd (editAlbumBranch e k eff ids st) = updateStoredChatFields k eff st2
         \<and> caption (recordOf st2 k) = caption (recordOf st k)"
proof -
  have same: "recordOf (snd (editAlbum e eff ids st)) k = recordOf st k"
    by (rule recordOf_same_map) (simp add: editAlbum_frame)
  show ?thesis
    using same by (auto simp add: editAlbumBranch_def split_beta Let_def)
qed

lemma reconcileChat_sync:
  assumes "getChat st chatId = Some r" and "image_url r = Some img" and "truthyImage img"
    and "chatId \<noteq> []"
    and "reason (fst (reconcileChat e chatId st)) \<noteq> Some Unregistered"
  shows "\<exists>st2. snd (reconcileChat e chatId st) = updateStoredChatFields chatId (effectiveOf chatId r img) st2
               \<and> caption (recordOf st2 chatId) = caption r"
proof -
  let ?eff = "effectiveOf chatId r img"
  let ?st1 = "migrate e chatId img (message_id r) (message_ids r) st"
  have rec: "recordOf st chatId = r" using assms(1) by (simp add: recordOf_present)
  have rec1: "recordOf ?st1 chatId = r" using rec by simp
  show ?thesis
  proof (cases "decide img (message_id r) (message_ids r)")
    case SendNew
    show ?thesis
    proof (cases "isAlbum img")
      case True
      then have eq: "reconcileChat e chatId st = sendAlbumBranch e chatId ?eff ?st1"
        using assms(2-4) rec SendNew by (simp add: reconcileChat_def Let_def)
      show ?thesis using sendAlbumBranch_sync [of e chatId ?eff ?st1] assms(5) rec1
        unfolding eq by simp
    next
      case False
      then have eq: "reconcileChat e chatId st = sendPhotoBranch e chatId ?eff ?st1"
        using assms(2-4) rec SendNew by (simp add: reconcileChat_def Let_def)
      show ?thesis using sendPhotoBranch_sync [of e chatId ?eff ?st1] assms(5) rec1
        unfolding eq by simp
    qed
  next
    case (EditAlbumOf ids)
    then have eq: "reconcileChat e chatId st = editAlbumBranch e chatId ?eff ids ?st1"
      using assms(2-4) rec by (simp add: reconcileChat_def Let_def)
    show ?thesis using editAlbumBranch_sync [of e chatId ?eff ids ?st1] rec1
      unfolding eq by simp
  next
    case (EditSingleOf m)
    then have eq: "reconcileChat e chatId st = editPhotoBranch e chatId ?eff m ?st1"
      using assms(2-4) rec by (simp add: reconcileChat_def Let_def)
    show ?thesis using editPhotoBranch_sync [of e chatId ?eff m ?st1] assms(5) rec1
      unfolding eq by simp
  qed
qed

text \<open>
  Claim C9. A chat with an image that reaches the send or edit stage with any outcome other
  than \<open>unregistered\<close>, hard failures included, ends the turn with the effective
  caption stored in its record; a chat that had no caption of its own gets the default
  caption written and the map marked dirty.
\<close>

theorem caption_written_back:
  assumes "getChat st chatId = Some r" and "image_url r = Some img" and "truthyImage img"
    and "chatId \<noteq> []"
    and "reason (fst (reconcileChat e chatId st)) \<noteq> Some Unregistered"
  shows "\<exists>r'. getChat (snd (reconcileChat e chatId st)) chatId = Some r'
           \<and> caption r' = Some (case caption r of Some c \<Rightarrow> c | None \<Rightarrow> DEFAULT_CAPTION)
           \<and> (caption r = None \<longrightarrow>
                caption r' = Some DEFAULT_CAPTION \<and> mapDirty (snd (reconcileChat e chatId st)))"
proof -
  obtain st2 where fin: "snd (reconcileChat e chatId st)
        = updateStoredChatFields chatId (effectiveOf chatId r img) st2"
    and cap: "caption (recordOf st2 chatId) = caption r"
    using reconcileChat_sync [OF assms] by blast
  show ?thesis
    using cap DEFAULT_CAPTION_nonempty
    by (auto simp add: fin getChat_updateStoredChatFields mapDirty_updateStoredChatFields
        split: option.splits)
qed

theorem caption_written_back_witness:
  "ok (fst (reconcileChat
        \<lparr> message_api = (\<lambda>cs. Failed (Some 500) None), group_api = (\<lambda>cs. Thrown),
          plain_api = (\<lambda>cs. Ok ()), http_api = (\<lambda>cs. HttpThrown), url_parses = (\<lambda>u. True) \<rparr>
        ''-100111''
        \<lparr> messageMap = [(''-100111'', emptyRecord\<lparr> image_url := Some (Single ''https://host/a.png'') \<rparr>)],
          mapDirty = False, calls = [] \<rparr>)) = False
   \<and> caption (recordOf (snd (reconcileChat
        \<lparr> message_api = (\<lambda>cs. Failed (Some 500) None), group_api = (\<lambda>cs. Thrown),
          plain_api = (\<lambda>cs. Ok ()), http_api = (\<lambda>cs. HttpThrown), url_parses = (\<lambda>u. True) \<rparr>
        ''-100111''
        \<lparr> messageMap = [(''-100111'', emptyRecord\<lparr> image_url := Some (Single ''https://host/a.png'') \<rparr>)],
          mapDirty = False, calls = [] \<rparr>)) ''-100111'') = Some DEFAULT_CAPTION
   \<and> mapDirty (snd (reconcileChat
        \<lparr> message_api = (\<lambda>cs. Failed (Some 500) None), group_api = (\<lambda>cs. Thrown),
          plain_api = (\<lambda>cs. Ok ()), http_api = (\<lambda>cs. HttpThrown), url_parses = (\<lambda>u. True) \<rparr>
        ''-100111''
        \<lparr> messageMap = [(''-100111'', emptyRecord\<lparr> image_url := Some (Single ''https://host/a.png'') \<rparr>)],
          mapDirty = False, calls = [] \<rparr>))"
proof -
  let ?e = "\<lparr> message_api = (\<lambda>cs. Failed (Some 500) None), group_api = (\<lambda>cs. Thrown),
          plain_api = (\<lambda>cs. Ok ()), http_api = (\<lambda>cs. HttpThrown), url_parses = (\<lambda>u. True) \<rparr>"
  let ?r = "emptyRecord\<lparr> image_url := Some (Single ''https://host/a.png'') \<rparr>"
  let ?st = "\<lparr> messageMap = [(''-100111'', ?r)], mapDirty = False, calls = [] \<rparr>"
  have h1: "getChat ?st ''-100111'' = Some ?r" by (simp add: getChat_def)
  have h2: "image_url ?r = Some (Single ''https://host/a.png'')" by simp
  have h3: "truthyImage (Single ''https://host/a.png'')" by (simp add: truthyImage_def)
  have h4: "''-100111'' \<noteq> []" by simp
  have r: "fst (reconcileChat ?e ''-100111'' ?st) = (res False)\<lparr> r_detail := Some (Json (Some 500) None) \<rparr>"
    by (simp add: reconcileChat_def recordOf_def getChat_def emptyRecord_def truthyImage_def
        decide_def isAlbum_def truthyId_def sendPhoto_def request_def Let_def describes_def
        describesLower_def)
  have h5: "reason (fst (reconcileChat ?e ''-100111'' ?st)) \<noteq> Some Unregistered"
    by (simp add: r res_def)
  have c: "caption ?r = None" by (simp add: emptyRecord_def)
  show ?thesis
    using caption_written_back [OF h1 h2 h3 h4 h5] c
    by (auto simp add: r res_def recordOf_def)
qed

section \<open>Reconciliation: the branches\<close>

lemma migrate_requests:
  "migrate e k img s a st =
     st\<lparr> calls := calls st
          @ (case s of Some mid \<Rightarrow> if isAlbum img \<and> mid \<noteq> 0 then [DeleteMessage k mid] else []
             | None \<Rightarrow> [])
          @ (case a of
               Some mids \<Rightarrow>
                 if \<not> isAlbum img \<or> length mids \<noteq> length (imagesOf img)
                 then map (DeleteMessage k) mids else []
             | None \<Rightarrow> []) \<rparr>"
  by (simp add: migrate_def Let_def deleteAll_requests request_def split: option.splits)

lemma decide_forced:
  "(isAlbum img \<and> truthyId s) \<or> (\<not> isAlbum img \<and> a \<noteq> None)
     \<or> (isAlbum img \<and> (\<exists>mids. a = Some mids \<and> length mids \<noteq> length (imagesOf img)))
   \<Longrightarrow> decide img s a = SendNew"
  by (auto simp add: decide_def Let_def)

lemma reconcileChat_unfold:
  assumes "getChat st k = Some r" and "image_url r = Some img" and "truthyImage img" and "k \<noteq> []"
  shows "reconcileChat e k st =
           (case decide img (message_id r) (message_ids r) of
              SendNew \<Rightarrow>
                if isAlbum img
                then sendAlbumBranch e k (effectiveOf k r img)
                       (migrate e k img (message_id r) (message_ids r) st)
                else sendPhotoBranch e k (effectiveOf k r img)
                       (migrate e k img (message_id r) (message_ids r) st)
            | EditAlbumOf ids \<Rightarrow>
                editAlbumBranch e k (effectiveOf k r img) ids
                  (migrate e k img (message_id r) (message_ids r) st)
            | EditSingleOf m \<Rightarrow>
                editPhotoBranch e k (effectiveOf k r img) m
                  (migrate e k img (message_id r) (message_ids r) st))"
  using assms by (simp add: reconcileChat_def Let_def recordOf_present)

lemma sendAlbum_ids:
  "r_message_ids (fst (sendAlbum e eff st)) = Some ids \<Longrightarrow>
     ok (fst (sendAlbum e eff st)) \<and> reason (fst (sendAlbum e eff st)) = None"
  by (auto simp add: sendAlbum_def sendMediaGroup_def Let_def res_def split: response.splits if_splits)

lemma sendPhoto_id:
  "r_message_id (fst (sendPhoto e eff st)) = Some m \<Longrightarrow>
     ok (fst (sendPhoto e eff st)) \<and> reason (fst (sendPhoto e eff st)) = None"
  by (auto simp add: sendPhoto_def Let_def res_def split: response.splits if_splits)

lemma sendAlbumBranch_stored:
  assumes "r_message_ids (fst (sendAlbum e eff st)) = Some ids"
  shows "recordOf (snd (sendAlbumBranch e k eff st)) k =
           (recordOf st k)
             \<lparr> message_id := (if truthyId (message_id (recordOf st k)) then None
                               else message_id (recordOf st k)),
               message_ids := (if (case message_ids (recordOf st k) of None \<Rightarrow> [] | Some xs \<Rightarrow> xs) \<noteq> ids
                               then Some ids else message_ids (recordOf st k)),
               image_url := (if truthyImage (eff_image_url eff) then Some (eff_image_url eff)
                              else image_url (recordOf st k)),
               caption := (if eff_caption eff \<noteq> [] then Some (eff_caption eff)
                            else caption (recordOf st k)) \<rparr>"
proof -
  have okr: "ok (fst (sendAlbum e eff st))" and nr: "reason (fst (sendAlbum e eff st)) = None"
    using sendAlbum_ids [OF assms] by simp_all
  have same: "recordOf (snd (sendAlbum e eff st)) k = recordOf st k"
    by (rule recordOf_same_map) (simp add: sendAlbum_frame nr)
  show ?thesis
    using assms okr nr same
    by (simp add: sendAlbumBranch_def split_beta Let_def recordOf_updateStoredChatFields
        recordOf_setMessageIds)
qed

lemma sendPhotoBranch_stored:
  assumes "r_message_id (fst (sendPhoto e eff st)) = Some m" and "m \<noteq> 0"
  shows "recordOf (snd (sendPhotoBranch e k eff st)) k =
           (recordOf st k)
             \<lparr> message_ids := None, message_id := Some m,
               image_url := (if truthyImage (eff_image_url eff) then Some (eff_image_url eff)
                              else image_url (recordOf st k)),
               caption := (if eff_caption eff \<noteq> [] then Some (eff_caption eff)
                            else caption (recordOf st k)) \<rparr>"
proof -
  have okr: "ok (fst (sendPhoto e eff st))" and nr: "reason (fst (sendPhoto e eff st)) = None"
    using sendPhoto_id [OF assms(1)] by simp_all
  have same: "recordOf (snd (sendPhoto e eff st)) k = recordOf st k"
    by (rule recordOf_same_map) (simp add: sendPhoto_frame nr)
  show ?thesis
    using assms okr nr same
    by (simp add: sendPhotoBranch_def split_beta Let_def recordOf_updateStoredChatFields
        recordOf_setMessageId)
qed

text \<open>The writers of the map send no request.\<close>

lemma calls_setMessageId [simp]: "calls (setMessageId k m st) = calls st"
  by (simp add: setMessageId_def Let_def)

lemma calls_setMessageIds [simp]: "calls (setMessageIds k ids st) = calls st"
  by (simp add: setMessageIds_def Let_def)

lemma calls_updateStoredChatFields [simp]: "calls (updateStoredChatFields k eff st) = calls st"
  by (simp add: updateStoredChatFields_def Let_def)

lemma calls_sendAlbumBranch:
  "calls (snd (sendAlbumBranch e k eff st)) = calls (snd (sendAlbum e eff st))"
  by (simp add: sendAlbumBranch_def split_beta Let_def split: option.splits)

lemma calls_sendPhotoBranch:
  "calls (snd (sendPhotoBranch e k eff st)) = calls (snd (sendPhoto e eff st))"
  by (simp add: sendPhotoBranch_def split_beta Let_def split: option.splits)

lemma calls_editAlbumBranch:
  "calls (snd (editAlbumBranch e k eff ids st)) = calls (snd (editAlbum e eff ids st))"
  by (simp add: editAlbumBranch_def split_beta Let_def)

lemma calls_editPhotoBranch:
  "calls (snd (editPhotoBranch e k eff m st)) = calls (snd (editPhoto e eff m st))"
  by (simp add: editPhotoBranch_def split_beta Let_def split: option.splits)

section \<open>Edit of an album\<close>

lemma editAlbumLoop_run:
  "editAlbumLoop e chat b ps (rs, st) =
     (rs @ itemsOf e (calls st) (loopEdits chat b ps),
      st\<lparr> calls := calls st @ loopEdits chat b ps \<rparr>)"
proof (induction ps arbitrary: b rs st)
  case Nil
  show ?case by simp
next
  case (Cons p ps)
  obtain m u where p: "p = (m, u)" by (cases p)
  show ?case
    by (simp add: p Let_def Cons.IH request_def)
qed

lemma loopEdits_False:
  "loopEdits chat False (zip ids us) =
     map (\<lambda>(mid, (url, cap)). EditMessageMedia (eff_chat_id chat) mid (Single url) cap)
       (zip ids (map (\<lambda>v. (v, None)) us))"
  by (induction ids us rule: list_induct2') simp_all

lemma loopEdits_albumEdits:
  "loopEdits chat True (zip ids (imagesOf (eff_image_url chat))) = albumEdits chat ids"
proof (cases ids)
  case Nil
  then show ?thesis by (simp add: albumEdits_def)
next
  case (Cons i js)
  show ?thesis
  proof (cases "imagesOf (eff_image_url chat)")
    case Nil
    then show ?thesis by (simp add: albumEdits_def)
  next
    case (Cons u us)
    then show ?thesis
      using \<open>ids = i # js\<close> by (simp add: albumEdits_def loopEdits_False)
  qed
qed

lemma editAlbum_run:
  assumes "length ids = length (imagesOf (eff_image_url chat))"
  shows "editAlbum e chat ids st =
           ((res True)\<lparr> r_items := itemsOf e (calls st) (albumEdits chat ids) \<rparr>,
            st\<lparr> calls := calls st @ albumEdits chat ids
                   @ (if ids \<noteq> [] then [PinChatMessage (eff_chat_id chat) (Some (hd ids))] else []) \<rparr>)"
  using assms
  by (simp add: editAlbum_def Let_def editAlbumLoop_run loopEdits_albumEdits request_def)

lemma length_albumEdits:
  "length (albumEdits chat ids) = min (length ids) (length (imagesOf (eff_image_url chat)))"
  by (cases "imagesOf (eff_image_url chat)") (simp_all add: albumEdits_def)

text \<open>
  Claim C4. With as many stored ids as images, \<open>editAlbum\<close> makes one edit request per
  pair (stored id, image) in order, the caption with the first only, and then pins the first
  stored id; its result is \<open>ok\<close> whatever the replies were; the items it records are
  those of the replies one by one, where a \<open>message is not modified\<close> reply records no
  failure and every other failed or thrown request records one; and neither \<open>editAlbum\<close>
  nor its caller in the loop changes the stored \<open>message_ids\<close>.
\<close>

theorem editAlbum_in_place:
  assumes "length ids = length (imagesOf (eff_image_url chat))"
  shows
    "calls (snd (editAlbum e chat ids st)) =
        calls st @ albumEdits chat ids
        @ (if ids \<noteq> [] then [PinChatMessage (eff_chat_id chat) (Some (hd ids))] else [])
     \<and> length (albumEdits chat ids) = length ids
     \<and> ok (fst (editAlbum e chat ids st))
     \<and> r_items (fst (editAlbum e chat ids st)) = itemsOf e (calls st) (albumEdits chat ids)
     \<and> (describes d ''message is not modified'' \<longrightarrow> itemOutcome (Failed (Some 400) d) = [])
     \<and> (\<not> (c = Some 400 \<and> describes d ''message is not modified'') \<longrightarrow>
          itemOutcome (Failed c d) = [ItemFailed (Json c d)])
     \<and> itemOutcome Thrown = [ItemFailed Err] \<and> itemOutcome (Ok ()) = [ItemOk]
     \<and> messageMap (snd (editAlbum e chat ids st)) = messageMap st
     \<and> message_ids (recordOf (snd (editAlbumBranch e chatId chat ids st)) chatId)
          = message_ids (recordOf st chatId)"
proof -
  note run = editAlbum_run [OF assms, of e st]
  have stored: "recordOf (snd (editAlbum e chat ids st)) chatId = recordOf st chatId"
    by (rule recordOf_same_map) (simp add: editAlbum_frame)
  have "message_ids (recordOf (snd (editAlbumBranch e chatId chat ids st)) chatId)
          = message_ids (recordOf st chatId)"
    by (simp add: editAlbumBranch_def split_beta recordOf_updateStoredChatFields stored)
  then show ?thesis
    using assms
    by (simp add: run res_def length_albumEdits itemOutcome_def)
qed

theorem editAlbum_in_place_witness:
  "editAlbum
      \<lparr> message_api = (\<lambda>cs. Thrown), group_api = (\<lambda>cs. Thrown),
        plain_api = (\<lambda>cs. if length cs < 2 then Failed (Some 400) (Some ''Bad Request: message is not modified'')
                          else if length cs = 2 then Failed (Some 400) (Some ''Bad Request: MESSAGE_ID_INVALID'')
                          else Ok ()),
        http_api = (\<lambda>cs. HttpThrown), url_parses = (\<lambda>u. True) \<rparr>
      \<lparr> eff_chat_id = ''-100222'', eff_image_url = Album [''u1.png'', ''u2.png''],
        eff_message_thread_id = None, eff_caption = ''Schedule'' \<rparr>
      [10, 11]
      \<lparr> messageMap = [], mapDirty = False, calls = [] \<rparr>
   = ((res True)\<lparr> r_items := [ItemFailed (Json (Some 400) (Some ''Bad Request: MESSAGE_ID_INVALID''))] \<rparr>,
      \<lparr> messageMap = [], mapDirty = False,
        calls = [EditMessageMedia ''-100222'' 10 (Single ''u1.png'') (Some ''Schedule''),
                 EditMessageMedia ''-100222'' 11 (Single ''u2.png'') None,
                 PinChatMessage ''-100222'' (Some 10)] \<rparr>)"
proof -
  let ?e = "\<lparr> message_api = (\<lambda>cs. Thrown), group_api = (\<lambda>cs. Thrown),
        plain_api = (\<lambda>cs. if length cs < 2 then Failed (Some 400) (Some ''Bad Request: message is not modified'')
                          else if length cs = 2 then Failed (Some 400) (Some ''Bad Request: MESSAGE_ID_INVALID'')
                          else Ok ()),
        http_api = (\<lambda>cs. HttpThrown), url_parses = (\<lambda>u. True) \<rparr>"
  let ?chat = "\<lparr> eff_chat_id = ''-100222'', eff_image_url = Album [''u1.png'', ''u2.png''],
        eff_message_thread_id = None, eff_caption = ''Schedule'' \<rparr>"
  let ?st = "\<lparr> messageMap = [], mapDirty = False, calls = [] \<rparr>"
  have h: "length [10, 11 :: int] = length (imagesOf (eff_image_url ?chat))"
    by (simp add: imagesOf_def)
  have edits: "albumEdits ?chat [10, 11] =
                 [EditMessageMedia ''-100222'' 10 (Single ''u1.png'') (Some ''Schedule''),
                  EditMessageMedia ''-100222'' 11 (Single ''u2.png'') None]"
    by (simp add: albumEdits_def imagesOf_def)
  have items: "itemsOf ?e [] (albumEdits ?chat [10, 11]) =
                 [ItemFailed (Json (Some 400) (Some ''Bad Request: MESSAGE_ID_INVALID''))]"
    by (simp add: edits itemOutcome_def describes_def)
  note t = editAlbum_in_place [OF h, of ?e ?st None None "''-100222''"]
  have m: "messageMap (snd (editAlbum ?e ?chat [10, 11] ?st)) = []"
    using t by simp
  have c: "calls (snd (editAlbum ?e ?chat [10, 11] ?st)) =
              [EditMessageMedia ''-100222'' 10 (Single ''u1.png'') (Some ''Schedule''),
               EditMessageMedia ''-100222'' 11 (Single ''u2.png'') None,
               PinChatMessage ''-100222'' (Some 10)]"
    using t by (simp add: edits)
  have i: "r_items (fst (editAlbum ?e ?chat [10, 11] ?st)) =
              [ItemFailed (Json (Some 400) (Some ''Bad Request: MESSAGE_ID_INVALID''))]"
    using t by (simp add: items)
  have d: "mapDirty (snd (editAlbum ?e ?chat [10, 11] ?st)) = False"
    using editAlbum_frame [of ?e ?chat "[10, 11]" ?st] by simp
  have f: "fst (editAlbum ?e ?chat [10, 11] ?st)
      = (res True)\<lparr> r_items := [ItemFailed (Json (Some 400) (Some ''Bad Request: MESSAGE_ID_INVALID''))] \<rparr>"
    using i by (simp add: editAlbum_def Let_def split_beta imagesOf_def)
  have s: "snd (editAlbum ?e ?chat [10, 11] ?st)
      = \<lparr> messageMap = [], mapDirty = False,
          calls = [EditMessageMedia ''-100222'' 10 (Single ''u1.png'') (Some ''Schedule''),
                   EditMessageMedia ''-100222'' 11 (Single ''u2.png'') None,
                   PinChatMessage ''-100222'' (Some 10)] \<rparr>"
    using m c d by (cases "snd (editAlbum ?e ?chat [10, 11] ?st)") simp
  show ?thesis using f s by (simp add: prod_eq_iff)
qed

section \<open>Failures of a send or an edit\<close>

lemma sendPhoto_removal_iff:
  assumes "message_api e (calls st @ [SendPhoto (eff_chat_id chat) (eff_image_url chat)
              (eff_caption chat) (eff_message_thread_id chat)]) = Failed c d"
  shows "(reason (fst (sendPhoto e chat st)) = Some Unregistered)
           = (c = Some 403 \<and> describesLower d ''not a member'')"
    and "c = Some 403 \<and> describesLower d ''not a member'' \<Longrightarrow>
           ok (fst (sendPhoto e chat st))
           \<and> getChat (snd (sendPhoto e chat st)) (eff_chat_id chat) = None
           \<and> (getChat st (eff_chat_id chat) \<noteq> None \<longrightarrow> mapDirty (snd (sendPhoto e chat st)))"
    and "c = Some 403 \<and> \<not> describesLower d ''not a member'' \<Longrightarrow>
           \<not> ok (fst (sendPhoto e chat st)) \<and> messageMap (snd (sendPhoto e chat st)) = messageMap st"
  using assms
  by (auto simp add: sendPhoto_def Let_def res_def removeChat_def getChat_def delete_conv'
      split: option.splits)

lemma editPhoto_removal_iff:
  assumes "plain_api e (calls st @ [EditMessageMedia (eff_chat_id chat) mid (eff_image_url chat)
              (Some (eff_caption chat))]) = Failed c d" and "c \<noteq> Some 400"
  shows "(reason (fst (editPhoto e chat mid st)) = Some Unregistered)
           = (c = Some 403 \<and> describesLower d ''not a member'')"
    and "c = Some 403 \<and> describesLower d ''not a member'' \<Longrightarrow>
           ok (fst (editPhoto e chat mid st))
           \<and> getChat (snd (editPhoto e chat mid st)) (eff_chat_id chat) = None
           \<and> (getChat st (eff_chat_id chat) \<noteq> None \<longrightarrow> mapDirty (snd (editPhoto e chat mid st)))"
    and "c = Some 403 \<and> \<not> describesLower d ''not a member'' \<Longrightarrow>
           \<not> ok (fst (editPhoto e chat mid st))
           \<and> messageMap (snd (editPhoto e chat mid st)) = messageMap st"
  using assms
  by (auto simp add: editPhoto_def Let_def res_def removeChat_def getChat_def delete_conv'
      split: option.splits)

lemma sendAlbum_removal_iff:
  assumes "group_api e (calls st @ [SendMediaGroup (eff_chat_id chat)
              (captioned (eff_caption chat) (imagesOf (eff_image_url chat)))
              (if truthyId (eff_message_thread_id chat) then eff_message_thread_id chat else None)])
           = Failed c d"
  shows "(reason (fst (sendAlbum e chat st)) = Some Unregistered) = (c = Some 403)"
  using assms
  by (auto simp add: sendAlbum_def sendMediaGroup_def Let_def res_def)

text \<open>
  Claim C2. For \<open>sendPhoto\<close> and \<open>editPhoto\<close> a failure is a removal exactly when
  the code is 403 and the description contains \<open>not a member\<close> without regard to case (the
  lemmas above). \<open>sendAlbum\<close> does not look at the description: the reply 403
  \<open>Forbidden: bot was kicked from the channel chat\<close>, which does not contain
  \<open>not a member\<close>, deletes the record, marks the map dirty and gives the outcome
  \<open>unregistered\<close>, where \<open>sendPhoto\<close> on the same reply gives a failure and keeps
  the record.
\<close>

theorem sendAlbum_unregisters_on_any_403:
  "sendAlbum
      \<lparr> message_api = (\<lambda>cs. Thrown),
        group_api = (\<lambda>cs. Failed (Some 403) (Some ''Forbidden: bot was kicked from the channel chat'')),
        plain_api = (\<lambda>cs. Ok ()), http_api = (\<lambda>cs. HttpThrown), url_parses = (\<lambda>u. True) \<rparr>
      \<lparr> eff_chat_id = ''-100222'', eff_image_url = Album [''u1.png'', ''u2.png''],
        eff_message_thread_id = None, eff_caption = ''Schedule'' \<rparr>
      \<lparr> messageMap = [(''-100222'', emptyRecord\<lparr> image_url := Some (Album [''u1.png'', ''u2.png'']) \<rparr>)],
        mapDirty = False, calls = [] \<rparr>
    = ((res True)\<lparr> reason := Some Unregistered \<rparr>,
       \<lparr> messageMap = [], mapDirty = True,
         calls = [SendMediaGroup ''-100222'' [(''u1.png'', Some ''Schedule''), (''u2.png'', None)] None] \<rparr>)
   \<and> describesLower (Some ''Forbidden: bot was kicked from the channel chat'') ''not a member'' = False
   \<and> sendPhoto
      \<lparr> message_api = (\<lambda>cs. Failed (Some 403) (Some ''Forbidden: bot was kicked from the channel chat'')),
        group_api = (\<lambda>cs. Thrown),
        plain_api = (\<lambda>cs. Ok ()), http_api = (\<lambda>cs. HttpThrown), url_parses = (\<lambda>u. True) \<rparr>
      \<lparr> eff_chat_id = ''-100222'', eff_image_url = Single ''u1.png'',
        eff_message_thread_id = None, eff_caption = ''Schedule'' \<rparr>
      \<lparr> messageMap = [(''-100222'', emptyRecord\<lparr> image_url := Some (Single ''u1.png'') \<rparr>)],
        mapDirty = False, calls = [] \<rparr>
    = ((res False)\<lparr> r_detail := Some (Json (Some 403) (Some ''Forbidden: bot was kicked from the channel chat'')) \<rparr>,
       \<lparr> messageMap = [(''-100222'', emptyRecord\<lparr> image_url := Some (Single ''u1.png'') \<rparr>)],
         mapDirty = False,
         calls = [SendPhoto ''-100222'' (Single ''u1.png'') ''Schedule'' None] \<rparr>)"
  by (simp add: sendAlbum_def sendMediaGroup_def sendPhoto_def imagesOf_def truthyId_def
      request_def removeChat_def describesLower_def describes_def toLowerCase_def lowerChar_def
      Let_def)

section \<open>Recovery of a failed edit\<close>

lemma editPhotoBranch_stored:
  assumes "ok (fst (editPhoto e eff mid st))" and "replaced (fst (editPhoto e eff mid st))"
    and "r_message_id (fst (editPhoto e eff mid st)) = Some new" and "new \<noteq> 0"
    and "reason (fst (editPhoto e eff mid st)) \<noteq> Some Unregistered"
  shows "recordOf (snd (editPhotoBranch e k eff mid st)) k =
           (recordOf st k)
             \<lparr> message_ids := None, message_id := Some new,
               image_url := (if truthyImage (eff_image_url eff) then Some (eff_image_url eff)
                              else image_url (recordOf st k)),
               caption := (if eff_caption eff \<noteq> [] then Some (eff_caption eff)
                            else caption (recordOf st k)) \<rparr>"
proof -
  have same: "recordOf (snd (editPhoto e eff mid st)) k = recordOf st k"
    by (rule recordOf_same_map) (simp add: editPhoto_frame assms(5))
  show ?thesis
    using assms same
    by (simp add: editPhotoBranch_def split_beta Let_def recordOf_updateStoredChatFields
        recordOf_setMessageId)
qed

text \<open>
  Claim C3. When the edit of a single message fails with code 400 and the description names
  neither \<open>message is not modified\<close> nor \<open>TOPIC_CLOSED\<close>, \<open>editPhoto\<close> asks
  for the deletion of the old message, whatever the answer to that, then sends the photo anew
  and returns the result of that send flagged \<open>replaced\<close>; when that send succeeds (an
  \<open>ok\<close> result with a message id) the caller in the loop stores the new id as the
  \<open>message_id\<close> of the chat.
\<close>

theorem editPhoto_recovery:
  assumes "plain_api e (calls st @ [EditMessageMedia (eff_chat_id chat) mid (eff_image_url chat)
              (Some (eff_caption chat))]) = Failed (Some 400) d"
    and "\<not> describes d ''message is not modified''" and "\<not> describes d ''TOPIC_CLOSED''"
    and "st2 = request (DeleteMessage (eff_chat_id chat) mid)
                 (request (EditMessageMedia (eff_chat_id chat) mid (eff_image_url chat)
                    (Some (eff_caption chat))) st)"
  shows
    "editPhoto e chat mid st = ((fst (sendPhoto e chat st2))\<lparr> replaced := True \<rparr>, snd (sendPhoto e chat st2))
     \<and> calls st2 = calls st @ [EditMessageMedia (eff_chat_id chat) mid (eff_image_url chat)
                                 (Some (eff_caption chat)),
                               DeleteMessage (eff_chat_id chat) mid]
     \<and> (\<exists>rest. calls (snd (editPhoto e chat mid st)) =
           calls st2 @ SendPhoto (eff_chat_id chat) (eff_image_url chat) (eff_caption chat)
                         (eff_message_thread_id chat) # rest)
     \<and> (ok (fst (sendPhoto e chat st2)) \<and> r_message_id (fst (sendPhoto e chat st2)) = Some new
          \<and> new \<noteq> 0 \<longrightarrow>
        message_id (recordOf (snd (editPhotoBranch e chatId chat mid st)) chatId) = Some new
        \<and> message_ids (recordOf (snd (editPhotoBranch e chatId chat mid st)) chatId) = None
        \<and> replaced (fst (editPhotoBranch e chatId chat mid st)))"
proof -
  have run: "editPhoto e chat mid st
      = ((fst (sendPhoto e chat st2))\<lparr> replaced := True \<rparr>, snd (sendPhoto e chat st2))"
    using assms by (simp add: editPhoto_def Let_def split_beta)
  have log2: "calls st2 = calls st @ [EditMessageMedia (eff_chat_id chat) mid (eff_image_url chat)
                                 (Some (eff_caption chat)),
                               DeleteMessage (eff_chat_id chat) mid]"
    by (simp add: assms(4))
  have log3: "\<exists>rest. calls (snd (sendPhoto e chat st2)) =
           calls st2 @ SendPhoto (eff_chat_id chat) (eff_image_url chat) (eff_caption chat)
                         (eff_message_thread_id chat) # rest"
    by (simp add: sendPhoto_def Let_def split: response.splits)
  have stored: "ok (fst (sendPhoto e chat st2)) \<and> r_message_id (fst (sendPhoto e chat st2)) = Some new
          \<and> new \<noteq> 0 \<longrightarrow>
        message_id (recordOf (snd (editPhotoBranch e chatId chat mid st)) chatId) = Some new
        \<and> message_ids (recordOf (snd (editPhotoBranch e chatId chat mid st)) chatId) = None
        \<and> replaced (fst (editPhotoBranch e chatId chat mid st))"
  proof
    assume a: "ok (fst (sendPhoto e chat st2)) \<and> r_message_id (fst (sendPhoto e chat st2)) = Some new
          \<and> new \<noteq> 0"
    then have nr: "reason (fst (sendPhoto e chat st2)) = None"
      using sendPhoto_id [of e chat st2 new] by simp
    have "recordOf (snd (editPhotoBranch e chatId chat mid st)) chatId =
           (recordOf st chatId)
             \<lparr> message_ids := None, message_id := Some new,
               image_url := (if truthyImage (eff_image_url chat) then Some (eff_image_url chat)
                              else image_url (recordOf st chatId)),
               caption := (if eff_caption chat \<noteq> [] then Some (eff_caption chat)
                            else caption (recordOf st chatId)) \<rparr>"
      by (rule editPhotoBranch_stored) (use a nr in \<open>simp_all add: run\<close>)
    then show "message_id (recordOf (snd (editPhotoBranch e chatId chat mid st)) chatId) = Some new
        \<and> message_ids (recordOf (snd (editPhotoBranch e chatId chat mid st)) chatId) = None
        \<and> replaced (fst (editPhotoBranch e chatId chat mid st))"
      by (simp add: run)
  qed
  from run log2 log3 stored show ?thesis by simp
qed

theorem editPhoto_recovery_witness:
  "editPhoto
      \<lparr> message_api = (\<lambda>cs. Ok (Some 42)), group_api = (\<lambda>cs. Thrown),
        plain_api = (\<lambda>cs. Failed (Some 400) (Some ''Bad Request: message to edit not found'')),
        http_api = (\<lambda>cs. HttpThrown), url_parses = (\<lambda>u. True) \<rparr>
      \<lparr> eff_chat_id = ''-100111'', eff_image_url = Single ''https://host/a.png'',
        eff_message_thread_id = None, eff_caption = ''Schedule'' \<rparr>
      5
      \<lparr> messageMap = [(''-100111'', emptyRecord\<lparr> image_url := Some (Single ''https://host/a.png''),
                                                message_id := Some 5 \<rparr>)],
        mapDirty = False, calls = [] \<rparr>
    = ((res True)\<lparr> r_message_id := Some 42, replaced := True \<rparr>,
       \<lparr> messageMap = [(''-100111'', emptyRecord\<lparr> image_url := Some (Single ''https://host/a.png''),
                                                message_id := Some 5 \<rparr>)],
         mapDirty = False,
         calls = [EditMessageMedia ''-100111'' 5 (Single ''https://host/a.png'') (Some ''Schedule''),
                  DeleteMessage ''-100111'' 5,
                  SendPhoto ''-100111'' (Single ''https://host/a.png'') ''Schedule'' None,
                  PinChatMessage ''-100111'' (Some 42)] \<rparr>)
   \<and> message_id (recordOf (snd (editPhotoBranch
        \<lparr> message_api = (\<lambda>cs. Ok (Some 42)), group_api = (\<lambda>cs. Thrown),
          plain_api = (\<lambda>cs. Failed (Some 400) (Some ''Bad Request: message to edit not found'')),
          http_api = (\<lambda>cs. HttpThrown), url_parses = (\<lambda>u. True) \<rparr>
        ''-100111''
        \<lparr> eff_chat_id = ''-100111'', eff_image_url = Single ''https://host/a.png'',
          eff_message_thread_id = None, eff_caption = ''Schedule'' \<rparr>
        5
        \<lparr> messageMap = [(''-100111'', emptyRecord\<lparr> image_url := Some (Single ''https://host/a.png''),
                                                  message_id := Some 5 \<rparr>)],
          mapDirty = False, calls = [] \<rparr>)) ''-100111'') = Some 42"
proof -
  let ?e = "\<lparr> message_api = (\<lambda>cs. Ok (Some 42)), group_api = (\<lambda>cs. Thrown),
        plain_api = (\<lambda>cs. Failed (Some 400) (Some ''Bad Request: message to edit not found'')),
        http_api = (\<lambda>cs. HttpThrown), url_parses = (\<lambda>u. True) \<rparr>"
  let ?chat = "\<lparr> eff_chat_id = ''-100111'', eff_image_url = Single ''https://host/a.png'',
        eff_message_thread_id = None, eff_caption = ''Schedule'' \<rparr>"
  let ?m = "[(''-100111'', emptyRecord\<lparr> image_url := Some (Single ''https://host/a.png''),
                                                message_id := Some 5 \<rparr>)]"
  let ?st = "\<lparr> messageMap = ?m, mapDirty = False, calls = [] \<rparr>"
  let ?st2 = "request (DeleteMessage (eff_chat_id ?chat) 5)
                 (request (EditMessageMedia (eff_chat_id ?chat) 5 (eff_image_url ?chat)
                    (Some (eff_caption ?chat))) ?st)"
  have h1: "plain_api ?e (calls ?st @ [EditMessageMedia (eff_chat_id ?chat) 5 (eff_image_url ?chat)
              (Some (eff_caption ?chat))]) = Failed (Some 400) (Some ''Bad Request: message to edit not found'')"
    by simp
  have h2: "\<not> describes (Some ''Bad Request: message to edit not found'') ''message is not modified''"
    by (simp add: describes_def)
  have h3: "\<not> describes (Some ''Bad Request: message to edit not found'') ''TOPIC_CLOSED''"
    by (simp add: describes_def)
  note t = editPhoto_recovery [OF h1 h2 h3 refl, of 42 "''-100111''"]
  have sent: "sendPhoto ?e ?chat
        (request (DeleteMessage ''-100111'' 5)
           (request (EditMessageMedia ''-100111'' 5 (Single ''https://host/a.png'') (Some ''Schedule'')) ?st))
      = ((res True)\<lparr> r_message_id := Some 42 \<rparr>,
         \<lparr> messageMap = ?m, mapDirty = False,
           calls = [EditMessageMedia ''-100111'' 5 (Single ''https://host/a.png'') (Some ''Schedule''),
                    DeleteMessage ''-100111'' 5,
                    SendPhoto ''-100111'' (Single ''https://host/a.png'') ''Schedule'' None,
                    PinChatMessage ''-100111'' (Some 42)] \<rparr>)"
    by (simp add: sendPhoto_def request_def Let_def)
  have run: "editPhoto ?e ?chat 5 ?st
      = ((fst (sendPhoto ?e ?chat ?st2))\<lparr> replaced := True \<rparr>, snd (sendPhoto ?e ?chat ?st2))"
    using t [THEN conjunct1] .
  have stored: "message_id (recordOf (snd (editPhotoBranch ?e ''-100111'' ?chat 5 ?st)) ''-100111'') = Some 42"
    using t [THEN conjunct2, THEN conjunct2, THEN conjunct2] by (simp add: sent res_def)
  show ?thesis
    unfolding run using stored by (simp add: sent res_def)
qed

section \<open>Reconciliation: the decision table\<close>

text \<open>The requests of a send and of an edit, the pins apart.\<close>

lemma isPin_simps [simp]:
  "isPin (PinChatMessage k m)" "\<not> isPin (DeleteMessage k i)" "\<not> isPin (SendPhoto k img c t)"
  "\<not> isPin (SendMediaGroup k media t)" "\<not> isPin (EditMessageMedia k i img co)"
  by (simp_all add: isPin_def)

lemma actions_after:
  assumes "calls s = calls st @ ds" and "calls st' = calls s @ xs"
  shows "actions st st' = filter (\<lambda>c. \<not> isPin c) ds @ filter (\<lambda>c. \<not> isPin c) xs"
  using assms by (simp add: actions_def)

lemma deletions_kept:
  "filter (\<lambda>c. \<not> isPin c) (map (DeleteMessage k) mids) = map (DeleteMessage k) mids"
  by (induction mids) (simp_all add: isPin_def)

lemma albumEdits_kept: "filter (\<lambda>c. \<not> isPin c) (albumEdits eff ids) = albumEdits eff ids"
  unfolding albumEdits_def by (rule filter_True) (auto simp add: isPin_def)

lemma sendPhoto_calls:
  "\<exists>ps. calls (snd (sendPhoto e eff s)) = calls s @ sendPhotoRequest eff # ps
        \<and> filter (\<lambda>c. \<not> isPin c) ps = []"
  by (simp add: sendPhoto_def sendPhotoRequest_def Let_def isPin_def split: response.splits)

lemma sendAlbum_calls:
  "\<exists>ps. calls (snd (sendAlbum e eff s)) = calls s @ sendAlbumRequest eff # ps
        \<and> filter (\<lambda>c. \<not> isPin c) ps = []"
  by (simp add: sendAlbum_def sendMediaGroup_def sendAlbumRequest_def Let_def isPin_def
      split: response.splits)

lemma editPhoto_calls:
  "\<exists>xs. calls (snd (editPhoto e eff mid s)) = calls s @ xs
        \<and> filter (\<lambda>c. \<not> isPin c) xs = editPhotoRequest eff mid # recovery e eff mid (calls s)"
proof -
  let ?s2 = "request (DeleteMessage (eff_chat_id eff) mid) (request (editPhotoRequest eff mid) s)"
  obtain ps where ps: "calls (snd (sendPhoto e eff ?s2)) = calls ?s2 @ sendPhotoRequest eff # ps"
    and np: "filter (\<lambda>c. \<not> isPin c) ps = []"
    using sendPhoto_calls [of e eff ?s2] by blast
  show ?thesis
  proof (cases "plain_api e (calls s @ [editPhotoRequest eff mid])")
    case (Ok u)
    then show ?thesis
      by (simp add: editPhoto_def editPhotoRequest_def recovery_def Let_def isPin_def)
  next
    case Thrown
    then show ?thesis
      by (simp add: editPhoto_def editPhotoRequest_def recovery_def Let_def isPin_def)
  next
    case (Failed c d)
    show ?thesis
    proof (cases "c = Some 400 \<and> \<not> describes d ''message is not modified''
                    \<and> \<not> describes d ''TOPIC_CLOSED''")
      case True
      have "calls (snd (editPhoto e eff mid s)) = calls (snd (sendPhoto e eff ?s2))"
        using Failed True
        by (simp add: editPhoto_def editPhotoRequest_def Let_def split_beta)
      then have "calls (snd (editPhoto e eff mid s)) =
          calls s @ ([editPhotoRequest eff mid, DeleteMessage (eff_chat_id eff) mid,
                      sendPhotoRequest eff] @ ps)"
        using ps by simp
      moreover have "filter (\<lambda>c. \<not> isPin c)
            ([editPhotoRequest eff mid, DeleteMessage (eff_chat_id eff) mid, sendPhotoRequest eff] @ ps)
          = editPhotoRequest eff mid # recovery e eff mid (calls s)"
        using Failed True np
        by (simp add: recovery_def isPin_def editPhotoRequest_def sendPhotoRequest_def)
      ultimately show ?thesis by blast
    next
      case False
      then show ?thesis
        using Failed
        by (auto simp add: editPhoto_def editPhotoRequest_def recovery_def Let_def isPin_def)
    qed
  qed
qed

lemma sendPhotoBranch_actions:
  assumes "calls s = calls st @ ds"
  shows "actions st (snd (sendPhotoBranch e k eff s))
           = filter (\<lambda>c. \<not> isPin c) ds @ [sendPhotoRequest eff]"
proof -
  obtain ps where ps: "calls (snd (sendPhoto e eff s)) = calls s @ sendPhotoRequest eff # ps"
    and np: "filter (\<lambda>c. \<not> isPin c) ps = []"
    using sendPhoto_calls [of e eff s] by blast
  have "calls (snd (sendPhotoBranch e k eff s)) = calls s @ sendPhotoRequest eff # ps"
    by (simp add: calls_sendPhotoBranch ps)
  from actions_after [OF assms this] np show ?thesis
    by (simp add: isPin_def sendPhotoRequest_def)
qed

lemma sendAlbumBranch_actions:
  assumes "calls s = calls st @ ds"
  shows "actions st (snd (sendAlbumBranch e k eff s))
           = filter (\<lambda>c. \<not> isPin c) ds @ [sendAlbumRequest eff]"
proof -
  obtain ps where ps: "calls (snd (sendAlbum e eff s)) = calls s @ sendAlbumRequest eff # ps"
    and np: "filter (\<lambda>c. \<not> isPin c) ps = []"
    using sendAlbum_calls [of e eff s] by blast
  have "calls (snd (sendAlbumBranch e k eff s)) = calls s @ sendAlbumRequest eff # ps"
    by (simp add: calls_sendAlbumBranch ps)
  from actions_after [OF assms this] np show ?thesis
    by (simp add: isPin_def sendAlbumRequest_def)
qed

lemma editAlbumBranch_actions:
  assumes "length ids = length (imagesOf (eff_image_url eff))" and "calls s = calls st @ ds"
  shows "actions st (snd (editAlbumBranch e k eff ids s))
           = filter (\<lambda>c. \<not> isPin c) ds @ albumEdits eff ids"
proof -
  have "calls (snd (editAlbumBranch e k eff ids s)) =
      calls s @ (albumEdits eff ids
        @ (if ids \<noteq> [] then [PinChatMessage (eff_chat_id eff) (Some (hd ids))] else []))"
    by (simp add: calls_editAlbumBranch editAlbum_run [OF assms(1)])
  from actions_after [OF assms(2) this] show ?thesis
    by (simp add: albumEdits_kept)
qed

lemma editPhotoBranch_actions:
  assumes "calls s = calls st @ ds"
  shows "actions st (snd (editPhotoBranch e k eff mid s))
           = filter (\<lambda>c. \<not> isPin c) ds @ editPhotoRequest eff mid # recovery e eff mid (calls s)"
proof -
  obtain xs where xs: "calls (snd (editPhoto e eff mid s)) = calls s @ xs"
    and np: "filter (\<lambda>c. \<not> isPin c) xs = editPhotoRequest eff mid # recovery e eff mid (calls s)"
    using editPhoto_calls [of e eff mid s] by blast
  have "calls (snd (editPhotoBranch e k eff mid s)) = calls s @ xs"
    by (simp add: calls_editPhotoBranch xs)
  from actions_after [OF assms this] np show ?thesis by simp
qed


text \<open>
  Claim C1. For a chat of the map with a (truthy) image, one turn of the loop follows the
  table; the requests named are those of the turn, in order, the pins apart. A stored single
  id under an album configuration: delete that message, send a new album. Stored album ids
  under a single configuration: delete all of them, send a new single. Stored album ids whose
  count differs from the image count: delete all of them, send a new album. Stored album ids
  whose count equals the image count: edit the album, one request per stored id. A stored
  single id under a single configuration: edit the single message (and, when that edit fails
  for the message, replace it). Nothing stored: send. Whenever a transition case applies the
  plan is \<open>'send'\<close>: the requests are the deletions and one send, and no edit. After a
  switch to album whose send succeeded (an \<open>ok\<close> result with message ids) no
  \<open>message_id\<close> is left and the returned ids are stored; after a switch to single whose
  send succeeded (an \<open>ok\<close> result with a message id) no \<open>message_ids\<close> is left and
  the returned id is stored.
\<close>

theorem decision_table:
  assumes "getChat st chatId = Some r" and "image_url r = Some img" and "truthyImage img"
    and "chatId \<noteq> []"
  shows
    "(isAlbum img \<and> message_id r = Some mid \<and> mid \<noteq> 0 \<and> message_ids r = None \<longrightarrow>
        reconcileChat e chatId st =
          sendAlbumBranch e chatId (effectiveOf chatId r img) (snd (deleteMessage e chatId mid st))
        \<and> actions st (snd (reconcileChat e chatId st)) =
            [DeleteMessage chatId mid, sendAlbumRequest (effectiveOf chatId r img)])
     \<and> (\<not> isAlbum img \<and> message_ids r = Some mids \<longrightarrow>
        reconcileChat e chatId st =
          sendPhotoBranch e chatId (effectiveOf chatId r img) (deleteAll e chatId mids st)
        \<and> actions st (snd (reconcileChat e chatId st)) =
            map (DeleteMessage chatId) mids @ [sendPhotoRequest (effectiveOf chatId r img)])
     \<and> (isAlbum img \<and> message_ids r = Some mids \<and> length mids \<noteq> length (imagesOf img)
          \<and> \<not> truthyId (message_id r) \<longrightarrow>
        reconcileChat e chatId st =
          sendAlbumBranch e chatId (effectiveOf chatId r img) (deleteAll e chatId mids st)
        \<and> actions st (snd (reconcileChat e chatId st)) =
            map (DeleteMessage chatId) mids @ [sendAlbumRequest (effectiveOf chatId r img)])
     \<and> (isAlbum img \<and> message_ids r = Some mids \<and> length mids = length (imagesOf img)
          \<and> \<not> truthyId (message_id r) \<longrightarrow>
        reconcileChat e chatId st =
          editAlbumBranch e chatId (effectiveOf chatId r img) mids st
        \<and> actions st (snd (reconcileChat e chatId st)) =
            albumEdits (effectiveOf chatId r img) mids)
     \<and> (\<not> isAlbum img \<and> message_id r = Some mid \<and> mid \<noteq> 0 \<and> message_ids r = None \<longrightarrow>
        reconcileChat e chatId st =
          editPhotoBranch e chatId (effectiveOf chatId r img) mid st
        \<and> actions st (snd (reconcileChat e chatId st)) =
            editPhotoRequest (effectiveOf chatId r img) mid # recovery e (effectiveOf chatId r img) mid (calls st))
     \<and> (\<not> truthyId (message_id r) \<and> message_ids r = None \<longrightarrow>
        reconcileChat e chatId st =
          (if isAlbum img then sendAlbumBranch e chatId (effectiveOf chatId r img) st
           else sendPhotoBranch e chatId (effectiveOf chatId r img) st)
        \<and> actions st (snd (reconcileChat e chatId st)) =
            [if isAlbum img then sendAlbumRequest (effectiveOf chatId r img) else sendPhotoRequest (effectiveOf chatId r img)])
     \<and> ((isAlbum img \<and> truthyId (message_id r)) \<or> (\<not> isAlbum img \<and> message_ids r \<noteq> None)
          \<or> (isAlbum img \<and> (\<exists>ms. message_ids r = Some ms \<and> length ms \<noteq> length (imagesOf img)))
        \<longrightarrow>
        decide img (message_id r) (message_ids r) = SendNew
        \<and> reconcileChat e chatId st =
            (if isAlbum img
             then sendAlbumBranch e chatId (effectiveOf chatId r img)
                    (migrate e chatId img (message_id r) (message_ids r) st)
             else sendPhotoBranch e chatId (effectiveOf chatId r img)
                    (migrate e chatId img (message_id r) (message_ids r) st))
        \<and> actions st (snd (reconcileChat e chatId st)) =
            (case message_id r of
               Some m \<Rightarrow> if isAlbum img \<and> m \<noteq> 0 then [DeleteMessage chatId m] else []
             | None \<Rightarrow> [])
            @ (case message_ids r of
                 Some ms \<Rightarrow>
                   if \<not> isAlbum img \<or> length ms \<noteq> length (imagesOf img)
                   then map (DeleteMessage chatId) ms else []
               | None \<Rightarrow> [])
            @ [if isAlbum img then sendAlbumRequest (effectiveOf chatId r img) else sendPhotoRequest (effectiveOf chatId r img)])
     \<and> (isAlbum img \<and> message_id r = Some mid \<and> mid \<noteq> 0
          \<and> ok (fst (reconcileChat e chatId st))
          \<and> r_message_ids (fst (reconcileChat e chatId st)) = Some ids \<longrightarrow>
        message_id (recordOf (snd (reconcileChat e chatId st)) chatId) = None
        \<and> message_ids (recordOf (snd (reconcileChat e chatId st)) chatId) =
            (if ids = [] \<and> message_ids r = None then None else Some ids))
     \<and> (\<not> isAlbum img \<and> message_ids r = Some mids
          \<and> ok (fst (reconcileChat e chatId st))
          \<and> r_message_id (fst (reconcileChat e chatId st)) = Some new \<and> new \<noteq> 0 \<longrightarrow>
        message_ids (recordOf (snd (reconcileChat e chatId st)) chatId) = None
        \<and> message_id (recordOf (snd (reconcileChat e chatId st)) chatId) = Some new)"
proof -
  let ?eff = "effectiveOf chatId r img"
  let ?mig = "migrate e chatId img (message_id r) (message_ids r) st"
  note unfold = reconcileChat_unfold [OF assms, of e]
  have rec: "recordOf ?mig chatId = r"
    using assms(1) by (simp add: recordOf_present)
  have images: "imagesOf (eff_image_url ?eff) = imagesOf img"
    by (simp add: effectiveOf_def)
  have row1: "isAlbum img \<and> message_id r = Some mid \<and> mid \<noteq> 0 \<and> message_ids r = None \<longrightarrow>
        reconcileChat e chatId st =
          sendAlbumBranch e chatId ?eff (snd (deleteMessage e chatId mid st))
        \<and> actions st (snd (reconcileChat e chatId st)) =
            [DeleteMessage chatId mid, sendAlbumRequest ?eff]"
  proof
    assume a: "isAlbum img \<and> message_id r = Some mid \<and> mid \<noteq> 0 \<and> message_ids r = None"
    have eq: "reconcileChat e chatId st = sendAlbumBranch e chatId ?eff (snd (deleteMessage e chatId mid st))"
      using a by (simp add: unfold decide_def migrate_def Let_def truthyId_def)
    have c: "calls (snd (deleteMessage e chatId mid st)) = calls st @ [DeleteMessage chatId mid]"
      by simp
    have act: "actions st (snd (sendAlbumBranch e chatId ?eff (snd (deleteMessage e chatId mid st)))) =
            [DeleteMessage chatId mid, sendAlbumRequest ?eff]"
      using sendAlbumBranch_actions [OF c, of e chatId ?eff] by (simp add: deletions_kept)
    show "reconcileChat e chatId st =
          sendAlbumBranch e chatId ?eff (snd (deleteMessage e chatId mid st))
        \<and> actions st (snd (reconcileChat e chatId st)) =
            [DeleteMessage chatId mid, sendAlbumRequest ?eff]"
      unfolding eq using act by simp
  qed
  have row2: "\<not> isAlbum img \<and> message_ids r = Some mids \<longrightarrow>
        reconcileChat e chatId st =
          sendPhotoBranch e chatId ?eff (deleteAll e chatId mids st)
        \<and> actions st (snd (reconcileChat e chatId st)) =
            map (DeleteMessage chatId) mids @ [sendPhotoRequest ?eff]"
  proof
    assume a: "\<not> isAlbum img \<and> message_ids r = Some mids"
    have eq: "reconcileChat e chatId st = sendPhotoBranch e chatId ?eff (deleteAll e chatId mids st)"
      using a by (simp add: unfold decide_def migrate_def Let_def truthyId_def split: option.splits)
    have c: "calls (deleteAll e chatId mids st) = calls st @ map (DeleteMessage chatId) mids"
      by (simp add: deleteAll_requests)
    have act: "actions st (snd (sendPhotoBranch e chatId ?eff (deleteAll e chatId mids st))) =
            map (DeleteMessage chatId) mids @ [sendPhotoRequest ?eff]"
      using sendPhotoBranch_actions [OF c, of e chatId ?eff] by (simp add: deletions_kept)
    show "reconcileChat e chatId st =
          sendPhotoBranch e chatId ?eff (deleteAll e chatId mids st)
        \<and> actions st (snd (reconcileChat e chatId st)) =
            map (DeleteMessage chatId) mids @ [sendPhotoRequest ?eff]"
      unfolding eq using act by simp
  qed
  have row3: "isAlbum img \<and> message_ids r = Some mids \<and> length mids \<noteq> length (imagesOf img)
          \<and> \<not> truthyId (message_id r) \<longrightarrow>
        reconcileChat e chatId st =
          sendAlbumBranch e chatId ?eff (deleteAll e chatId mids st)
        \<and> actions st (snd (reconcileChat e chatId st)) =
            map (DeleteMessage chatId) mids @ [sendAlbumRequest ?eff]"
  proof
    assume a: "isAlbum img \<and> message_ids r = Some mids \<and> length mids \<noteq> length (imagesOf img)
          \<and> \<not> truthyId (message_id r)"
    have eq: "reconcileChat e chatId st = sendAlbumBranch e chatId ?eff (deleteAll e chatId mids st)"
      using a by (auto simp add: unfold decide_def migrate_def Let_def truthyId_def split: option.splits)
    have c: "calls (deleteAll e chatId mids st) = calls st @ map (DeleteMessage chatId) mids"
      by (simp add: deleteAll_requests)
    have act: "actions st (snd (sendAlbumBranch e chatId ?eff (deleteAll e chatId mids st))) =
            map (DeleteMessage chatId) mids @ [sendAlbumRequest ?eff]"
      using sendAlbumBranch_actions [OF c, of e chatId ?eff] by (simp add: deletions_kept)
    show "reconcileChat e chatId st =
          sendAlbumBranch e chatId ?eff (deleteAll e chatId mids st)
        \<and> actions st (snd (reconcileChat e chatId st)) =
            map (DeleteMessage chatId) mids @ [sendAlbumRequest ?eff]"
      unfolding eq using act by simp
  qed
  have row4: "isAlbum img \<and> message_ids r = Some mids \<and> length mids = length (imagesOf img)
          \<and> \<not> truthyId (message_id r) \<longrightarrow>
        reconcileChat e chatId st =
          editAlbumBranch e chatId ?eff mids st
        \<and> actions st (snd (reconcileChat e chatId st)) =
            albumEdits ?eff mids"
  proof
    assume a: "isAlbum img \<and> message_ids r = Some mids \<and> length mids = length (imagesOf img)
          \<and> \<not> truthyId (message_id r)"
    have eq: "reconcileChat e chatId st = editAlbumBranch e chatId ?eff mids st"
      using a by (auto simp add: unfold decide_def migrate_def Let_def truthyId_def split: option.splits)
    have c: "calls (st) = calls st @ []"
      by simp
    have len: "length mids = length (imagesOf (eff_image_url ?eff))"
      using a by (simp add: images)
    have act: "actions st (snd (editAlbumBranch e chatId ?eff mids st)) =
            albumEdits ?eff mids"
      using editAlbumBranch_actions [OF len c, of e chatId] by simp
    show "reconcileChat e chatId st =
          editAlbumBranch e chatId ?eff mids st
        \<and> actions st (snd (reconcileChat e chatId st)) =
            albumEdits ?eff mids"
      unfolding eq using act by simp
  qed
  have row5: "\<not> isAlbum img \<and> message_id r = Some mid \<and> mid \<noteq> 0 \<and> message_ids r = None \<longrightarrow>
        reconcileChat e chatId st =
          editPhotoBranch e chatId ?eff mid st
        \<and> actions st (snd (reconcileChat e chatId st)) =
            editPhotoRequest ?eff mid # recovery e ?eff mid (calls st)"
  proof
    assume a: "\<not> isAlbum img \<and> message_id r = Some mid \<and> mid \<noteq> 0 \<and> message_ids r = None"
    have eq: "reconcileChat e chatId st = editPhotoBranch e chatId ?eff mid st"
      using a by (simp add: unfold decide_def migrate_def Let_def truthyId_def)
    have c: "calls (st) = calls st @ []"
      by simp
    have act: "actions st (snd (editPhotoBranch e chatId ?eff mid st)) =
            editPhotoRequest ?eff mid # recovery e ?eff mid (calls st)"
      using editPhotoBranch_actions [OF c, of e chatId ?eff] by (simp add: deletions_kept)
    show "reconcileChat e chatId st =
          editPhotoBranch e chatId ?eff mid st
        \<and> actions st (snd (reconcileChat e chatId st)) =
            editPhotoRequest ?eff mid # recovery e ?eff mid (calls st)"
      unfolding eq using act by simp
  qed
  have row6: "\<not> truthyId (message_id r) \<and> message_ids r = None \<longrightarrow>
        reconcileChat e chatId st =
          (if isAlbum img then sendAlbumBranch e chatId ?eff st
           else sendPhotoBranch e chatId ?eff st)
        \<and> actions st (snd (reconcileChat e chatId st)) =
            [if isAlbum img then sendAlbumRequest ?eff else sendPhotoRequest ?eff]"
  proof
    assume a: "\<not> truthyId (message_id r) \<and> message_ids r = None"
    have eq: "reconcileChat e chatId st = (if isAlbum img then sendAlbumBranch e chatId ?eff st
           else sendPhotoBranch e chatId ?eff st)"
      using a by (auto simp add: unfold decide_def migrate_def Let_def truthyId_def split: option.splits)
    have c: "calls st = calls st @ []" by simp
    have act: "actions st (snd (if isAlbum img then sendAlbumBranch e chatId ?eff st
           else sendPhotoBranch e chatId ?eff st)) =
            [if isAlbum img then sendAlbumRequest ?eff else sendPhotoRequest ?eff]"
      using sendAlbumBranch_actions [OF c, of e chatId ?eff] sendPhotoBranch_actions [OF c, of e chatId ?eff]
      by simp
    show "reconcileChat e chatId st =
          (if isAlbum img then sendAlbumBranch e chatId ?eff st
           else sendPhotoBranch e chatId ?eff st)
        \<and> actions st (snd (reconcileChat e chatId st)) =
            [if isAlbum img then sendAlbumRequest ?eff else sendPhotoRequest ?eff]"
      unfolding eq using act by simp
  qed
  have forced: "(isAlbum img \<and> truthyId (message_id r)) \<or> (\<not> isAlbum img \<and> message_ids r \<noteq> None)
          \<or> (isAlbum img \<and> (\<exists>ms. message_ids r = Some ms \<and> length ms \<noteq> length (imagesOf img)))
        \<longrightarrow>
        decide img (message_id r) (message_ids r) = SendNew
        \<and> reconcileChat e chatId st =
            (if isAlbum img
             then sendAlbumBranch e chatId ?eff
                    (migrate e chatId img (message_id r) (message_ids r) st)
             else sendPhotoBranch e chatId ?eff
                    (migrate e chatId img (message_id r) (message_ids r) st))
        \<and> actions st (snd (reconcileChat e chatId st)) =
            (case message_id r of
               Some m \<Rightarrow> if isAlbum img \<and> m \<noteq> 0 then [DeleteMessage chatId m] else []
             | None \<Rightarrow> [])
            @ (case message_ids r of
                 Some ms \<Rightarrow>
                   if \<not> isAlbum img \<or> length ms \<noteq> length (imagesOf img)
                   then map (DeleteMessage chatId) ms else []
               | None \<Rightarrow> [])
            @ [if isAlbum img then sendAlbumRequest ?eff else sendPhotoRequest ?eff]"
  proof
    assume "(isAlbum img \<and> truthyId (message_id r)) \<or> (\<not> isAlbum img \<and> message_ids r \<noteq> None)
          \<or> (isAlbum img \<and> (\<exists>ms. message_ids r = Some ms \<and> length ms \<noteq> length (imagesOf img)))"
    then have d: "decide img (message_id r) (message_ids r) = SendNew"
      by (rule decide_forced)
    have eq: "reconcileChat e chatId st =
            (if isAlbum img then sendAlbumBranch e chatId ?eff ?mig
             else sendPhotoBranch e chatId ?eff ?mig)"
      by (simp add: unfold d)
    let ?ds = "(case message_id r of
               Some m \<Rightarrow> if isAlbum img \<and> m \<noteq> 0 then [DeleteMessage chatId m] else []
             | None \<Rightarrow> [])
            @ (case message_ids r of
                 Some ms \<Rightarrow>
                   if \<not> isAlbum img \<or> length ms \<noteq> length (imagesOf img)
                   then map (DeleteMessage chatId) ms else []
               | None \<Rightarrow> [])"
    have c: "calls ?mig = calls st @ ?ds"
      by (simp add: migrate_requests)
    have kept: "filter (\<lambda>c. \<not> isPin c) ?ds = ?ds"
      by (simp add: deletions_kept split: option.splits)
    have act: "actions st (snd (if isAlbum img then sendAlbumBranch e chatId ?eff ?mig
             else sendPhotoBranch e chatId ?eff ?mig)) =
          ?ds @ [if isAlbum img then sendAlbumRequest ?eff else sendPhotoRequest ?eff]"
      using sendAlbumBranch_actions [OF c, of e chatId ?eff]
        sendPhotoBranch_actions [OF c, of e chatId ?eff]
      unfolding kept by simp
    show "decide img (message_id r) (message_ids r) = SendNew
        \<and> reconcileChat e chatId st =
            (if isAlbum img
             then sendAlbumBranch e chatId ?eff
                    (migrate e chatId img (message_id r) (message_ids r) st)
             else sendPhotoBranch e chatId ?eff
                    (migrate e chatId img (message_id r) (message_ids r) st))
        \<and> actions st (snd (reconcileChat e chatId st)) =
            (case message_id r of
               Some m \<Rightarrow> if isAlbum img \<and> m \<noteq> 0 then [DeleteMessage chatId m] else []
             | None \<Rightarrow> [])
            @ (case message_ids r of
                 Some ms \<Rightarrow>
                   if \<not> isAlbum img \<or> length ms \<noteq> length (imagesOf img)
                   then map (DeleteMessage chatId) ms else []
               | None \<Rightarrow> [])
            @ [if isAlbum img then sendAlbumRequest ?eff else sendPhotoRequest ?eff]"
      unfolding eq using d act by simp
  qed
  have toAlbum: "isAlbum img \<and> message_id r = Some mid \<and> mid \<noteq> 0
          \<and> ok (fst (reconcileChat e chatId st))
          \<and> r_message_ids (fst (reconcileChat e chatId st)) = Some ids \<longrightarrow>
        message_id (recordOf (snd (reconcileChat e chatId st)) chatId) = None
        \<and> message_ids (recordOf (snd (reconcileChat e chatId st)) chatId) =
            (if ids = [] \<and> message_ids r = None then None else Some ids)"
  proof
    assume a: "isAlbum img \<and> message_id r = Some mid \<and> mid \<noteq> 0
          \<and> ok (fst (reconcileChat e chatId st))
          \<and> r_message_ids (fst (reconcileChat e chatId st)) = Some ids"
    then have "isAlbum img \<and> truthyId (message_id r)" by (simp add: truthyId_def)
    with forced a have eq: "reconcileChat e chatId st = sendAlbumBranch e chatId ?eff ?mig"
      by simp
    from a have "r_message_ids (fst (reconcileChat e chatId st)) = Some ids"
      by blast
    then have ids: "r_message_ids (fst (sendAlbum e ?eff ?mig)) = Some ids"
      unfolding eq by simp
    have stored: "recordOf (snd (reconcileChat e chatId st)) chatId =
        r\<lparr> message_id := (if truthyId (message_id r) then None else message_id r),
           message_ids := (if (case message_ids r of None \<Rightarrow> [] | Some xs \<Rightarrow> xs) \<noteq> ids
                           then Some ids else message_ids r),
           image_url := (if truthyImage (eff_image_url ?eff) then Some (eff_image_url ?eff)
                          else image_url r),
           caption := (if eff_caption ?eff \<noteq> [] then Some (eff_caption ?eff) else caption r) \<rparr>"
      unfolding eq sendAlbumBranch_stored [OF ids] rec ..
    show "message_id (recordOf (snd (reconcileChat e chatId st)) chatId) = None
        \<and> message_ids (recordOf (snd (reconcileChat e chatId st)) chatId) =
            (if ids = [] \<and> message_ids r = None then None else Some ids)"
      using a by (auto simp add: stored truthyId_def split: option.splits)
  qed
  have toSingle: "\<not> isAlbum img \<and> message_ids r = Some mids
          \<and> ok (fst (reconcileChat e chatId st))
          \<and> r_message_id (fst (reconcileChat e chatId st)) = Some new \<and> new \<noteq> 0 \<longrightarrow>
        message_ids (recordOf (snd (reconcileChat e chatId st)) chatId) = None
        \<and> message_id (recordOf (snd (reconcileChat e chatId st)) chatId) = Some new"
  proof
    assume a: "\<not> isAlbum img \<and> message_ids r = Some mids
          \<and> ok (fst (reconcileChat e chatId st))
          \<and> r_message_id (fst (reconcileChat e chatId st)) = Some new \<and> new \<noteq> 0"
    then have "\<not> isAlbum img \<and> message_ids r \<noteq> None" by simp
    with forced a have eq: "reconcileChat e chatId st = sendPhotoBranch e chatId ?eff ?mig"
      by simp
    from a have "r_message_id (fst (reconcileChat e chatId st)) = Some new" and nz: "new \<noteq> 0"
      by blast+
    then have new: "r_message_id (fst (sendPhoto e ?eff ?mig)) = Some new"
      unfolding eq by simp
    have stored: "recordOf (snd (reconcileChat e chatId st)) chatId =
        r\<lparr> message_ids := None, message_id := Some new,
           image_url := (if truthyImage (eff_image_url ?eff) then Some (eff_image_url ?eff)
                          else image_url r),
           caption := (if eff_caption ?eff \<noteq> [] then Some (eff_caption ?eff) else caption r) \<rparr>"
      unfolding eq sendPhotoBranch_stored [OF new nz] rec ..
    show "message_ids (recordOf (snd (reconcileChat e chatId st)) chatId) = None
        \<and> message_id (recordOf (snd (reconcileChat e chatId st)) chatId) = Some new"
      by (simp add: stored)
  qed
  from row1 row2 row3 row4 row5 row6 forced toAlbum toSingle show ?thesis
    by (intro conjI)
qed

theorem decision_table_witness:
  "calls (snd (reconcileChat
        \<lparr> message_api = (\<lambda>cs. Thrown), group_api = (\<lambda>cs. Ok [20, 21]), plain_api = (\<lambda>cs. Ok ()),
          http_api = (\<lambda>cs. HttpThrown), url_parses = (\<lambda>u. True) \<rparr>
        ''-100222''
        \<lparr> messageMap = [(''-100222'', emptyRecord\<lparr> image_url := Some (Album [''u1.png'', ''u2.png'']),
                                                  message_id := Some 7 \<rparr>)],
          mapDirty = False, calls = [] \<rparr>))
     = [DeleteMessage ''-100222'' 7,
        SendMediaGroup ''-100222'' [(''u1.png'', Some DEFAULT_CAPTION), (''u2.png'', None)] None,
        PinChatMessage ''-100222'' (Some 20)]
   \<and> actions
        \<lparr> messageMap = [(''-100222'', emptyRecord\<lparr> image_url := Some (Album [''u1.png'', ''u2.png'']),
                                                  message_id := Some 7 \<rparr>)],
          mapDirty = False, calls = [] \<rparr>
        (snd (reconcileChat
        \<lparr> message_api = (\<lambda>cs. Thrown), group_api = (\<lambda>cs. Ok [20, 21]), plain_api = (\<lambda>cs. Ok ()),
          http_api = (\<lambda>cs. HttpThrown), url_parses = (\<lambda>u. True) \<rparr>
        ''-100222''
        \<lparr> messageMap = [(''-100222'', emptyRecord\<lparr> image_url := Some (Album [''u1.png'', ''u2.png'']),
                                                  message_id := Some 7 \<rparr>)],
          mapDirty = False, calls = [] \<rparr>))
     = [DeleteMessage ''-100222'' 7,
        SendMediaGroup ''-100222'' [(''u1.png'', Some DEFAULT_CAPTION), (''u2.png'', None)] None]
   \<and> message_id (recordOf (snd (reconcileChat
        \<lparr> message_api = (\<lambda>cs. Thrown), group_api = (\<lambda>cs. Ok [20, 21]), plain_api = (\<lambda>cs. Ok ()),
          http_api = (\<lambda>cs. HttpThrown), url_parses = (\<lambda>u. True) \<rparr>
        ''-100222''
        \<lparr> messageMap = [(''-100222'', emptyRecord\<lparr> image_url := Some (Album [''u1.png'', ''u2.png'']),
                                                  message_id := Some 7 \<rparr>)],
          mapDirty = False, calls = [] \<rparr>)) ''-100222'') = None
   \<and> message_ids (recordOf (snd (reconcileChat
        \<lparr> message_api = (\<lambda>cs. Thrown), group_api = (\<lambda>cs. Ok [20, 21]), plain_api = (\<lambda>cs. Ok ()),
          http_api = (\<lambda>cs. HttpThrown), url_parses = (\<lambda>u. True) \<rparr>
        ''-100222''
        \<lparr> messageMap = [(''-100222'', emptyRecord\<lparr> image_url := Some (Album [''u1.png'', ''u2.png'']),
                                                  message_id := Some 7 \<rparr>)],
          mapDirty = False, calls = [] \<rparr>)) ''-100222'') = Some [20, 21]"
proof -
  let ?e = "\<lparr> message_api = (\<lambda>cs. Thrown), group_api = (\<lambda>cs. Ok [20, 21]), plain_api = (\<lambda>cs. Ok ()),
          http_api = (\<lambda>cs. HttpThrown), url_parses = (\<lambda>u. True) \<rparr>"
  let ?img = "Album [''u1.png'', ''u2.png'']"
  let ?r = "emptyRecord\<lparr> image_url := Some ?img, message_id := Some 7 \<rparr>"
  let ?st = "\<lparr> messageMap = [(''-100222'', ?r)], mapDirty = False, calls = [] \<rparr>"
  let ?eff = "effectiveOf ''-100222'' ?r ?img"
  have h1: "getChat ?st ''-100222'' = Some ?r" by (simp add: getChat_def)
  have h2: "image_url ?r = Some ?img" by simp
  have h3: "truthyImage ?img" by (simp add: truthyImage_def)
  have h4: "''-100222'' \<noteq> []" by simp
  note t = decision_table [OF h1 h2 h3 h4, where mid = 7 and e = ?e and ids = "[20, 21]"]
  have album: "isAlbum ?img" by (simp add: isAlbum_def)
  have stored: "message_id ?r = Some 7" "message_ids ?r = None" by (simp_all add: emptyRecord_def)
  have first: "isAlbum ?img \<and> message_id ?r = Some 7 \<and> (7::int) \<noteq> 0 \<and> message_ids ?r = None"
    using album stored by simp
  note row = t [THEN conjunct1, THEN mp, OF first]
  have eq: "reconcileChat ?e ''-100222'' ?st
              = sendAlbumBranch ?e ''-100222'' ?eff (snd (deleteMessage ?e ''-100222'' 7 ?st))"
    by (rule row [THEN conjunct1])
  have sent: "sendAlbum ?e ?eff (request (DeleteMessage ''-100222'' 7) ?st)
      = ((res True)\<lparr> r_message_ids := Some [20, 21] \<rparr>,
         \<lparr> messageMap = [(''-100222'', ?r)], mapDirty = False,
           calls = [DeleteMessage ''-100222'' 7,
             SendMediaGroup ''-100222'' [(''u1.png'', Some DEFAULT_CAPTION), (''u2.png'', None)] None,
             PinChatMessage ''-100222'' (Some 20)] \<rparr>)"
    by (simp add: sendAlbum_def sendMediaGroup_def imagesOf_def request_def truthyId_def
        emptyRecord_def effectiveOf_def Let_def)
  have okr: "ok (fst (reconcileChat ?e ''-100222'' ?st))"
    and ids: "r_message_ids (fst (reconcileChat ?e ''-100222'' ?st)) = Some [20, 21]"
    by (simp_all add: eq sent res_def)
  have log: "calls (snd (reconcileChat ?e ''-100222'' ?st))
     = [DeleteMessage ''-100222'' 7,
        SendMediaGroup ''-100222'' [(''u1.png'', Some DEFAULT_CAPTION), (''u2.png'', None)] None,
        PinChatMessage ''-100222'' (Some 20)]"
    by (simp add: eq calls_sendAlbumBranch sent)
  note post = t [THEN conjunct2, THEN conjunct2, THEN conjunct2, THEN conjunct2, THEN conjunct2,
      THEN conjunct2, THEN conjunct2, THEN conjunct1]
  have "message_id (recordOf (snd (reconcileChat ?e ''-100222'' ?st)) ''-100222'') = None
        \<and> message_ids (recordOf (snd (reconcileChat ?e ''-100222'' ?st)) ''-100222'') = Some [20, 21]"
    using post album stored(1) okr ids by simp
  moreover have "actions ?st (snd (reconcileChat ?e ''-100222'' ?st))
     = [DeleteMessage ''-100222'' 7,
        SendMediaGroup ''-100222'' [(''u1.png'', Some DEFAULT_CAPTION), (''u2.png'', None)] None]"
    unfolding row [THEN conjunct2]
    by (simp add: sendAlbumRequest_def effectiveOf_def imagesOf_def emptyRecord_def truthyId_def)
  ultimately show ?thesis using log by simp
qed

section \<open>Commands\<close>

lemma messageMap_verifyRemotePng [simp]:
  "messageMap (snd (verifyRemotePng e url st)) = messageMap st"
  by (simp add: verifyRemotePng_def Let_def split: http_response.splits)

lemma mapDirty_verifyRemotePng [simp]:
  "mapDirty (snd (verifyRemotePng e url st)) = mapDirty st"
  by (simp add: verifyRemotePng_def Let_def split: http_response.splits)

lemma recordOf_verifyRemotePng [simp]:
  "recordOf (snd (verifyRemotePng e url st)) k = recordOf st k"
  by (rule recordOf_same_map) simp

lemma getChat_verifyRemotePng [simp]:
  "getChat (snd (verifyRemotePng e url st)) k = getChat st k"
  by (rule getChat_same_map) simp

lemma deleteCommand_request:
  "deleteCommand e k msg st =
     (case msg_message_id msg of
        Some mid \<Rightarrow> if mid \<noteq> 0 then request (DeleteMessage k mid) st else st
      | None \<Rightarrow> st)"
  by (simp add: deleteCommand_def split: option.splits)

lemma recordOf_deleteCommand [simp]: "recordOf (deleteCommand e k msg st) k' = recordOf st k'"
  by (simp add: deleteCommand_request split: option.splits)

lemma getChat_deleteCommand [simp]: "getChat (deleteCommand e k msg st) k' = getChat st k'"
  by (simp add: deleteCommand_request split: option.splits)

lemma mapDirty_deleteCommand [simp]: "mapDirty (deleteCommand e k msg st) = mapDirty st"
  by (simp add: deleteCommand_request split: option.splits)

lemma calls_deleteCommand:
  "\<exists>rest. calls (deleteCommand e k msg st) = calls st @ rest"
  by (simp add: deleteCommand_request split: option.splits)

lemma recordOf_ensureChat [simp]: "recordOf (ensureChat k st) k' = recordOf st k'"
  by (simp add: recordOf_def getChat_ensureChat split: option.splits)

lemma recordOf_modifyChat:
  "recordOf (modifyChat k f (ensureChat k st)) k' =
     (if k' = k then f (recordOf st k) else recordOf st k')"
  by (simp add: recordOf_def [of "modifyChat k f (ensureChat k st)"] getChat_modifyChat
      getChat_ensureChat) (simp add: recordOf_def)

text \<open>White space, for the evaluation of the matchers on a text.\<close>

declare spaces.simps [simp del]

lemma spaceLen_Nil: "spaceLen [] = 0"
  by (simp add: spaceLen_def whiteSpace_def)

lemma spaceLen_plain:
  assumes "CHR 0x20 < c" and "c < CHR 0xC2"
  shows "spaceLen (c # cs) = 0"
proof -
  have "c \<noteq> d" if "d \<le> CHR 0x20 \<or> CHR 0xC2 \<le> d" for d
    using that assms by auto
  then have "c \<notin> set (map hd whiteSpace)"
    by (auto simp add: whiteSpace_def less_eq_char_def)
  then have "find (startsWith (c # cs)) whiteSpace = None"
    by (simp add: whiteSpace_def)
  then show ?thesis by (simp add: spaceLen_def)
qed

lemma spaceLen_space: "spaceLen (CHR 0x20 # cs) = 1"
  by (simp add: spaceLen_def whiteSpace_def)

lemma spaceLen_nbsp: "spaceLen (CHR 0xC2 # CHR 0xA0 # cs) = 2"
  by (simp add: spaceLen_def whiteSpace_def)


lemma spaces_Nil: "spaces [] = []"
  by (simp add: spaces.simps spaceLen_Nil)

lemma spaces_plain: "CHR 0x20 < c \<Longrightarrow> c < CHR 0xC2 \<Longrightarrow> spaces (c # cs) = []"
  by (simp add: spaces.simps spaceLen_plain)

lemma spaces_space: "spaces (CHR 0x20 # cs) = [CHR 0x20] # spaces cs"
  by (simp add: spaces.simps [of "CHR 0x20 # cs"] spaceLen_space)

lemma spaces_nbsp: "spaces (CHR 0xC2 # CHR 0xA0 # cs) = [CHR 0xC2, CHR 0xA0] # spaces cs"
  by (simp add: spaces.simps [of "CHR 0xC2 # CHR 0xA0 # cs"] spaceLen_nbsp)

lemma dropSpaces_Nil [simp]: "dropSpaces [] = []"
  by (simp add: dropSpaces_def)

lemma dropSpaces_plain: "CHR 0x20 < c \<Longrightarrow> c < CHR 0xC2 \<Longrightarrow> dropSpaces (c # cs) = c # cs"
  by (simp add: dropSpaces_def spaces_plain)

lemma dropSpaces_space: "dropSpaces (CHR 0x20 # cs) = dropSpaces cs"
  by (simp add: dropSpaces_def spaces_space)

lemma dropSpaces_nbsp: "dropSpaces (CHR 0xC2 # CHR 0xA0 # cs) = dropSpaces cs"
  by (simp add: dropSpaces_def spaces_nbsp)

lemma nonSpaces_plain:
  "CHR 0x20 < c \<Longrightarrow> c < CHR 0xC2 \<Longrightarrow> nonSpaces (c # cs) = c # nonSpaces cs"
  by (simp add: spaceLen_plain)

lemma nonSpaces_space: "nonSpaces (CHR 0x20 # cs) = []"
  by (simp add: spaceLen_space)

lemma nonSpaces_nbsp: "nonSpaces (CHR 0xC2 # CHR 0xA0 # cs) = []"
  by (simp add: spaceLen_nbsp)

declare nonSpaces.simps(2) [simp del]

lemmas white = spaces_Nil spaces_plain spaces_space spaces_nbsp dropSpaces_plain dropSpaces_space
  dropSpaces_nbsp nonSpaces_plain nonSpaces_space nonSpaces_nbsp less_char_def

lemma matchCaption_Nil [simp]: "matchCaption [] = None"
  by (simp add: matchCaption_def commandMatch_def toLowerCase_def)

lemma matchImage_Nil [simp]: "matchImage [] = None"
  by (simp add: matchImage_def commandMatch_def toLowerCase_def)

lemma processCommandUpdate_caption:
  assumes "(case upd_message u of Some m \<Rightarrow> Some m | None \<Rightarrow> channel_post u) = Some msg"
    and "msg_chat msg = Some chat"
    and "matchCaption (strOr (msg_text msg) (strOr (msg_caption msg) [])) = Some raw"
  shows "processCommandUpdate e u acc = captionCommand e (String_of_int (chat_id chat)) msg raw acc"
proof -
  have "strOr (msg_text msg) (strOr (msg_caption msg) []) \<noteq> []"
    using assms(3) by auto
  then show ?thesis
    using assms by (simp add: processCommandUpdate_def Let_def)
qed

lemma processCommandUpdate_image:
  assumes "(case upd_message u of Some m \<Rightarrow> Some m | None \<Rightarrow> channel_post u) = Some msg"
    and "msg_chat msg = Some chat"
    and "matchCaption (strOr (msg_text msg) (strOr (msg_caption msg) [])) = None"
    and "matchImage (strOr (msg_text msg) (strOr (msg_caption msg) [])) = Some url"
  shows "processCommandUpdate e u acc = imageCommand e (String_of_int (chat_id chat)) msg url acc"
proof -
  have "strOr (msg_text msg) (strOr (msg_caption msg) []) \<noteq> []"
    using assms(4) by auto
  then show ?thesis
    using assms by (simp add: processCommandUpdate_def Let_def)
qed


lemma calls_deleteCommand_eq:
  "calls (deleteCommand e k msg st) = calls st @ commandDeletion k msg"
  by (simp add: deleteCommand_request commandDeletion_def split: option.splits)

lemma getChat_captionCommand_default:
  assumes "toLowerCase (trim raw) = ''-default''"
  shows "getChat (snd (captionCommand e k msg raw (h, st))) k' =
           (if k' = k then Some ((recordOf st k)\<lparr> caption := None \<rparr>) else getChat st k')"
proof -
  have f: "fieldOf (ensureChat k st) k caption = caption (recordOf st k)"
    by (rule fieldOf_ensured)
  have same: "caption (recordOf st k) = None \<Longrightarrow> (recordOf st k)\<lparr> caption := None \<rparr> = recordOf st k"
    by (cases "recordOf st k") simp
  show ?thesis
    using assms same
    by (simp add: captionCommand_def Let_def f getChat_modifyChat getChat_ensureChat recordOf_def
        split: option.splits)
qed

lemma captionCommand_default:
  assumes "toLowerCase (trim raw) = ''-default''"
  shows "mapDirty (snd (captionCommand e k msg raw (h, st))) =
           (mapDirty st \<or> caption (recordOf st k) \<noteq> None)"
    and "calls (snd (captionCommand e k msg raw (h, st))) =
           calls st @ SendMessage k CaptionReset # commandDeletion k msg"
    and "fst (captionCommand e k msg raw (h, st)) = h @ [k]"
proof -
  have f: "fieldOf (ensureChat k st) k caption = caption (recordOf st k)"
    by (rule fieldOf_ensured)
  show "mapDirty (snd (captionCommand e k msg raw (h, st))) =
           (mapDirty st \<or> caption (recordOf st k) \<noteq> None)"
    using assms by (simp add: captionCommand_def Let_def f)
  show "calls (snd (captionCommand e k msg raw (h, st))) =
           calls st @ SendMessage k CaptionReset # commandDeletion k msg"
    using assms
    by (simp add: captionCommand_def Let_def f calls_deleteCommand_eq)
  show "fst (captionCommand e k msg raw (h, st)) = h @ [k]"
    using assms by (simp add: captionCommand_def Let_def)
qed

lemma captionCommand_empty:
  assumes "trim raw = []"
  shows "captionCommand e k msg raw (h, st) =
           (h @ [k], request (SendMessage k CaptionEmpty) (ensureChat k st))"
  using assms by (simp add: captionCommand_def Let_def toLowerCase_def)

lemma captionCommand_store:
  assumes "toLowerCase (trim raw) \<noteq> ''-default''" and "trim raw \<noteq> []"
  shows "getChat (snd (captionCommand e k msg raw (h, st))) k' =
           (if k' = k then Some ((recordOf st k)\<lparr> caption := Some (trim raw) \<rparr>) else getChat st k')"
    and "mapDirty (snd (captionCommand e k msg raw (h, st)))"
    and "calls (snd (captionCommand e k msg raw (h, st))) =
           calls st @ SendMessage k CaptionSaved # commandDeletion k msg"
    and "fst (captionCommand e k msg raw (h, st)) = h @ [k]"
  using assms
  by (simp_all add: captionCommand_def Let_def getChat_modifyChat getChat_ensureChat recordOf_def
      calls_deleteCommand_eq split: option.splits)

lemma verifyRemotePng_run:
  assumes "endsWith (toLowerCase url) ''.png''"
  shows "verifyRemotePng e url st =
           (fetched e url (calls st), st\<lparr> calls := calls st @ fetches e url (calls st) \<rparr>)"
  using assms
  by (simp add: verifyRemotePng_def pngReply_def fetches_def fetched_def request_def Let_def
      split: http_response.splits)

lemma imageCommand_invalid:
  "\<not> isValidOutageImageUrl e url \<Longrightarrow>
     imageCommand e k msg url (h, st) = (h @ [k], request (SendMessage k ImageUsage) st)"
  by (simp add: imageCommand_def)

lemma recordOf_modifyChat_eq:
  "recordOf (modifyChat k f s) k = (case getChat s k of Some r \<Rightarrow> f r | None \<Rightarrow> emptyRecord)"
  by (simp add: recordOf_def getChat_modifyChat split: option.splits)

lemma getChat_ensured: "getChat (ensureChat k st) k = Some (recordOf st k)"
  by (simp add: getChat_ensureChat recordOf_def)

lemma deleteMessage_fst:
  "fst (deleteMessage e k m s) =
     (case plain_api e (calls s @ [DeleteMessage k m]) of
        Ok u \<Rightarrow> True
      | Failed c d \<Rightarrow> c = Some 400 \<and> describesLower d ''message to delete not found''
      | Thrown \<Rightarrow> False)"
  by (simp add: deleteMessage_def Let_def split: response.splits)

lemma imageCommand_unverified:
  assumes "isValidOutageImageUrl e url" and "\<not> fetched e url (calls st)"
    and "log = calls st @ fetches e url (calls st)"
  shows "imageCommand e k msg url (h, st) =
           (h @ [k], st\<lparr> calls := log @ [SendMessage k ImageUnverified] \<rparr>)"
proof -
  have png: "endsWith (toLowerCase url) ''.png''"
    using assms(1) by (simp add: isValidOutageImageUrl_def split: if_splits)
  have ver: "verifyRemotePng e url st = (False, st\<lparr> calls := log \<rparr>)"
    using verifyRemotePng_run [OF png, of e st] assms(2,3) by simp
  show ?thesis
    using assms(1) by (simp add: imageCommand_def ver request_def)
qed

lemma imageCommand_saved:
  assumes "isValidOutageImageUrl e url" and "fetched e url (calls st)"
    and "log = calls st @ fetches e url (calls st)"
  shows "recordOf (snd (imageCommand e k msg url (h, st))) k =
           (recordOf st k)
             \<lparr> image_url := Some (Single url),
               welcome_message_id :=
                 (case welcome_message_id (recordOf st k) of
                    Some wid \<Rightarrow>
                      if wid \<noteq> 0
                         \<and> (case plain_api e (log @ [DeleteMessage k wid]) of
                               Ok u \<Rightarrow> True
                             | Failed c d \<Rightarrow>
                                 c = Some 400 \<and> describesLower d ''message to delete not found''
                             | Thrown \<Rightarrow> False)
                      then None else Some wid
                  | None \<Rightarrow> None) \<rparr>"
    and "mapDirty (snd (imageCommand e k msg url (h, st)))"
    and "calls (snd (imageCommand e k msg url (h, st))) =
           log
           @ (case welcome_message_id (recordOf st k) of
                Some wid \<Rightarrow> if wid \<noteq> 0 then [DeleteMessage k wid] else []
              | None \<Rightarrow> [])
           @ [SendMessage k ImageSaved] @ commandDeletion k msg"
proof -
  have png: "endsWith (toLowerCase url) ''.png''"
    using assms(1) by (simp add: isValidOutageImageUrl_def split: if_splits)
  let ?st1 = "st\<lparr> calls := log \<rparr>"
  have ver: "verifyRemotePng e url st = (True, ?st1)"
    using verifyRemotePng_run [OF png, of e st] assms(2,3) by simp
  let ?st2 = "modifyChat k (\<lambda>r. r\<lparr> image_url := Some (Single url) \<rparr>) (ensureChat k ?st1)"
  let ?st3 = "?st2\<lparr> mapDirty := True \<rparr>"
  have rec1: "recordOf ?st1 k = recordOf st k"
    by (rule recordOf_same_map) simp
  have g1: "getChat (ensureChat k ?st1) k = Some (recordOf st k)"
    by (simp add: getChat_ensured rec1)
  have g3: "getChat ?st2 k = Some ((recordOf st k)\<lparr> image_url := Some (Single url) \<rparr>)"
    by (simp add: getChat_modifyChat g1)
  have w3: "fieldOf ?st3 k welcome_message_id = welcome_message_id (recordOf st k)"
    by (simp add: fieldOf_def g3)
  have c3: "calls ?st3 = log" by simp
  have same: "welcome_message_id (recordOf st k) = w \<Longrightarrow>
              (recordOf st k)\<lparr> image_url := Some (Single url), welcome_message_id := w \<rparr>
                = (recordOf st k)\<lparr> image_url := Some (Single url) \<rparr>" for w
    by (cases "recordOf st k") simp
  show "recordOf (snd (imageCommand e k msg url (h, st))) k =
           (recordOf st k)
             \<lparr> image_url := Some (Single url),
               welcome_message_id :=
                 (case welcome_message_id (recordOf st k) of
                    Some wid \<Rightarrow>
                      if wid \<noteq> 0
                         \<and> (case plain_api e (log @ [DeleteMessage k wid]) of
                               Ok u \<Rightarrow> True
                             | Failed c d \<Rightarrow>
                                 c = Some 400 \<and> describesLower d ''message to delete not found''
                             | Thrown \<Rightarrow> False)
                      then None else Some wid
                  | None \<Rightarrow> None) \<rparr>"
    using assms(1)
    by (auto simp add: imageCommand_def ver split_beta Let_def w3 deleteMessage_fst
        recordOf_modifyChat_eq getChat_modifyChat g1 g3 same split: option.splits)
  show "mapDirty (snd (imageCommand e k msg url (h, st)))"
    using assms(1)
    by (auto simp add: imageCommand_def ver split_beta Let_def split: option.splits)
  show "calls (snd (imageCommand e k msg url (h, st))) =
           log
           @ (case welcome_message_id (recordOf st k) of
                Some wid \<Rightarrow> if wid \<noteq> 0 then [DeleteMessage k wid] else []
              | None \<Rightarrow> [])
           @ [SendMessage k ImageSaved] @ commandDeletion k msg"
    using assms(1)
    by (auto simp add: imageCommand_def ver split_beta Let_def w3 calls_deleteCommand_eq
        split: option.splits)
qed


text \<open>
  Claim C5, as amended. A caption command first gives the chat an empty record if it had none,
  without marking the map dirty. Then: the argument \<open>-default\<close>, in any case of letters,
  removes the stored caption and marks the map dirty exactly when there was one; an argument
  that is empty after trimming sends the error reply and changes neither the dirty flag nor
  any record that existed; any other argument stores the trimmed text as the caption and marks
  the map dirty. No other chat is touched, and the requests are the reply and the deletion of
  the command message.
\<close>

theorem caption_command:
  assumes "(case upd_message u of Some m \<Rightarrow> Some m | None \<Rightarrow> channel_post u) = Some msg"
    and "msg_chat msg = Some chat"
    and "matchCaption (strOr (msg_text msg) (strOr (msg_caption msg) [])) = Some raw"
    and "chatId = String_of_int (chat_id chat)" and "arg = trim raw"
    and "st' = snd (processCommandUpdate e u (handled, st))"
  shows
    "(toLowerCase arg = ''-default'' \<longrightarrow>
        getChat st' chatId = Some ((recordOf st chatId)\<lparr> caption := None \<rparr>)
        \<and> (getChat st chatId = None \<longrightarrow> getChat st' chatId = Some emptyRecord)
        \<and> (\<forall>k. k \<noteq> chatId \<longrightarrow> getChat st' k = getChat st k)
        \<and> mapDirty st' = (mapDirty st \<or> caption (recordOf st chatId) \<noteq> None)
        \<and> calls st' = calls st @ SendMessage chatId CaptionReset # commandDeletion chatId msg)
     \<and> (arg = [] \<longrightarrow>
        st' = (ensureChat chatId st)\<lparr> calls := calls st @ [SendMessage chatId CaptionEmpty] \<rparr>
        \<and> mapDirty st' = mapDirty st
        \<and> (\<forall>k r. getChat st k = Some r \<longrightarrow> getChat st' k = Some r)
        \<and> (getChat st chatId = None \<longrightarrow> getChat st' chatId = Some emptyRecord))
     \<and> (toLowerCase arg \<noteq> ''-default'' \<and> arg \<noteq> [] \<longrightarrow>
        getChat st' chatId = Some ((recordOf st chatId)\<lparr> caption := Some arg \<rparr>)
        \<and> (\<forall>k. k \<noteq> chatId \<longrightarrow> getChat st' k = getChat st k)
        \<and> mapDirty st'
        \<and> calls st' = calls st @ SendMessage chatId CaptionSaved # commandDeletion chatId msg)"
proof -
  have run: "st' = snd (captionCommand e chatId msg raw (handled, st))"
    using processCommandUpdate_caption [OF assms(1-3), of e "(handled, st)"] assms(4,6) by simp
  have reset: "toLowerCase arg = ''-default'' \<longrightarrow>
        getChat st' chatId = Some ((recordOf st chatId)\<lparr> caption := None \<rparr>)
        \<and> (getChat st chatId = None \<longrightarrow> getChat st' chatId = Some emptyRecord)
        \<and> (\<forall>k. k \<noteq> chatId \<longrightarrow> getChat st' k = getChat st k)
        \<and> mapDirty st' = (mapDirty st \<or> caption (recordOf st chatId) \<noteq> None)
        \<and> calls st' = calls st @ SendMessage chatId CaptionReset # commandDeletion chatId msg"
  proof
    assume "toLowerCase arg = ''-default''"
    then have d: "toLowerCase (trim raw) = ''-default''"
      using assms(5) by simp
    have g: "getChat st' k =
        (if k = chatId then Some ((recordOf st chatId)\<lparr> caption := None \<rparr>) else getChat st k)" for k
      unfolding run by (rule getChat_captionCommand_default [OF d])
    have e0: "emptyRecord\<lparr> caption := None \<rparr> = emptyRecord"
      by (simp add: emptyRecord_def)
    show "getChat st' chatId = Some ((recordOf st chatId)\<lparr> caption := None \<rparr>)
        \<and> (getChat st chatId = None \<longrightarrow> getChat st' chatId = Some emptyRecord)
        \<and> (\<forall>k. k \<noteq> chatId \<longrightarrow> getChat st' k = getChat st k)
        \<and> mapDirty st' = (mapDirty st \<or> caption (recordOf st chatId) \<noteq> None)
        \<and> calls st' = calls st @ SendMessage chatId CaptionReset # commandDeletion chatId msg"
    proof (intro conjI allI impI)
      show "getChat st' chatId = Some ((recordOf st chatId)\<lparr> caption := None \<rparr>)"
        by (simp add: g)
      show "getChat st' chatId = Some emptyRecord" if "getChat st chatId = None"
        using that by (simp add: g recordOf_def e0)
      show "getChat st' k = getChat st k" if "k \<noteq> chatId" for k
        using that by (simp add: g)
      show "mapDirty st' = (mapDirty st \<or> caption (recordOf st chatId) \<noteq> None)"
        unfolding run by (rule captionCommand_default(1) [OF d])
      show "calls st' = calls st @ SendMessage chatId CaptionReset # commandDeletion chatId msg"
        unfolding run by (rule captionCommand_default(2) [OF d])
    qed
  qed
  have empty: "arg = [] \<longrightarrow>
        st' = (ensureChat chatId st)\<lparr> calls := calls st @ [SendMessage chatId CaptionEmpty] \<rparr>
        \<and> mapDirty st' = mapDirty st
        \<and> (\<forall>k r. getChat st k = Some r \<longrightarrow> getChat st' k = Some r)
        \<and> (getChat st chatId = None \<longrightarrow> getChat st' chatId = Some emptyRecord)"
  proof
    assume "arg = []"
    then have e: "st' = request (SendMessage chatId CaptionEmpty) (ensureChat chatId st)"
      using assms(5) by (simp add: run captionCommand_empty)
    show "st' = (ensureChat chatId st)\<lparr> calls := calls st @ [SendMessage chatId CaptionEmpty] \<rparr>
        \<and> mapDirty st' = mapDirty st
        \<and> (\<forall>k r. getChat st k = Some r \<longrightarrow> getChat st' k = Some r)
        \<and> (getChat st chatId = None \<longrightarrow> getChat st' chatId = Some emptyRecord)"
    proof (intro conjI allI impI)
      show "st' = (ensureChat chatId st)\<lparr> calls := calls st @ [SendMessage chatId CaptionEmpty] \<rparr>"
        by (simp add: e request_def)
      show "mapDirty st' = mapDirty st" by (simp add: e)
      show "getChat st' k = Some r" if "getChat st k = Some r" for k r
        using that by (auto simp add: e getChat_ensureChat)
      show "getChat st' chatId = Some emptyRecord" if "getChat st chatId = None"
        using that by (simp add: e getChat_ensureChat)
    qed
  qed
  have store: "toLowerCase arg \<noteq> ''-default'' \<and> arg \<noteq> [] \<longrightarrow>
        getChat st' chatId = Some ((recordOf st chatId)\<lparr> caption := Some arg \<rparr>)
        \<and> (\<forall>k. k \<noteq> chatId \<longrightarrow> getChat st' k = getChat st k)
        \<and> mapDirty st'
        \<and> calls st' = calls st @ SendMessage chatId CaptionSaved # commandDeletion chatId msg"
  proof
    assume "toLowerCase arg \<noteq> ''-default'' \<and> arg \<noteq> []"
    then have d: "toLowerCase (trim raw) \<noteq> ''-default''" and n: "trim raw \<noteq> []"
      using assms(5) by simp_all
    have g: "getChat st' k =
        (if k = chatId then Some ((recordOf st chatId)\<lparr> caption := Some arg \<rparr>) else getChat st k)" for k
      unfolding run assms(5) by (rule captionCommand_store(1) [OF d n])
    show "getChat st' chatId = Some ((recordOf st chatId)\<lparr> caption := Some arg \<rparr>)
        \<and> (\<forall>k. k \<noteq> chatId \<longrightarrow> getChat st' k = getChat st k)
        \<and> mapDirty st'
        \<and> calls st' = calls st @ SendMessage chatId CaptionSaved # commandDeletion chatId msg"
    proof (intro conjI allI impI)
      show "getChat st' chatId = Some ((recordOf st chatId)\<lparr> caption := Some arg \<rparr>)"
        by (simp add: g)
      show "getChat st' k = getChat st k" if "k \<noteq> chatId" for k
        using that by (simp add: g)
      show "mapDirty st'"
        unfolding run by (rule captionCommand_store(2) [OF d n])
      show "calls st' = calls st @ SendMessage chatId CaptionSaved # commandDeletion chatId msg"
        unfolding run by (rule captionCommand_store(3) [OF d n])
    qed
  qed
  from reset empty store show ?thesis by (intro conjI)
qed

theorem caption_command_witness:
  "getChat (snd (processCommandUpdate
        \<lparr> message_api = (\<lambda>cs. Ok (Some 1)), group_api = (\<lambda>cs. Thrown), plain_api = (\<lambda>cs. Ok ()),
          http_api = (\<lambda>cs. HttpThrown), url_parses = (\<lambda>u. True) \<rparr>
        \<lparr> my_chat_member = None, upd_message = None,
          channel_post = Some \<lparr> msg_chat = Some \<lparr> chat_id = -100111, chat_type = ''channel'' \<rparr>,
                                 msg_text = Some (''/graphenko_caption '' @ [CHR 0xC2, CHR 0xA0]
                                                   @ ''-DEFAULT'' @ [CHR 0xC2, CHR 0xA0]),
                                 msg_caption = None, msg_message_id = Some 15 \<rparr> \<rparr>
        ([], \<lparr> messageMap = [(''-100111'', emptyRecord\<lparr> caption := Some ''Old'' \<rparr>)],
               mapDirty = False, calls = [] \<rparr>))) ''-100111'' = Some emptyRecord
   \<and> mapDirty (snd (processCommandUpdate
        \<lparr> message_api = (\<lambda>cs. Ok (Some 1)), group_api = (\<lambda>cs. Thrown), plain_api = (\<lambda>cs. Ok ()),
          http_api = (\<lambda>cs. HttpThrown), url_parses = (\<lambda>u. True) \<rparr>
        \<lparr> my_chat_member = None, upd_message = None,
          channel_post = Some \<lparr> msg_chat = Some \<lparr> chat_id = -100111, chat_type = ''channel'' \<rparr>,
                                 msg_text = Some (''/graphenko_caption '' @ [CHR 0xC2, CHR 0xA0]
                                                   @ ''-DEFAULT'' @ [CHR 0xC2, CHR 0xA0]),
                                 msg_caption = None, msg_message_id = Some 15 \<rparr> \<rparr>
        ([], \<lparr> messageMap = [(''-100111'', emptyRecord\<lparr> caption := Some ''Old'' \<rparr>)],
               mapDirty = False, calls = [] \<rparr>)))"
proof -
  let ?e = "\<lparr> message_api = (\<lambda>cs. Ok (Some 1)), group_api = (\<lambda>cs. Thrown), plain_api = (\<lambda>cs. Ok ()),
          http_api = (\<lambda>cs. HttpThrown), url_parses = (\<lambda>u. True) \<rparr>"
  let ?chat = "\<lparr> chat_id = -100111, chat_type = ''channel'' \<rparr>"
  let ?msg = "\<lparr> msg_chat = Some ?chat,
               msg_text = Some (''/graphenko_caption '' @ [CHR 0xC2, CHR 0xA0]
                                 @ ''-DEFAULT'' @ [CHR 0xC2, CHR 0xA0]),
               msg_caption = None, msg_message_id = Some 15 \<rparr>"
  let ?u = "\<lparr> my_chat_member = None, upd_message = None, channel_post = Some ?msg \<rparr>"
  let ?st = "\<lparr> messageMap = [(''-100111'', emptyRecord\<lparr> caption := Some ''Old'' \<rparr>)],
               mapDirty = False, calls = [] \<rparr>"
  let ?raw = "''-DEFAULT'' @ [CHR 0xC2, CHR 0xA0]"
  have h1: "(case upd_message ?u of Some m \<Rightarrow> Some m | None \<Rightarrow> channel_post ?u) = Some ?msg"
    by simp
  have h2: "msg_chat ?msg = Some ?chat" by simp
  have h3: "matchCaption (strOr (msg_text ?msg) (strOr (msg_caption ?msg) [])) = Some ?raw"
    by (simp add: strOr_def matchCaption_def commandMatch_def captionTail_def toLowerCase_def
        lowerChar_def white)
  have h4: "''-100111'' = String_of_int (chat_id ?chat)"
    by (simp add: String_of_int_def digitChar_def)
  have h5: "''-DEFAULT'' = trim ?raw"
    by (simp add: trim_def white)
  have low: "toLowerCase ''-DEFAULT'' = ''-default''"
    by (simp add: toLowerCase_def lowerChar_def)
  have old: "recordOf ?st ''-100111'' = emptyRecord\<lparr> caption := Some ''Old'' \<rparr>"
    by (simp add: recordOf_def getChat_def)
  have e0: "emptyRecord\<lparr> caption := None \<rparr> = emptyRecord"
    by (simp add: emptyRecord_def)
  show ?thesis
    using caption_command [OF h1 h2 h3 h4 h5 refl, of ?e "[]" ?st, THEN conjunct1] low
    by (simp add: old e0)
qed

text \<open>
  The claim as first stated says that an empty argument leaves the map as it was. The command
  \<open>/graphenko_caption\<close> followed by two spaces, from a chat that has no record, has the
  argument of one space, empty after trimming; it is answered by the error reply and the map
  has a record more.
\<close>

theorem caption_empty_counterexample:
  "matchCaption ''/graphenko_caption  '' = Some '' '' \<and> trim '' '' = []
   \<and> processCommandUpdate
        \<lparr> message_api = (\<lambda>cs. Ok (Some 1)), group_api = (\<lambda>cs. Thrown), plain_api = (\<lambda>cs. Ok ()),
          http_api = (\<lambda>cs. HttpThrown), url_parses = (\<lambda>u. True) \<rparr>
        \<lparr> my_chat_member = None,
          upd_message = Some \<lparr> msg_chat = Some \<lparr> chat_id = 777, chat_type = ''private'' \<rparr>,
                                msg_text = Some ''/graphenko_caption  '', msg_caption = None,
                                msg_message_id = Some 15 \<rparr>,
          channel_post = None \<rparr>
        ([], \<lparr> messageMap = [], mapDirty = False, calls = [] \<rparr>)
     = ([''777''],
        \<lparr> messageMap = [(''777'', emptyRecord)], mapDirty = False,
          calls = [SendMessage ''777'' CaptionEmpty] \<rparr>)
   \<and> messageMap \<lparr> messageMap = [(''777'', emptyRecord)], mapDirty = False,
                    calls = [SendMessage ''777'' CaptionEmpty] \<rparr>
       \<noteq> messageMap \<lparr> messageMap = [], mapDirty = False, calls = [] \<rparr>"
proof -
  have m: "matchCaption ''/graphenko_caption  '' = Some '' ''"
    by (simp add: matchCaption_def commandMatch_def captionTail_def toLowerCase_def lowerChar_def
        white)
  have t: "trim '' '' = []"
    by (simp add: trim_def white)
  have k: "String_of_int 777 = ''777''"
    by (simp add: String_of_int_def digitChar_def)
  show ?thesis
    by (simp add: m t k processCommandUpdate_def strOr_def captionCommand_def ensureChat_def
        toLowerCase_def request_def Let_def)
qed


text \<open>
  Claim C6. For an image command: a URL that does not start with the base path, or does not
  end with \<open>.png\<close> in any case of letters, or does not parse, is answered by the usage
  reply and leaves the map and the dirty flag as they were. A URL that passes these tests and
  the remote verification (the last reply to the fetch requests is \<open>ok\<close>) is stored as
  the \<open>image_url\<close> of the chat and the map is dirty; the deletion of a pending welcome
  message is requested, and its id is cleared exactly when the reply to that request is
  \<open>ok\<close> or says that the message is not there; with no pending welcome message no
  deletion is requested but that of the command message. A URL that passes the tests and fails
  the remote verification is answered by the reply that says so, and nothing is stored.
\<close>

theorem image_command:
  assumes "(case upd_message u of Some m \<Rightarrow> Some m | None \<Rightarrow> channel_post u) = Some msg"
    and "msg_chat msg = Some chat"
    and "matchCaption (strOr (msg_text msg) (strOr (msg_caption msg) [])) = None"
    and "matchImage (strOr (msg_text msg) (strOr (msg_caption msg) [])) = Some url"
    and "chatId = String_of_int (chat_id chat)"
    and "st' = snd (processCommandUpdate e u (handled, st))"
    and "log = calls st @ fetches e url (calls st)"
  shows
    "(\<not> startsWith url OUTAGE_IMAGES_BASE \<or> \<not> endsWith (toLowerCase url) ''.png''
        \<or> \<not> url_parses e url \<longrightarrow>
        processCommandUpdate e u (handled, st) =
          (handled @ [chatId], st\<lparr> calls := calls st @ [SendMessage chatId ImageUsage] \<rparr>)
        \<and> messageMap st' = messageMap st \<and> mapDirty st' = mapDirty st)
     \<and> (startsWith url OUTAGE_IMAGES_BASE \<and> endsWith (toLowerCase url) ''.png'' \<and> url_parses e url
          \<and> fetched e url (calls st) \<longrightarrow>
        image_url (recordOf st' chatId) = Some (Single url) \<and> mapDirty st'
        \<and> (\<forall>wid. welcome_message_id (recordOf st chatId) = Some wid \<and> wid \<noteq> 0 \<longrightarrow>
              calls st' = log @ [DeleteMessage chatId wid, SendMessage chatId ImageSaved]
                            @ commandDeletion chatId msg
              \<and> welcome_message_id (recordOf st' chatId) =
                  (case plain_api e (log @ [DeleteMessage chatId wid]) of
                     Ok x \<Rightarrow> None
                   | Failed c d \<Rightarrow>
                       if c = Some 400 \<and> describesLower d ''message to delete not found''
                       then None else Some wid
                   | Thrown \<Rightarrow> Some wid))
        \<and> (\<not> truthyId (welcome_message_id (recordOf st chatId)) \<longrightarrow>
              calls st' = log @ [SendMessage chatId ImageSaved] @ commandDeletion chatId msg
              \<and> welcome_message_id (recordOf st' chatId) = welcome_message_id (recordOf st chatId)))
     \<and> (startsWith url OUTAGE_IMAGES_BASE \<and> endsWith (toLowerCase url) ''.png'' \<and> url_parses e url
          \<and> \<not> fetched e url (calls st) \<longrightarrow>
        processCommandUpdate e u (handled, st) =
          (handled @ [chatId], st\<lparr> calls := log @ [SendMessage chatId ImageUnverified] \<rparr>))"
proof -
  have run: "processCommandUpdate e u (handled, st) = imageCommand e chatId msg url (handled, st)"
    using processCommandUpdate_image [OF assms(1-4), of e "(handled, st)"] assms(5) by simp
  have invalid: "\<not> startsWith url OUTAGE_IMAGES_BASE \<or> \<not> endsWith (toLowerCase url) ''.png''
        \<or> \<not> url_parses e url \<longrightarrow>
        processCommandUpdate e u (handled, st) =
          (handled @ [chatId], st\<lparr> calls := calls st @ [SendMessage chatId ImageUsage] \<rparr>)
        \<and> messageMap st' = messageMap st \<and> mapDirty st' = mapDirty st"
  proof
    assume "\<not> startsWith url OUTAGE_IMAGES_BASE \<or> \<not> endsWith (toLowerCase url) ''.png''
        \<or> \<not> url_parses e url"
    then have "\<not> isValidOutageImageUrl e url"
      by (auto simp add: isValidOutageImageUrl_def)
    then have "processCommandUpdate e u (handled, st) =
        (handled @ [chatId], request (SendMessage chatId ImageUsage) st)"
      by (simp add: run imageCommand_invalid)
    then show "processCommandUpdate e u (handled, st) =
          (handled @ [chatId], st\<lparr> calls := calls st @ [SendMessage chatId ImageUsage] \<rparr>)
        \<and> messageMap st' = messageMap st \<and> mapDirty st' = mapDirty st"
      by (simp add: assms(6) request_def)
  qed
  have saved: "startsWith url OUTAGE_IMAGES_BASE \<and> endsWith (toLowerCase url) ''.png'' \<and> url_parses e url
          \<and> fetched e url (calls st) \<longrightarrow>
        image_url (recordOf st' chatId) = Some (Single url) \<and> mapDirty st'
        \<and> (\<forall>wid. welcome_message_id (recordOf st chatId) = Some wid \<and> wid \<noteq> 0 \<longrightarrow>
              calls st' = log @ [DeleteMessage chatId wid, SendMessage chatId ImageSaved]
                            @ commandDeletion chatId msg
              \<and> welcome_message_id (recordOf st' chatId) =
                  (case plain_api e (log @ [DeleteMessage chatId wid]) of
                     Ok x \<Rightarrow> None
                   | Failed c d \<Rightarrow>
                       if c = Some 400 \<and> describesLower d ''message to delete not found''
                       then None else Some wid
                   | Thrown \<Rightarrow> Some wid))
        \<and> (\<not> truthyId (welcome_message_id (recordOf st chatId)) \<longrightarrow>
              calls st' = log @ [SendMessage chatId ImageSaved] @ commandDeletion chatId msg
              \<and> welcome_message_id (recordOf st' chatId) = welcome_message_id (recordOf st chatId))"
  proof
    assume a: "startsWith url OUTAGE_IMAGES_BASE \<and> endsWith (toLowerCase url) ''.png'' \<and> url_parses e url
          \<and> fetched e url (calls st)"
    then have v: "isValidOutageImageUrl e url" and w: "fetched e url (calls st)"
      by (simp_all add: isValidOutageImageUrl_def)
    have st': "st' = snd (imageCommand e chatId msg url (handled, st))"
      by (simp add: assms(6) run)
    note rec = imageCommand_saved(1) [OF v w assms(7), of chatId msg handled]
    note dirty = imageCommand_saved(2) [OF v w assms(7), of chatId msg handled]
    note log = imageCommand_saved(3) [OF v w assms(7), of chatId msg handled]
    show "image_url (recordOf st' chatId) = Some (Single url) \<and> mapDirty st'
        \<and> (\<forall>wid. welcome_message_id (recordOf st chatId) = Some wid \<and> wid \<noteq> 0 \<longrightarrow>
              calls st' = log @ [DeleteMessage chatId wid, SendMessage chatId ImageSaved]
                            @ commandDeletion chatId msg
              \<and> welcome_message_id (recordOf st' chatId) =
                  (case plain_api e (log @ [DeleteMessage chatId wid]) of
                     Ok x \<Rightarrow> None
                   | Failed c d \<Rightarrow>
                       if c = Some 400 \<and> describesLower d ''message to delete not found''
                       then None else Some wid
                   | Thrown \<Rightarrow> Some wid))
        \<and> (\<not> truthyId (welcome_message_id (recordOf st chatId)) \<longrightarrow>
              calls st' = log @ [SendMessage chatId ImageSaved] @ commandDeletion chatId msg
              \<and> welcome_message_id (recordOf st' chatId) = welcome_message_id (recordOf st chatId))"
    proof (intro conjI allI impI)
      show "image_url (recordOf st' chatId) = Some (Single url)"
        unfolding st' rec by simp
      show "mapDirty st'"
        unfolding st' by (rule dirty)
      show "calls st' = log @ [DeleteMessage chatId wid, SendMessage chatId ImageSaved]
                            @ commandDeletion chatId msg"
        if "welcome_message_id (recordOf st chatId) = Some wid \<and> wid \<noteq> 0" for wid
        unfolding st' log using that by simp
      show "welcome_message_id (recordOf st' chatId) =
                  (case plain_api e (log @ [DeleteMessage chatId wid]) of
                     Ok x \<Rightarrow> None
                   | Failed c d \<Rightarrow>
                       if c = Some 400 \<and> describesLower d ''message to delete not found''
                       then None else Some wid
                   | Thrown \<Rightarrow> Some wid)"
        if "welcome_message_id (recordOf st chatId) = Some wid \<and> wid \<noteq> 0" for wid
        unfolding st' rec using that by (simp split: response.splits)
      show "calls st' = log @ [SendMessage chatId ImageSaved] @ commandDeletion chatId msg"
        if "\<not> truthyId (welcome_message_id (recordOf st chatId))"
        unfolding st' log using that by (simp add: truthyId_def split: option.splits)
      show "welcome_message_id (recordOf st' chatId) = welcome_message_id (recordOf st chatId)"
        if "\<not> truthyId (welcome_message_id (recordOf st chatId))"
        unfolding st' rec using that by (simp add: truthyId_def split: option.splits)
    qed
  qed
  have unverified: "startsWith url OUTAGE_IMAGES_BASE \<and> endsWith (toLowerCase url) ''.png''
          \<and> url_parses e url \<and> \<not> fetched e url (calls st) \<longrightarrow>
        processCommandUpdate e u (handled, st) =
          (handled @ [chatId], st\<lparr> calls := log @ [SendMessage chatId ImageUnverified] \<rparr>)"
  proof
    assume a: "startsWith url OUTAGE_IMAGES_BASE \<and> endsWith (toLowerCase url) ''.png''
          \<and> url_parses e url \<and> \<not> fetched e url (calls st)"
    then have v: "isValidOutageImageUrl e url" and w: "\<not> fetched e url (calls st)"
      by (simp_all add: isValidOutageImageUrl_def)
    show "processCommandUpdate e u (handled, st) =
          (handled @ [chatId], st\<lparr> calls := log @ [SendMessage chatId ImageUnverified] \<rparr>)"
      unfolding run by (rule imageCommand_unverified [OF v w assms(7)])
  qed
  from invalid saved unverified show ?thesis by (intro conjI)
qed


theorem image_command_witness:
  "image_url (recordOf (snd (processCommandUpdate
        \<lparr> message_api = (\<lambda>cs. Ok (Some 1)), group_api = (\<lambda>cs. Thrown), plain_api = (\<lambda>cs. Ok ()),
          http_api = (\<lambda>cs. if length cs < 2 then HttpResponse False None
                           else HttpResponse True (Some ''image/png'')),
          url_parses = (\<lambda>u. True) \<rparr>
        \<lparr> my_chat_member = None, upd_message = None,
          channel_post = Some \<lparr> msg_chat = Some \<lparr> chat_id = -100111, chat_type = ''channel'' \<rparr>,
                                 msg_text = Some (''/graphenko_image '' @ [CHR 0xC2, CHR 0xA0] @ ''https://raw.githubusercontent.com/Baskerville42/outage-data-ua/refs/heads/main/images/kyiv/gpv-3-2-emergency.png''),
                                 msg_caption = None, msg_message_id = Some 15 \<rparr> \<rparr>
        ([], \<lparr> messageMap = [(''-100111'', emptyRecord\<lparr> welcome_message_id := Some 9 \<rparr>)],
               mapDirty = False, calls = [] \<rparr>))) ''-100111'')
     = Some (Single ''https://raw.githubusercontent.com/Baskerville42/outage-data-ua/refs/heads/main/images/kyiv/gpv-3-2-emergency.png'')
   \<and> welcome_message_id (recordOf (snd (processCommandUpdate
        \<lparr> message_api = (\<lambda>cs. Ok (Some 1)), group_api = (\<lambda>cs. Thrown), plain_api = (\<lambda>cs. Ok ()),
          http_api = (\<lambda>cs. if length cs < 2 then HttpResponse False None
                           else HttpResponse True (Some ''image/png'')),
          url_parses = (\<lambda>u. True) \<rparr>
        \<lparr> my_chat_member = None, upd_message = None,
          channel_post = Some \<lparr> msg_chat = Some \<lparr> chat_id = -100111, chat_type = ''channel'' \<rparr>,
                                 msg_text = Some (''/graphenko_image '' @ [CHR 0xC2, CHR 0xA0] @ ''https://raw.githubusercontent.com/Baskerville42/outage-data-ua/refs/heads/main/images/kyiv/gpv-3-2-emergency.png''),
                                 msg_caption = None, msg_message_id = Some 15 \<rparr> \<rparr>
        ([], \<lparr> messageMap = [(''-100111'', emptyRecord\<lparr> welcome_message_id := Some 9 \<rparr>)],
               mapDirty = False, calls = [] \<rparr>))) ''-100111'') = None
   \<and> calls (snd (processCommandUpdate
        \<lparr> message_api = (\<lambda>cs. Ok (Some 1)), group_api = (\<lambda>cs. Thrown), plain_api = (\<lambda>cs. Ok ()),
          http_api = (\<lambda>cs. if length cs < 2 then HttpResponse False None
                           else HttpResponse True (Some ''image/png'')),
          url_parses = (\<lambda>u. True) \<rparr>
        \<lparr> my_chat_member = None, upd_message = None,
          channel_post = Some \<lparr> msg_chat = Some \<lparr> chat_id = -100111, chat_type = ''channel'' \<rparr>,
                                 msg_text = Some (''/graphenko_image '' @ [CHR 0xC2, CHR 0xA0] @ ''https://raw.githubusercontent.com/Baskerville42/outage-data-ua/refs/heads/main/images/kyiv/gpv-3-2-emergency.png''),
                                 msg_caption = None, msg_message_id = Some 15 \<rparr> \<rparr>
        ([], \<lparr> messageMap = [(''-100111'', emptyRecord\<lparr> welcome_message_id := Some 9 \<rparr>)],
               mapDirty = False, calls = [] \<rparr>)))
     = [Fetch ''HEAD'' ''https://raw.githubusercontent.com/Baskerville42/outage-data-ua/refs/heads/main/images/kyiv/gpv-3-2-emergency.png'',
        Fetch ''GET'' ''https://raw.githubusercontent.com/Baskerville42/outage-data-ua/refs/heads/main/images/kyiv/gpv-3-2-emergency.png'',
        DeleteMessage ''-100111'' 9, SendMessage ''-100111'' ImageSaved,
        DeleteMessage ''-100111'' 15]"
proof -
  let ?e = "\<lparr> message_api = (\<lambda>cs. Ok (Some 1)), group_api = (\<lambda>cs. Thrown), plain_api = (\<lambda>cs. Ok ()),
          http_api = (\<lambda>cs. if length cs < 2 then HttpResponse False None
                           else HttpResponse True (Some ''image/png'')),
          url_parses = (\<lambda>u. True) \<rparr>"
  let ?url = "''https://raw.githubusercontent.com/Baskerville42/outage-data-ua/refs/heads/main/images/kyiv/gpv-3-2-emergency.png''"
  let ?chat = "\<lparr> chat_id = -100111, chat_type = ''channel'' \<rparr>"
  let ?msg = "\<lparr> msg_chat = Some ?chat,
               msg_text = Some (''/graphenko_image '' @ [CHR 0xC2, CHR 0xA0] @ ''https://raw.githubusercontent.com/Baskerville42/outage-data-ua/refs/heads/main/images/kyiv/gpv-3-2-emergency.png''),
               msg_caption = None, msg_message_id = Some 15 \<rparr>"
  let ?u = "\<lparr> my_chat_member = None, upd_message = None, channel_post = Some ?msg \<rparr>"
  let ?st = "\<lparr> messageMap = [(''-100111'', emptyRecord\<lparr> welcome_message_id := Some 9 \<rparr>)],
               mapDirty = False, calls = [] \<rparr>"
  let ?log = "[Fetch ''HEAD'' ?url, Fetch ''GET'' ?url]"
  have h1: "(case upd_message ?u of Some m \<Rightarrow> Some m | None \<Rightarrow> channel_post ?u) = Some ?msg"
    by simp
  have h2: "msg_chat ?msg = Some ?chat" by simp
  have h3: "matchCaption (strOr (msg_text ?msg) (strOr (msg_caption ?msg) [])) = None"
    by (simp add: strOr_def matchCaption_def commandMatch_def toLowerCase_def lowerChar_def white)
  have h4: "matchImage (strOr (msg_text ?msg) (strOr (msg_caption ?msg) [])) = Some ?url"
    by (simp add: strOr_def matchImage_def commandMatch_def imageTail_def toLowerCase_def
        lowerChar_def white)
  have h5: "''-100111'' = String_of_int (chat_id ?chat)"
    by (simp add: String_of_int_def digitChar_def)
  have h7: "?log = calls ?st @ fetches ?e ?url (calls ?st)"
    by (simp add: fetches_def)
  have v1: "startsWith ?url OUTAGE_IMAGES_BASE"
    by (simp add: OUTAGE_IMAGES_BASE_def)
  have v2: "endsWith (toLowerCase ?url) ''.png''"
    by (simp add: endsWith_def toLowerCase_def lowerChar_def)
  have v3: "url_parses ?e ?url" by simp
  have v4: "fetched ?e ?url (calls ?st)"
    by (simp add: fetched_def fetches_def)
  have w: "welcome_message_id (recordOf ?st ''-100111'') = Some 9"
    by (simp add: recordOf_def getChat_def)
  have cd: "commandDeletion ''-100111'' ?msg = [DeleteMessage ''-100111'' 15]"
    by (simp add: commandDeletion_def)
  note t = image_command [OF h1 h2 h3 h4 h5 refl h7, THEN conjunct2, THEN conjunct1]
  from t v1 v2 v3 v4 have
    "image_url (recordOf (snd (processCommandUpdate ?e ?u ([], ?st))) ''-100111'') = Some (Single ?url)"
    and "\<forall>wid. welcome_message_id (recordOf ?st ''-100111'') = Some wid \<and> wid \<noteq> 0 \<longrightarrow>
              calls (snd (processCommandUpdate ?e ?u ([], ?st)))
                = ?log @ [DeleteMessage ''-100111'' wid, SendMessage ''-100111'' ImageSaved]
                            @ commandDeletion ''-100111'' ?msg
              \<and> welcome_message_id (recordOf (snd (processCommandUpdate ?e ?u ([], ?st))) ''-100111'') =
                  (case plain_api ?e (?log @ [DeleteMessage ''-100111'' wid]) of
                     Ok x \<Rightarrow> None
                   | Failed c d \<Rightarrow>
                       if c = Some 400 \<and> describesLower d ''message to delete not found''
                       then None else Some wid
                   | Thrown \<Rightarrow> Some wid)"
    by blast+
  with w cd show ?thesis by simp
qed

section \<open>Save and load\<close>

lemma get_JObj [simp]: "get (JObj kvs) name = map_of kvs name"
  by (simp add: get_def props_def)

lemma distinct_fields: "distinct (map fst fields)"
  by (simp add: fields_def)

lemma keepField_pair:
  "keepField val (name, how) = (case kept val name how of None \<Rightarrow> [] | Some x \<Rightarrow> [(name, x)])"
  by (simp add: keepField_def split: option.splits)

lemma map_of_kept_absent:
  "name \<notin> fst ` set fs \<Longrightarrow> map_of (concat (map (keepField val) fs)) name = None"
proof (induction fs)
  case Nil
  show ?case by simp
next
  case (Cons f fs)
  obtain n h where f: "f = (n, h)" by (cases f)
  from Cons.prems have "name \<noteq> n" and "name \<notin> fst ` set fs" by (auto simp add: f)
  then show ?case
    using Cons.IH by (auto simp add: f keepField_pair map_add_def split: option.splits)
qed

lemma map_of_kept:
  "distinct (map fst fs) \<Longrightarrow> (name, how) \<in> set fs \<Longrightarrow>
     map_of (concat (map (keepField val) fs)) name = kept val name how"
proof (induction fs)
  case Nil
  then show ?case by simp
next
  case (Cons f fs)
  show ?case
  proof (cases "f = (name, how)")
    case True
    then have "name \<notin> fst ` set fs" using Cons.prems(1) by auto
    then have "map_of (concat (map (keepField val) fs)) name = None"
      by (rule map_of_kept_absent)
    then show ?thesis
      using True by (auto simp add: keepField_pair map_add_def split: option.splits)
  next
    case False
    obtain n h where f: "f = (n, h)" by (cases f)
    from False have in_fs: "(name, how) \<in> set fs" using Cons.prems(2) by auto
    then have "name \<noteq> n" using Cons.prems(1) by (force simp add: f)
    moreover have "map_of (concat (map (keepField val) fs)) name = kept val name how"
      using Cons.IH Cons.prems(1) in_fs by simp
    ultimately show ?thesis
      by (auto simp add: f keepField_pair map_add_def split: option.splits)
  qed
qed

lemma kept_kept:
  "get w name = kept val name how \<Longrightarrow> kept w name how = kept val name how"
  by (auto simp add: kept_def split: option.splits if_splits)

lemma keepField_again:
  assumes "distinct (map fst fs)" and "set gs \<subseteq> set fs"
  shows "concat (map (keepField (JObj (concat (map (keepField val) fs)))) gs)
           = concat (map (keepField val) gs)"
  using assms(2)
proof (induction gs)
  case Nil
  show ?case by simp
next
  case (Cons g gs)
  obtain name how where g: "g = (name, how)" by (cases g)
  have "(name, how) \<in> set fs" using Cons.prems g by simp
  then have "get (JObj (concat (map (keepField val) fs))) name = kept val name how"
    using map_of_kept [OF assms(1)] by simp
  then have "kept (JObj (concat (map (keepField val) fs))) name how = kept val name how"
    by (rule kept_kept)
  then have "keepField (JObj (concat (map (keepField val) fs))) g = keepField val g"
    by (simp add: keepField_pair g)
  then show ?case
    using Cons by simp
qed

lemma copyFields_again: "copyFields (JObj (copyFields val)) = copyFields val"
  unfolding copyFields_def by (rule keepField_again [OF distinct_fields]) simp

lemma copyFields_Nil: "copyFields (JObj []) = []"
  by (simp add: copyFields_def fields_def keepField_pair kept_def)

lemma entryOf_again: "copyFields (JObj (entryOf v)) = entryOf v"
  by (simp add: entryOf_def copyFields_again copyFields_Nil split: option.splits)

lemma copyFields_not_deleted: "map_of (copyFields val) ''deleted'' = None"
  unfolding copyFields_def by (rule map_of_kept_absent) (simp add: fields_def)

lemma entryOf_not_deleted: "map_of (entryOf v) ''deleted'' = None"
  by (simp add: entryOf_def copyFields_not_deleted split: option.splits)


text \<open>A chat id is neither of the two keys that the load treats apart.\<close>

lemma digits_hd: "digits n \<noteq> [] \<and> hd (digits n) \<in> set ''0123456789''"
proof (induction n rule: digits.induct)
  case (1 n)
  show ?case
  proof (cases "n < 10")
    case True
    then have "digitChar n \<in> set ''0123456789''"
      unfolding digitChar_def by (intro nth_mem) simp
    then show ?thesis
      using True by (subst digits.simps, subst digits.simps) simp
  next
    case False
    then show ?thesis
      using 1 by (subst digits.simps, subst digits.simps) simp
  qed
qed

lemma String_of_int_hd:
  "String_of_int i \<noteq> [] \<and> hd (String_of_int i) \<in> set ''-0123456789''"
  using digits_hd [of "nat i"] digits_hd [of "nat (- i)"]
  by (auto simp add: String_of_int_def)

lemma chat_id_key: "String_of_int i \<noteq> ''chat_id'' \<and> String_of_int i \<noteq> ''__proto__''"
proof -
  have "hd ''chat_id'' \<notin> set ''-0123456789''" and "hd ''__proto__'' \<notin> set ''-0123456789''"
    by simp_all
  then show ?thesis
    using String_of_int_hd [of i] by metis
qed

text \<open>A comparison that agrees with the order of the characters sorts as that order does.\<close>

lemma insortBy_insort:
  "\<forall>y \<in> set ys. (cmp x y \<le> 0) = (x \<le> y) \<Longrightarrow> insortBy cmp x ys = insort x ys"
  by (induction ys) simp_all

lemma sortBy_sort:
  "\<forall>a \<in> set xs. \<forall>b \<in> set xs. (cmp a b \<le> 0) = (a \<le> b) \<Longrightarrow> sortBy cmp xs = sort xs"
proof (induction xs)
  case Nil
  show ?case by (simp add: sortBy_def)
next
  case (Cons x xs)
  have "sortBy cmp xs = sort xs" using Cons by simp
  moreover have "insortBy cmp x (sort xs) = insort x (sort xs)"
    using Cons.prems by (intro insortBy_insort) simp
  ultimately show ?case by (simp add: sortBy_def)
qed

lemma save_sorted:
  assumes "\<forall>a \<in> fst ` set m. \<forall>b \<in> fst ` set m. (cmp a b \<le> 0) = (a \<le> b)"
  shows "saveMessageMapToFile cmp m
           = JArr (map (\<lambda>k. JObj [(k, JObj (entryOf (map_of m k)))]) (sort (map fst m)))"
  using sortBy_sort [of "map fst m" cmp] assms by (simp add: saveMessageMapToFile_def)

text \<open>Loading the items that a save wrote appends them as they are.\<close>

lemma loadItem_canonical:
  assumes "k \<noteq> ''chat_id''" and "k \<noteq> ''__proto__''" and "map_of m k = None"
  shows "loadItem (JObj [(k, JObj (entryOf v))]) (m, n) = (m @ [(k, JObj (entryOf v))], n)"
  using assms
  by (simp add: loadItem_def assign_def isObject_def props_def get_def [of "JObj [_]"]
      entryOf_not_deleted entryOf_again update_absent)

lemma fold_loadItem_canonical:
  assumes "distinct ks" and "''chat_id'' \<notin> set ks" and "''__proto__'' \<notin> set ks"
    and "set ks \<inter> fst ` set m = {}"
  shows "fold loadItem (map (\<lambda>k. JObj [(k, JObj (entryOf (E k)))]) ks) (m, n)
           = (m @ map (\<lambda>k. (k, JObj (entryOf (E k)))) ks, n)"
  using assms
proof (induction ks arbitrary: m)
  case Nil
  show ?case by simp
next
  case (Cons k ks)
  have absent: "map_of m k = None"
    using Cons.prems(4) by (simp add: map_of_eq_None_iff)
  have step: "loadItem (JObj [(k, JObj (entryOf (E k)))]) (m, n) = (m @ [(k, JObj (entryOf (E k)))], n)"
    using Cons.prems(2,3) absent by (intro loadItem_canonical) auto
  have "set ks \<inter> fst ` set (m @ [(k, JObj (entryOf (E k)))]) = {}"
    using Cons.prems(1,4) by auto
  then show ?case
    using Cons.IH [of "m @ [(k, JObj (entryOf (E k)))]"] Cons.prems(1,2,3)
    by (simp add: step)
qed

lemma load_saved:
  assumes "distinct ks" and "''chat_id'' \<notin> set ks" and "''__proto__'' \<notin> set ks"
  shows "loadMessageMapFromFile (Parsed (JArr (map (\<lambda>k. JObj [(k, JObj (entryOf (E k)))]) ks)))
           = (map (\<lambda>k. (k, JObj (entryOf (E k)))) ks, False)"
  using fold_loadItem_canonical [OF assms, of "[]" E False]
  by (simp add: loadMessageMapFromFile_def)

lemma map_of_keyed:
  "k \<in> set ks \<Longrightarrow> map_of (map (\<lambda>k. (k, f k)) ks) k = Some (f k)"
  by (induction ks) auto

lemma entryOf_loaded:
  "k \<in> set ks \<Longrightarrow>
     entryOf (map_of (map (\<lambda>k. (k, JObj (entryOf (E k)))) ks) k) = entryOf (E k)"
  using map_of_keyed [of k ks "\<lambda>k. JObj (entryOf (E k))"]
  by (simp add: entryOf_def [of "Some _"] isObject_def entryOf_again)

text \<open>The fields of a record in the file and in the map loaded from it.\<close>

lemma props_single:
  "concat (map (props \<circ> (\<lambda>k. JObj [(k, f k)])) ks) = map (\<lambda>k. (k, f k)) ks"
  by (induction ks) (simp_all add: props_def)

lemma fieldInFile_saved:
  "k \<in> set ks \<Longrightarrow>
     fieldInFile (JArr (map (\<lambda>k. JObj [(k, JObj (entryOf (E k)))]) ks)) k f
       = map_of (entryOf (E k)) f"
  using map_of_keyed [of k ks "\<lambda>k. JObj (entryOf (E k))"]
  by (simp add: fieldInFile_def fieldInMap_def props_single)

lemma fieldInMap_loaded:
  "k \<in> set ks \<Longrightarrow>
     fieldInMap (map (\<lambda>k. (k, JObj (entryOf (E k)))) ks) k f = map_of (entryOf (E k)) f"
  using map_of_keyed [of k ks "\<lambda>k. JObj (entryOf (E k))"]
  by (simp add: fieldInMap_def)

lemma entryOf_field:
  assumes "(f, how) \<in> set fields"
  shows "map_of (entryOf (map_of m k)) f =
           (case fieldInMap m k f of
              None \<Rightarrow> None
            | Some x \<Rightarrow> if how = Truthy \<and> \<not> truthy x then None else Some x)"
proof (cases "map_of m k")
  case None
  then show ?thesis by (simp add: entryOf_def fieldInMap_def)
next
  case (Some val)
  show ?thesis
  proof (cases "isObject val")
    case True
    have "map_of (copyFields val) f = kept val f how"
      unfolding copyFields_def by (rule map_of_kept [OF distinct_fields assms])
    then show ?thesis
      using Some True by (simp add: entryOf_def fieldInMap_def kept_def)
  next
    case False
    then have "get val f = None"
      by (cases val) (simp_all add: isObject_def get_def props_def)
    then show ?thesis
      using Some False by (simp add: entryOf_def fieldInMap_def)
  qed
qed

lemma monitor_kept:
  assumes "f \<in> set monitorFields"
  shows "(f, if f = ''monitor_host'' then Truthy else Defined) \<in> set fields"
  using assms by (auto simp add: monitorFields_def fields_def)



text \<open>
  Claim C7. The file is taken as the JSON value it holds: a save writes the text of the array
  \<open>saveMessageMapToFile\<close> builds, and a load parses that text back to the array. The map
  has one record for each of its chat ids (the decimal text of an integer, as
  \<open>String(chat.id)\<close> gives it), and \<open>localeCompare\<close> orders these ids as the order of
  the characters does. Then loading the saved file and saving it again writes the same array,
  so the same text; the load does not report a normalisation; the array holds one single-key
  object per chat, the keys sorted; and every monitor field of every record is in the loaded
  map and in the second file what it is in the first file, where it is what the map that was
  saved holds (but for an empty \<open>monitor_host\<close>, which a save does not write).
\<close>

theorem save_load_round_trip:
  assumes "map fst m = map String_of_int ids" and "distinct (map fst m)"
    and "\<forall>a \<in> fst ` set m. \<forall>b \<in> fst ` set m. (localeCompare a b \<le> 0) = (a \<le> b)"
    and "file = saveMessageMapToFile localeCompare m"
    and "loaded = fst (loadMessageMapFromFile (Parsed file))"
  shows
    "saveMessageMapToFile localeCompare loaded = file
     \<and> snd (loadMessageMapFromFile (Parsed file)) = False
     \<and> (\<exists>ks. file = JArr (map (\<lambda>k. JObj [(k, JObj (entryOf (map_of m k)))]) ks)
             \<and> sorted ks \<and> distinct ks \<and> set ks = fst ` set m)
     \<and> (\<forall>k \<in> fst ` set m. \<forall>f \<in> set monitorFields.
           fieldInMap loaded k f = fieldInFile file k f
           \<and> fieldInFile (saveMessageMapToFile localeCompare loaded) k f = fieldInFile file k f
           \<and> fieldInFile file k f =
               (case fieldInMap m k f of
                  None \<Rightarrow> None
                | Some x \<Rightarrow> if f = ''monitor_host'' \<and> \<not> truthy x then None else Some x))"
proof -
  let ?ks = "sort (map fst m)"
  let ?E = "map_of m"
  let ?loaded = "map (\<lambda>k. (k, JObj (entryOf (?E k)))) ?ks"
  have ids: "k \<noteq> ''chat_id'' \<and> k \<noteq> ''__proto__''" if "k \<in> set (map fst m)" for k
    using that chat_id_key unfolding assms(1) by auto
  have d: "distinct ?ks" using assms(2) by simp
  have n1: "''chat_id'' \<notin> set ?ks" and n2: "''__proto__'' \<notin> set ?ks"
    using ids by auto
  have fl: "file = JArr (map (\<lambda>k. JObj [(k, JObj (entryOf (?E k)))]) ?ks)"
    unfolding assms(4) by (rule save_sorted [OF assms(3)])
  have ld: "loadMessageMapFromFile (Parsed file) = (?loaded, False)"
    unfolding fl by (rule load_saved [OF d n1 n2])
  have loaded: "loaded = ?loaded"
    by (simp add: assms(5) ld)
  have keys: "map fst ?loaded = ?ks" by (simp add: comp_def)
  have agree: "\<forall>a \<in> fst ` set ?loaded. \<forall>b \<in> fst ` set ?loaded. (localeCompare a b \<le> 0) = (a \<le> b)"
    using assms(3) by (simp add: image_comp comp_def)
  have again: "sort ?ks = ?ks" by (simp add: sorted_sort_id)
  have entry: "entryOf (map_of ?loaded k) = entryOf (?E k)" if "k \<in> set ?ks" for k
    using that by (rule entryOf_loaded)
  have "saveMessageMapToFile localeCompare ?loaded
          = JArr (map (\<lambda>k. JObj [(k, JObj (entryOf (map_of ?loaded k)))]) ?ks)"
    unfolding save_sorted [OF agree] keys again ..
  also have "\<dots> = file"
    unfolding fl using entry by simp
  finally have rt: "saveMessageMapToFile localeCompare loaded = file"
    unfolding loaded .
  have nf: "snd (loadMessageMapFromFile (Parsed file)) = False"
    by (simp add: ld)
  have shape: "\<exists>ks. file = JArr (map (\<lambda>k. JObj [(k, JObj (entryOf (map_of m k)))]) ks)
             \<and> sorted ks \<and> distinct ks \<and> set ks = fst ` set m"
    using d fl by (intro exI [of _ ?ks]) simp
  have recs: "fieldInMap loaded k f = fieldInFile file k f
           \<and> fieldInFile (saveMessageMapToFile localeCompare loaded) k f = fieldInFile file k f
           \<and> fieldInFile file k f =
               (case fieldInMap m k f of
                  None \<Rightarrow> None
                | Some x \<Rightarrow> if f = ''monitor_host'' \<and> \<not> truthy x then None else Some x)"
    if k: "k \<in> fst ` set m" and f: "f \<in> set monitorFields" for k f
  proof -
    from k have in_ks: "k \<in> set ?ks" by simp
    have inFile: "fieldInFile file k f = map_of (entryOf (?E k)) f"
      unfolding fl using in_ks by (rule fieldInFile_saved)
    have inMap: "fieldInMap loaded k f = map_of (entryOf (?E k)) f"
      unfolding loaded using in_ks by (rule fieldInMap_loaded)
    have written: "map_of (entryOf (?E k)) f =
               (case fieldInMap m k f of
                  None \<Rightarrow> None
                | Some x \<Rightarrow> if f = ''monitor_host'' \<and> \<not> truthy x then None else Some x)"
      using entryOf_field [OF monitor_kept [OF f], of m k]
      by (simp split: option.splits)
    show ?thesis
      unfolding rt inMap inFile written by simp
  qed
  have every: "\<forall>k \<in> fst ` set m. \<forall>f \<in> set monitorFields.
           fieldInMap loaded k f = fieldInFile file k f
           \<and> fieldInFile (saveMessageMapToFile localeCompare loaded) k f = fieldInFile file k f
           \<and> fieldInFile file k f =
               (case fieldInMap m k f of
                  None \<Rightarrow> None
                | Some x \<Rightarrow> if f = ''monitor_host'' \<and> \<not> truthy x then None else Some x)"
    by (intro ballI) (rule recs)
  from rt nf shape every show ?thesis by (intro conjI)
qed

theorem save_load_round_trip_witness:
  "saveMessageMapToFile (\<lambda>a b. if a = b then 0 else if a \<le> b then - 1 else 1)
     (fst (loadMessageMapFromFile (Parsed (saveMessageMapToFile (\<lambda>a b. if a = b then 0 else if a \<le> b then - 1 else 1)
      [(''-200'', JObj [(''caption'', JStr ''x''), (''monitor_host'', JStr []),
                        (''monitor_port'', JNum 443)]),
       (''-100111'', JObj [(''image_url'', JStr ''https://host/a.png''), (''message_id'', JNum 42),
                           (''monitor_host'', JStr ''93.127.118.86''),
                           (''monitor_enabled'', JBool False)])]))))
   = JArr [JObj [(''-100111'', JObj [(''message_id'', JNum 42),
                                    (''image_url'', JStr ''https://host/a.png''),
                                    (''monitor_host'', JStr ''93.127.118.86''),
                                    (''monitor_enabled'', JBool False)])],
           JObj [(''-200'', JObj [(''caption'', JStr ''x''), (''monitor_port'', JNum 443)])]]
   \<and> fieldInMap (fst (loadMessageMapFromFile (Parsed (saveMessageMapToFile (\<lambda>a b. if a = b then 0 else if a \<le> b then - 1 else 1)
      [(''-200'', JObj [(''caption'', JStr ''x''), (''monitor_host'', JStr []),
                        (''monitor_port'', JNum 443)]),
       (''-100111'', JObj [(''image_url'', JStr ''https://host/a.png''), (''message_id'', JNum 42),
                           (''monitor_host'', JStr ''93.127.118.86''),
                           (''monitor_enabled'', JBool False)])])))) ''-100111'' ''monitor_enabled'' = Some (JBool False)"
proof -
  let ?cmp = "(\<lambda>a b. if a = b then 0 else if a \<le> b then - 1 else 1) :: string \<Rightarrow> string \<Rightarrow> int"
  let ?m = "[(''-200'', JObj [(''caption'', JStr ''x''), (''monitor_host'', JStr []),
                        (''monitor_port'', JNum 443)]),
       (''-100111'', JObj [(''image_url'', JStr ''https://host/a.png''), (''message_id'', JNum 42),
                           (''monitor_host'', JStr ''93.127.118.86''),
                           (''monitor_enabled'', JBool False)])]"
  have h1: "map fst ?m = map String_of_int [-200, -100111]"
    by (simp add: String_of_int_def digitChar_def)
  have h2: "distinct (map fst ?m)" by simp
  have h3: "\<forall>a \<in> fst ` set ?m. \<forall>b \<in> fst ` set ?m. (?cmp a b \<le> 0) = (a \<le> b)"
    by simp
  have s: "saveMessageMapToFile ?cmp ?m
     = JArr [JObj [(''-100111'', JObj [(''message_id'', JNum 42),
                                    (''image_url'', JStr ''https://host/a.png''),
                                    (''monitor_host'', JStr ''93.127.118.86''),
                                    (''monitor_enabled'', JBool False)])],
           JObj [(''-200'', JObj [(''caption'', JStr ''x''), (''monitor_port'', JNum 443)])]]"
    by (simp add: saveMessageMapToFile_def sortBy_def entryOf_def isObject_def copyFields_def
        fields_def keepField_def kept_def get_def props_def truthy_def)
  have e: "fieldInMap ?m ''-100111'' ''monitor_enabled'' = Some (JBool False)"
    by (simp add: fieldInMap_def get_def props_def)
  have k: "''-100111'' \<in> fst ` set ?m" and f: "''monitor_enabled'' \<in> set monitorFields"
    by (simp_all add: monitorFields_def)
  note t = save_load_round_trip [OF h1 h2 h3 refl refl]
  have "saveMessageMapToFile ?cmp (fst (loadMessageMapFromFile (Parsed (saveMessageMapToFile ?cmp ?m))))
          = saveMessageMapToFile ?cmp ?m"
    by (rule t [THEN conjunct1])
  moreover have "fieldInMap (fst (loadMessageMapFromFile (Parsed (saveMessageMapToFile ?cmp ?m))))
          ''-100111'' ''monitor_enabled'' = Some (JBool False)"
    using t [THEN conjunct2, THEN conjunct2, THEN conjunct2, rule_format, OF k f] e
    by simp
  ultimately show ?thesis by (simp only: s)
qed

end
